(* ===== verification/Prelude.thy ===== *)
theory Prelude
  imports Main "HOL-Library.Sublist"
begin

text \<open>
  Shared vocabulary of the development: the fact collections the component
  theories feed, and the JavaScript built-ins on strings and arrays that the
  sources call (\<open>String.prototype.split\<close>, \<open>Array.prototype.join\<close>,
  \<open>Array.prototype.pop\<close>, \<open>String.prototype.endsWith\<close>, the \<open>||\<close> operator
  on a possibly undefined string, and the interpolation of a possibly undefined
  value into a template literal).  A JavaScript string is a \<open>string\<close>; a value
  of type \<open>string | undefined\<close> is a \<open>string option\<close>, \<open>None\<close> being
  \<open>undefined\<close>.
\<close>

named_theorems act_simps "evaluation equations of the pipeline's effect actions"
named_theorems trace_simps "equations on event traces"

type_synonym js_string = string

section \<open>JavaScript built-ins\<close>

text \<open>\<open>xs.join(sep)\<close>: the elements separated by \<open>sep\<close>, the empty string for \<open>[]\<close>.\<close>

fun js_join :: "string \<Rightarrow> string list \<Rightarrow> string" where
  "js_join sep [] = []"
| "js_join sep [x] = x"
| "js_join sep (x # y # zs) = x @ sep @ js_join sep (y # zs)"

text \<open>
  \<open>s.split(c)\<close> for a one-character separator: the pieces between successive
  occurrences of \<open>c\<close>, so \<open>''''\<close> splits to \<open>['''']\<close> and a trailing
  separator gives a trailing empty piece.
\<close>

fun js_split :: "char \<Rightarrow> string \<Rightarrow> string list" where
  "js_split c [] = [[]]"
| "js_split c (x # xs) =
     (if x = c then [] # js_split c xs
      else (case js_split c xs of [] \<Rightarrow> [[x]] | w # ws \<Rightarrow> (x # w) # ws))"

text \<open>\<open>xs.pop()\<close> read for its result: the last element, \<open>undefined\<close> on \<open>[]\<close>.\<close>

definition js_pop :: "'a list \<Rightarrow> 'a option" where
  "js_pop xs = (if xs = [] then None else Some (last xs))"

text \<open>\<open>a || d\<close> on \<open>a : string | undefined\<close>: \<open>a\<close> unless it is falsy
  (\<open>undefined\<close> or the empty string).\<close>

fun js_or :: "string option \<Rightarrow> string \<Rightarrow> string" where
  "js_or None d = d"
| "js_or (Some s) d = (if s = [] then d else s)"

text \<open>\<open>`${a}`\<close> on \<open>a : string | undefined\<close>: \<open>undefined\<close> prints as the
  word \<open>undefined\<close>.\<close>

fun js_str :: "string option \<Rightarrow> string" where
  "js_str None = ''undefined''"
| "js_str (Some s) = s"

text \<open>\<open>s.endsWith(t)\<close>.\<close>

definition ends_with :: "string \<Rightarrow> string \<Rightarrow> bool" where
  "ends_with s t \<longleftrightarrow> length t \<le> length s \<and> drop (length s - length t) s = t"

section \<open>Lemmas on the built-ins\<close>

lemma js_split_not_Nil [simp]: "js_split c s \<noteq> []"
  by (induction s) (auto split: list.split)

lemma js_split_Cons_sep [simp]: "js_split c (c # xs) = [] # js_split c xs"
  by simp

lemma js_split_Cons_other [simp]:
  "x \<noteq> c \<Longrightarrow> js_split c (x # xs) = (x # hd (js_split c xs)) # tl (js_split c xs)"
  using js_split_not_Nil [of c xs] by (auto split: list.split)

declare js_split.simps(2) [simp del]

text \<open>No piece of a split holds the separator.\<close>

lemma js_split_pieces: "w \<in> set (js_split c s) \<Longrightarrow> c \<notin> set w"
proof (induction s arbitrary: w)
  case Nil
  then show ?case by simp
next
  case (Cons x xs)
  let ?r = "js_split c xs"
  show ?case
  proof (cases "x = c")
    case True
    with Cons show ?thesis by auto
  next
    case False
    with Cons.prems have "w = x # hd ?r \<or> w \<in> set (tl ?r)" by simp
    moreover have "hd ?r \<in> set ?r" by (simp add: list.set_sel(1))
    moreover have "\<And>v. v \<in> set (tl ?r) \<Longrightarrow> v \<in> set ?r" by (simp add: list.set_sel(2))
    ultimately show ?thesis using Cons.IH False by auto
  qed
qed

lemma js_join_Cons:
  "ws \<noteq> [] \<Longrightarrow> js_join sep (w # ws) = w @ sep @ js_join sep ws"
  by (cases ws) auto

text \<open>Splitting at \<open>c\<close> and joining with \<open>c\<close> gives back the string.\<close>

lemma js_join_split: "js_join [c] (js_split c s) = s"
proof (induction s)
  case Nil
  then show ?case by simp
next
  case (Cons x xs)
  show ?case
  proof (cases "x = c")
    case True
    with Cons.IH show ?thesis by (simp add: js_join_Cons)
  next
    case False
    obtain w ws where w: "js_split c xs = w # ws"
      using js_split_not_Nil by (cases "js_split c xs") auto
    with Cons.IH False show ?thesis by (cases ws) auto
  qed
qed

text \<open>A separator in the middle splits the string into the pieces of either side.\<close>

lemma js_split_append_sep:
  "js_split c (s @ c # r) = js_split c s @ js_split c r"
proof (induction s)
  case Nil
  then show ?case by simp
next
  case (Cons x xs)
  obtain w ws where "js_split c xs = w # ws"
    using js_split_not_Nil by (cases "js_split c xs") auto
  with Cons.IH show ?case by (cases "x = c") auto
qed

lemma js_split_no_sep: "c \<notin> set w \<Longrightarrow> js_split c w = [w]"
  by (induction w) auto

text \<open>Joining pieces that do not hold \<open>c\<close> with \<open>c\<close> and splitting again gives
  back the pieces.\<close>

lemma js_split_join:
  "ws \<noteq> [] \<Longrightarrow> (\<forall>w \<in> set ws. c \<notin> set w) \<Longrightarrow> js_split c (js_join [c] ws) = ws"
proof (induction ws)
  case Nil
  then show ?case by simp
next
  case (Cons w ws)
  show ?case
  proof (cases "ws = []")
    case True
    with Cons.prems show ?thesis by (simp add: js_split_no_sep)
  next
    case False
    with Cons show ?thesis by (simp add: js_join_Cons js_split_append_sep js_split_no_sep)
  qed
qed

lemma sublist_skip: "sublist x ys \<Longrightarrow> sublist x (zs @ ys)"
  by (auto simp: sublist_def) (metis append.assoc)

lemma sublist_across:
  "suffix a x \<Longrightarrow> prefix c z \<Longrightarrow> sublist (a @ b @ c) (x @ b @ z)"
  by (auto simp: suffix_def prefix_def sublist_def) (metis append.assoc)

lemma sublist_js_join: "x \<in> set xs \<Longrightarrow> sublist x (js_join sep xs)"
proof (induction xs)
  case Nil
  then show ?case by simp
next
  case (Cons y ys)
  show ?case
  proof (cases "ys = []")
    case True
    with Cons.prems show ?thesis by simp
  next
    case False
    with Cons have "x = y \<or> sublist x (js_join sep ys)" by auto
    with False show ?thesis
      by (auto simp: js_join_Cons sublist_def) (metis append.assoc)
  qed
qed

lemma js_pop_last [simp]: "js_pop (xs @ [x]) = Some x"
  by (simp add: js_pop_def)

lemma js_pop_append: "ys \<noteq> [] \<Longrightarrow> js_pop (xs @ ys) = js_pop ys"
  by (simp add: js_pop_def)

text \<open>The last piece of a split is the text after the last separator.\<close>

lemma js_pop_split_suffix:
  "c \<notin> set r \<Longrightarrow> js_pop (js_split c (p @ c # r)) = Some r"
  by (simp add: js_split_append_sep js_split_no_sep js_pop_append js_pop_def)

lemma ends_with_suffix: "ends_with s t \<longleftrightarrow> suffix t s"
proof
  assume "ends_with s t"
  then have "s = take (length s - length t) s @ t"
    unfolding ends_with_def by (metis append_take_drop_id)
  then show "suffix t s" unfolding suffix_def by blast
next
  assume "suffix t s"
  then obtain zs where "s = zs @ t" by (auto simp: suffix_def)
  then show "ends_with s t" by (simp add: ends_with_def)
qed

lemma ends_with_append [simp]: "ends_with (p @ t) t"
  by (simp add: ends_with_def)

end
