(* ===== verification/Effects.thy ===== *)
theory Effects
  imports Prelude
begin

text \<open>
  The effects through which the pipeline of \<open>src/services/geminiService.ts\<close>
  talks to the rest of the program, and the action type that threads them.

  \<^item> The generation client \<open>ai.models.generateContent({model, contents})\<close> of
    \<open>@google/genai\<close> (a library, not under \<open>src/\<close>) is an opaque remote call:
    a \<open>client\<close> maps the index of the call within the run and the request to
    a rejected promise (\<open>Inl\<close> of the thrown value) or the response's \<open>text\<close>,
    which the library types \<open>string | undefined\<close>.  Indexing by the call number
    lets a client fail at any chosen call and answer differently each time: the
    client is not assumed deterministic.
  \<^item> The status callback \<open>setLoadingMessage\<close>, each \<open>yield\<close> of the async
    generator, and each remote call are events of a trace, in the order they
    happen; the consumer (\<open>App.tsx\<close>) reads that trace.
  \<^item> An action of type \<open>'a act\<close> takes the client and the number of remote
    calls made so far, and returns its outcome (a thrown value or a result) and
    the events it produced.  A thrown value ends the action: it is how an
    \<open>await\<close> on a rejected promise propagates out of an \<open>async\<close> function.
\<close>

section \<open>Thrown values, requests, responses, events\<close>

text \<open>What a \<open>catch\<close> clause can receive: an \<open>Error\<close> object with its
  \<open>message\<close>, or any other thrown value.\<close>

datatype js_exn = JsError string | JsOther

record gen_request =
  model :: string
  contents :: string

type_synonym gen_response = "string option"

type_synonym client = "nat \<Rightarrow> gen_request \<Rightarrow> js_exn + gen_response"

datatype event =
    Status string
  | Call gen_request
  | Yield string

type_synonym 'a act = "client \<Rightarrow> nat \<Rightarrow> (js_exn + 'a) \<times> event list"

fun is_call :: "event \<Rightarrow> bool" where
  "is_call (Call _) = True"
| "is_call _ = False"

fun is_status :: "event \<Rightarrow> bool" where
  "is_status (Status _) = True"
| "is_status _ = False"

text \<open>The remote calls of a trace, the fragments it yields, its status messages.\<close>

definition ncalls :: "event list \<Rightarrow> nat" where
  "ncalls es = length (filter is_call es)"

fun yields :: "event list \<Rightarrow> string list" where
  "yields [] = []"
| "yields (Yield f # es) = f # yields es"
| "yields (_ # es) = yields es"

fun requests :: "event list \<Rightarrow> gen_request list" where
  "requests [] = []"
| "requests (Call r # es) = r # requests es"
| "requests (_ # es) = requests es"

fun statuses :: "event list \<Rightarrow> string list" where
  "statuses [] = []"
| "statuses (Status s # es) = s # statuses es"
| "statuses (_ # es) = statuses es"

text \<open>The last status a trace reports, \<open>d\<close> if it reports none.\<close>

definition last_status :: "event list \<Rightarrow> string \<Rightarrow> string" where
  "last_status es d = (if statuses es = [] then d else last (statuses es))"

text \<open>Every remote call is announced: the event right before it is a status
  message.\<close>

fun announced :: "event list \<Rightarrow> bool" where
  "announced [] = True"
| "announced (Call _ # es) = False"
| "announced (Status _ # Call _ # es) = announced es"
| "announced (_ # es) = announced es"

text \<open>The trace cut right after its \<open>m\<close>-th remote call (all of it if it has
  fewer): what a run shows when its \<open>m\<close>-th call throws.\<close>

fun take_calls :: "nat \<Rightarrow> event list \<Rightarrow> event list" where
  "take_calls 0 es = []"
| "take_calls (Suc m) [] = []"
| "take_calls (Suc m) (e # es) = e # (if is_call e then take_calls m es else take_calls (Suc m) es)"

section \<open>Actions\<close>

definition ret :: "'a \<Rightarrow> 'a act" where
  "ret x = (\<lambda>cl n. (Inr x, []))"

definition bindA :: "'a act \<Rightarrow> ('a \<Rightarrow> 'b act) \<Rightarrow> 'b act" where
  "bindA m f = (\<lambda>cl n.
     (case m cl n of
        (Inl e, es) \<Rightarrow> (Inl e, es)
      | (Inr a, es) \<Rightarrow> (case f a cl (n + ncalls es) of (r, es') \<Rightarrow> (r, es @ es'))))"

definition thenA :: "'a act \<Rightarrow> 'b act \<Rightarrow> 'b act" where
  "thenA m k = bindA m (\<lambda>_. k)"

text \<open>\<open>setLoadingMessage(msg)\<close>, a synchronous callback.\<close>

definition setLoadingMessage :: "string \<Rightarrow> unit act" where
  "setLoadingMessage msg = (\<lambda>cl n. (Inr (), [Status msg]))"

text \<open>\<open>yield f\<close> of the async generator: the fragment goes to the consumer.\<close>

definition yield :: "string \<Rightarrow> unit act" where
  "yield f = (\<lambda>cl n. (Inr (), [Yield f]))"

text \<open>\<open>(await ai.models.generateContent({model, contents})).text\<close>: the call is
  made (and recorded) whether or not it fails.\<close>

definition generateContent :: "string \<Rightarrow> string \<Rightarrow> gen_response act" where
  "generateContent m prompt =
     (\<lambda>cl n. (cl n \<lparr>model = m, contents = prompt\<rparr>, [Call \<lparr>model = m, contents = prompt\<rparr>]))"

text \<open>Properties of actions that hold for every client and every start index:
  all calls announced, and at most \<open>b\<close> remote calls.\<close>

definition announces :: "'a act \<Rightarrow> bool" where
  "announces m \<longleftrightarrow> (\<forall>cl n. announced (snd (m cl n)))"

definition calls_within :: "nat \<Rightarrow> 'a act \<Rightarrow> bool" where
  "calls_within b m \<longleftrightarrow> (\<forall>cl n. ncalls (snd (m cl n)) \<le> b)"

text \<open>An action that makes exactly one remote call and nothing else.\<close>

definition one_call :: "'a act \<Rightarrow> bool" where
  "one_call m \<longleftrightarrow> (\<forall>cl n. \<exists>r. snd (m cl n) = [Call r])"

text \<open>What the fragments of an action are: all satisfy \<open>P\<close>; at most
  \<open>b\<close> of them.\<close>

definition frags_all :: "(string \<Rightarrow> bool) \<Rightarrow> 'a act \<Rightarrow> bool" where
  "frags_all P m \<longleftrightarrow> (\<forall>cl n. list_all P (yields (snd (m cl n))))"

definition returns :: "('a \<Rightarrow> bool) \<Rightarrow> 'a act \<Rightarrow> bool" where
  "returns Q m \<longleftrightarrow> (\<forall>cl n x. fst (m cl n) = Inr x \<longrightarrow> Q x)"

definition frags_within :: "nat \<Rightarrow> 'a act \<Rightarrow> bool" where
  "frags_within b m \<longleftrightarrow> (\<forall>cl n. length (yields (snd (m cl n))) \<le> b)"

section \<open>Evaluation equations\<close>

lemma ncalls_simps [simp, trace_simps]:
  "ncalls [] = 0"
  "ncalls (Call r # es) = Suc (ncalls es)"
  "ncalls (Status s # es) = ncalls es"
  "ncalls (Yield f # es) = ncalls es"
  "ncalls (es @ es') = ncalls es + ncalls es'"
  by (simp_all add: ncalls_def)

lemma yields_append [simp, trace_simps]: "yields (es @ es') = yields es @ yields es'"
  by (induction es rule: yields.induct) auto

lemma requests_append [simp, trace_simps]:
  "requests (es @ es') = requests es @ requests es'"
  by (induction es rule: requests.induct) auto

lemma statuses_append [simp, trace_simps]:
  "statuses (es @ es') = statuses es @ statuses es'"
  by (induction es rule: statuses.induct) auto

lemma last_status_simps [simp]:
  "last_status [] d = d"
  "last_status (Status m # es) d = last_status es m"
  "last_status (Call r # es) d = last_status es d"
  "last_status (Yield f # es) d = last_status es d"
  by (simp_all add: last_status_def)

lemma length_requests: "length (requests es) = ncalls es"
  by (induction es rule: requests.induct) auto

lemma ret_run [act_simps]: "ret x cl n = (Inr x, [])"
  by (simp add: ret_def)

lemma setLoadingMessage_run [act_simps]:
  "setLoadingMessage msg cl n = (Inr (), [Status msg])"
  by (simp add: setLoadingMessage_def)

lemma yield_run [act_simps]: "yield f cl n = (Inr (), [Yield f])"
  by (simp add: yield_def)

lemma generateContent_run [act_simps]:
  "generateContent m p cl n = (cl n \<lparr>model = m, contents = p\<rparr>, [Call \<lparr>model = m, contents = p\<rparr>])"
  by (simp add: generateContent_def)

lemma bindA_run [act_simps]:
  "bindA m f cl n =
     (case m cl n of
        (Inl e, es) \<Rightarrow> (Inl e, es)
      | (Inr a, es) \<Rightarrow> (case f a cl (n + ncalls es) of (r, es') \<Rightarrow> (r, es @ es')))"
  by (simp add: bindA_def)

lemmas thenA_run [act_simps] = thenA_def

lemma thenA_status_run [act_simps]:
  "thenA (setLoadingMessage msg) k cl n = (case k cl n of (r, es) \<Rightarrow> (r, Status msg # es))"
  by (simp add: thenA_def bindA_def setLoadingMessage_def split: prod.split)

lemma thenA_yield_run [act_simps]:
  "thenA (yield f) k cl n = (case k cl n of (r, es) \<Rightarrow> (r, Yield f # es))"
  by (simp add: thenA_def bindA_def yield_def split: prod.split)

lemma bindA_assoc: "bindA (bindA m f) g = bindA m (\<lambda>x. bindA (f x) g)"
  by (rule ext)+ (simp add: bindA_def add.assoc split: prod.split sum.split)

section \<open>Announced traces\<close>

lemma announced_append:
  "announced es \<Longrightarrow> announced es' \<Longrightarrow> announced (es @ es')"
  by (induction es rule: announced.induct) (auto elim: announced.elims)

lemma announced_prefix: "announced (es @ es') \<Longrightarrow> announced es"
  by (induction es rule: announced.induct) (auto elim: announced.elims)

section \<open>Rules for announced actions and call bounds\<close>

named_theorems announces_intros "rules proving that an action announces its calls"
named_theorems calls_within_intros "rules bounding the calls of an action"

lemma announces_status_call [announces_intros]:
  assumes "one_call m" and "\<And>a. announces (f a)"
  shows "announces (thenA (setLoadingMessage msg) (bindA m f))"
  unfolding announces_def
proof (intro allI)
  fix cl n
  from assms(1) obtain r where "snd (m cl n) = [Call r]" by (auto simp: one_call_def)
  then obtain o1 where m: "m cl n = (o1, [Call r])" by (metis prod.collapse)
  show "announced (snd (thenA (setLoadingMessage msg) (bindA m f) cl n))"
  proof (cases o1)
    case (Inl e)
    with m show ?thesis by (simp add: act_simps)
  next
    case (Inr a)
    obtain o2 es' where f: "f a cl (Suc n) = (o2, es')" by fastforce
    from assms(2) [of a] f have "announced es'" unfolding announces_def by (metis snd_conv)
    with m f Inr show ?thesis by (simp add: act_simps)
  qed
qed

lemma announces_bindA [announces_intros]:
  assumes "announces m" and "\<And>a. announces (f a)"
  shows "announces (bindA m f)"
  unfolding announces_def
proof (intro allI)
  fix cl n
  obtain o1 es where m: "m cl n = (o1, es)" by fastforce
  from assms(1) m have es: "announced es" unfolding announces_def by (metis snd_conv)
  show "announced (snd (bindA m f cl n))"
  proof (cases o1)
    case (Inl e)
    with m es show ?thesis by (simp add: bindA_def)
  next
    case (Inr a)
    obtain o2 es' where f: "f a cl (n + ncalls es) = (o2, es')" by fastforce
    from assms(2) [of a] f have "announced es'" unfolding announces_def by (metis snd_conv)
    with m f Inr es show ?thesis by (simp add: bindA_def announced_append)
  qed
qed

lemma announces_thenA [announces_intros]:
  "announces m \<Longrightarrow> announces k \<Longrightarrow> announces (thenA m k)"
  unfolding thenA_def by (rule announces_bindA)

lemma announces_prims [announces_intros]:
  "announces (ret x)" "announces (setLoadingMessage msg)" "announces (yield f)"
  by (simp_all add: announces_def act_simps)

lemma calls_within_bindA [calls_within_intros]:
  assumes "calls_within a m" and "\<And>x. calls_within b (f x)"
  shows "calls_within (a + b) (bindA m f)"
  unfolding calls_within_def
proof (intro allI)
  fix cl n
  obtain o1 es where m: "m cl n = (o1, es)" by fastforce
  from assms(1) m have es: "ncalls es \<le> a" unfolding calls_within_def by (metis snd_conv)
  show "ncalls (snd (bindA m f cl n)) \<le> a + b"
  proof (cases o1)
    case (Inl e)
    with m es show ?thesis by (simp add: bindA_def)
  next
    case (Inr x)
    obtain o2 es' where f: "f x cl (n + ncalls es) = (o2, es')" by fastforce
    from assms(2) [of x] f have "ncalls es' \<le> b" unfolding calls_within_def by (metis snd_conv)
    with m f Inr es show ?thesis by (simp add: bindA_def)
  qed
qed

lemma calls_within_thenA [calls_within_intros]:
  "calls_within a m \<Longrightarrow> calls_within b k \<Longrightarrow> calls_within (a + b) (thenA m k)"
  unfolding thenA_def by (rule calls_within_bindA)

lemma calls_within_prims [calls_within_intros]:
  "calls_within 0 (ret x)" "calls_within 0 (setLoadingMessage msg)" "calls_within 0 (yield f)"
  "calls_within 1 (generateContent md p)"
  by (simp_all add: calls_within_def act_simps)

lemma calls_within_mono: "calls_within a m \<Longrightarrow> a \<le> b \<Longrightarrow> calls_within b m"
  by (auto simp: calls_within_def intro: le_trans)

section \<open>Rules for the fragments of an action\<close>

named_theorems frags_intros "rules on the fragments an action yields"

text \<open>The trace of \<^const>\<open>bindA\<close> is the first action's trace, followed by the
  continuation's when the first action returns.\<close>

lemma bindA_trace:
  "snd (bindA m f cl n) = snd (m cl n) \<or>
   (\<exists>x. snd (bindA m f cl n) = snd (m cl n) @ snd (f x cl (n + ncalls (snd (m cl n)))))"
proof (cases "m cl n")
  case (Pair o1 es)
  show ?thesis
  proof (cases o1)
    case (Inl e)
    with Pair show ?thesis by (simp add: bindA_def)
  next
    case (Inr x)
    with Pair show ?thesis by (intro disjI2 exI [of _ x]) (simp add: bindA_def split: prod.split)
  qed
qed

lemma bindA_trace_returns:
  "snd (bindA m f cl n) = snd (m cl n) \<or>
   (\<exists>x. fst (m cl n) = Inr x \<and> snd (bindA m f cl n) = snd (m cl n) @ snd (f x cl (n + ncalls (snd (m cl n)))))"
proof (cases "m cl n")
  case (Pair o1 es)
  show ?thesis
  proof (cases o1)
    case (Inl e)
    with Pair show ?thesis by (simp add: bindA_def)
  next
    case (Inr x)
    with Pair show ?thesis by (intro disjI2 exI [of _ x]) (simp add: bindA_def split: prod.split)
  qed
qed

lemma frags_all_bindA:
  assumes "frags_all P m" and "returns Q m" and "\<And>x. Q x \<Longrightarrow> frags_all P (f x)"
  shows "frags_all P (bindA m f)"
  unfolding frags_all_def
proof (intro allI)
  fix cl n
  from assms(1) have a: "list_all P (yields (snd (m cl n)))" by (simp add: frags_all_def)
  from bindA_trace_returns [of m f cl n]
  show "list_all P (yields (snd (bindA m f cl n)))"
  proof
    assume "snd (bindA m f cl n) = snd (m cl n)"
    with a show ?thesis by simp
  next
    assume "\<exists>x. fst (m cl n) = Inr x \<and>
      snd (bindA m f cl n) = snd (m cl n) @ snd (f x cl (n + ncalls (snd (m cl n))))"
    then obtain x where x: "fst (m cl n) = Inr x"
      and t: "snd (bindA m f cl n) = snd (m cl n) @ snd (f x cl (n + ncalls (snd (m cl n))))" by blast
    from assms(2) x have "Q x" by (simp add: returns_def)
    with assms(3) have "frags_all P (f x)" .
    with a t show ?thesis by (simp add: frags_all_def)
  qed
qed

lemma returns_True: "returns (\<lambda>_. True) m"
  by (simp add: returns_def)

lemma frags_within_bindA [frags_intros]:
  assumes "frags_within a m" and "\<And>x. frags_within b (f x)"
  shows "frags_within (a + b) (bindA m f)"
  unfolding frags_within_def
proof (intro allI)
  fix cl n
  from assms(1) have a: "length (yields (snd (m cl n))) \<le> a" by (simp add: frags_within_def)
  from bindA_trace [of m f cl n]
  show "length (yields (snd (bindA m f cl n))) \<le> a + b"
  proof
    assume "snd (bindA m f cl n) = snd (m cl n)"
    with a show ?thesis by simp
  next
    assume "\<exists>x. snd (bindA m f cl n) = snd (m cl n) @ snd (f x cl (n + ncalls (snd (m cl n))))"
    with a assms(2) show ?thesis by (fastforce simp: frags_within_def intro: add_mono)
  qed
qed

lemma frags_thenA [frags_intros]:
  "frags_all P m \<Longrightarrow> frags_all P k \<Longrightarrow> frags_all P (thenA m k)"
  "frags_within a m \<Longrightarrow> frags_within b k \<Longrightarrow> frags_within (a + b) (thenA m k)"
  unfolding thenA_def by (rule frags_all_bindA [OF _ returns_True], assumption+) (rule frags_within_bindA)

lemma frags_prims [frags_intros]:
  "frags_all P (ret x)" "frags_all P (setLoadingMessage msg)" "P f \<Longrightarrow> frags_all P (yield f)"
  "frags_within 0 (ret x)" "frags_within 0 (setLoadingMessage msg)" "frags_within 1 (yield f)"
  by (simp_all add: frags_all_def frags_within_def act_simps)

lemma one_call_yields: "one_call m \<Longrightarrow> yields (snd (m cl n)) = []"
proof -
  assume "one_call m"
  then obtain r where "snd (m cl n) = [Call r]" by (auto simp: one_call_def)
  then show ?thesis by simp
qed

lemma one_call_frags [frags_intros]:
  "one_call m \<Longrightarrow> frags_all P m" "one_call m \<Longrightarrow> frags_within 0 m"
  by (simp_all add: frags_all_def frags_within_def one_call_yields)

section \<open>Cutting a trace at a call\<close>

lemma take_calls_prefix: "prefix (take_calls m es) es"
  by (induction m es rule: take_calls.induct) auto

lemma take_calls_append:
  "take_calls m (es @ es') =
     (if m \<le> ncalls es then take_calls m es else es @ take_calls (m - ncalls es) es')"
proof (induction m es rule: take_calls.induct)
  case (3 m e es)
  then show ?case by (cases e) (auto simp: Suc_diff_le)
qed auto

lemma take_calls_all: "ncalls es < m \<Longrightarrow> take_calls m es = es"
proof (induction m es rule: take_calls.induct)
  case (3 m e es)
  then show ?case by (cases e) auto
qed auto

lemma ncalls_take_calls: "ncalls (take_calls m es) = min m (ncalls es)"
proof (induction m es rule: take_calls.induct)
  case (3 m e es)
  then show ?case by (cases e) auto
qed auto

lemma take_calls_last_call:
  "0 < m \<Longrightarrow> m \<le> ncalls es \<Longrightarrow> take_calls m es \<noteq> [] \<and> is_call (last (take_calls m es))"
proof (induction m es rule: take_calls.induct)
  case (3 m e es)
  then show ?case by (cases e; cases m) auto
qed auto

lemma yields_take_calls_Nil: "yields es = [] \<Longrightarrow> yields (take_calls m es) = []"
  by (metis Nil_is_append_conv prefix_def take_calls_prefix yields_append)

lemma announced_take_calls: "announced es \<Longrightarrow> announced (take_calls m es)"
  by (metis announced_prefix prefix_def take_calls_prefix)

end
