(* ===== verification/Constants.thy ===== *)
theory Constants
  imports Prelude
begin

text \<open>
  \<open>src/constants.ts\<close>: the model name sent with every request, and the status
  messages the pipeline reports through its \<open>setLoadingMessage\<close> callback.
  \<open>LOADING_MESSAGES\<close> is an object literal whose \<open>SUMMARIZE_FILES\<close> entry is
  a function of the file path; it is a record here, one field per entry.
\<close>

definition GEMINI_MODEL :: string where
  "GEMINI_MODEL = ''gemini-2.5-flash''"

record loading_messages =
  START :: string
  ANALYZE_STRUCTURE :: string
  SUMMARIZE_FILES :: "string \<Rightarrow> string"
  SYNTHESIZE_ARCHITECTURE :: string
  WRITE_INTRODUCTION :: string
  WRITE_INSTALLATION :: string
  WRITE_USAGE :: string
  WRITE_API_REFERENCE :: string
  FINALIZE :: string

definition LOADING_MESSAGES :: loading_messages where
  "LOADING_MESSAGES = \<lparr>
     START = ''Initializing documentation process...'',
     ANALYZE_STRUCTURE = ''Analyzing repository structure...'',
     SUMMARIZE_FILES = (\<lambda>filePath. ''Summarizing '' @ filePath @ ''...''),
     SYNTHESIZE_ARCHITECTURE = ''Synthesizing high-level architecture...'',
     WRITE_INTRODUCTION = ''Writing project introduction...'',
     WRITE_INSTALLATION = ''Generating installation instructions...'',
     WRITE_USAGE = ''Creating usage examples...'',
     WRITE_API_REFERENCE = ''Building API reference...'',
     FINALIZE = ''Finalizing README.md...''\<rparr>"

lemmas constants_defs = GEMINI_MODEL_def LOADING_MESSAGES_def

text \<open>Each per-file status names its file, so distinct files give distinct
  statuses.\<close>

lemma SUMMARIZE_FILES_inj:
  "SUMMARIZE_FILES LOADING_MESSAGES p = SUMMARIZE_FILES LOADING_MESSAGES q \<longleftrightarrow> p = q"
  by (simp add: LOADING_MESSAGES_def)

end
