(* ===== verification/Agents.thy ===== *)
theory Agents
  imports Effects Constants
begin

text \<open>
  The three agents of \<open>src/services/geminiService.ts\<close>: \<open>summarizeFile\<close>
  (File-Level Summarizer), \<open>synthesizeArchitecture\<close> (Architectural
  Synthesizer) and \<open>writeSection\<close> (Section-Specific Writer).  Each builds one
  prompt from its arguments and makes one remote call; the prompt builders are
  separate definitions, so that what a prompt carries can be stated apart from
  the call.  Values that are \<open>string | undefined\<close> at run time (a response's
  \<open>text\<close>, and what is computed from it) are \<^typ>\<open>string option\<close> and are
  interpolated with \<^const>\<open>js_str\<close>.
\<close>

section \<open>Data\<close>

text \<open>\<open>FileSummary\<close> of \<open>types.ts\<close>: the path and the response text, which
  is \<open>undefined\<close> when the response has none.\<close>

record FileSummary =
  path :: string
  summary :: gen_response

text \<open>The request object every agent sends: \<open>{model: GEMINI_MODEL, contents: prompt}\<close>.\<close>

abbreviation gemini_req :: "string \<Rightarrow> gen_request" where
  "gemini_req p \<equiv> \<lparr>model = GEMINI_MODEL, contents = p\<rparr>"

section \<open>Agent 1: File-Level Summarizer\<close>

definition summarize_prompt :: "string \<Rightarrow> string \<Rightarrow> string" where
  \<open>summarize_prompt p content =
     ''You are a File-Level Summarizer Agent. Your task is to generate a concise, one-paragraph summary of the following file\'s purpose, its main functions or classes, and its key responsibilities within the project. Focus on the high-level logic, not line-by-line details.'' @
     ''\<newline>\<newline>File Path: `'' @ p @ ''`\<newline>\<newline>File Content:\<newline>```\<newline>'' @ content @
     ''\<newline>```\<newline>\<newline>Summary:''\<close>

definition summarizeFile :: "string \<Rightarrow> string \<Rightarrow> FileSummary act" where
  "summarizeFile p content =
     bindA (generateContent GEMINI_MODEL (summarize_prompt p content))
       (\<lambda>text. ret \<lparr>path = p, summary = text\<rparr>)"

section \<open>Agent 2: Architectural Synthesizer\<close>

text \<open>\<open>summaries.map(s => `**${s.path}**: ${s.summary}`).join('\n')\<close>.\<close>

definition summaries_text :: "FileSummary list \<Rightarrow> string" where
  "summaries_text summaries =
     js_join ''\<newline>'' (map (\<lambda>s. ''**'' @ path s @ ''**: '' @ js_str (summary s)) summaries)"

text \<open>\<open>dependencies\<close> is typed \<open>string\<close> but is read from the snapshot by key,
  which gives \<open>undefined\<close> for a missing key.\<close>

definition synthesize_prompt :: "string \<Rightarrow> string option \<Rightarrow> FileSummary list \<Rightarrow> string" where
  \<open>synthesize_prompt structure dependencies summaries =
     ''You are an Architectural Synthesizer Agent. Based on the following file structure, dependencies, and file summaries, infer the project\'s overall purpose and architecture. Provide a concise, high-level overview in 2-3 sentences.'' @
     ''\<newline>\<newline>File Structure:\<newline>```\<newline>'' @ structure @
     ''\<newline>```\<newline>\<newline>Dependencies (from package.json):\<newline>```json\<newline>'' @ js_str dependencies @
     ''\<newline>```\<newline>\<newline>File Summaries:\<newline>'' @ summaries_text summaries @
     ''\<newline>\<newline>Project Overview:''\<close>

definition synthesizeArchitecture ::
  "string \<Rightarrow> string option \<Rightarrow> FileSummary list \<Rightarrow> gen_response act" where
  "synthesizeArchitecture structure dependencies summaries =
     generateContent GEMINI_MODEL (synthesize_prompt structure dependencies summaries)"

section \<open>Agent 3: Section-Specific Writer\<close>

definition section_prompt :: "string \<Rightarrow> gen_response \<Rightarrow> string \<Rightarrow> string" where
  \<open>section_prompt section archSummary context =
     ''You are a professional technical writer, an expert in creating README.md files. Your current task is to write the "'' @ section @ ''" section.'' @
     ''\<newline>  \<newline>Project Architectural Overview: "'' @ js_str archSummary @ ''"'' @
     ''\<newline>\<newline>Use the following specific context to write a clear and concise "'' @ section @ ''" section in Markdown format.'' @
     ''\<newline>\<newline>Context:\<newline>'' @ context @ ''\<newline>\<newline>## '' @ section @ ''\<newline>''\<close>

text \<open>The section as returned: \<open>`## ${section}\n\n${response.text}\n\n`\<close>.\<close>

definition section_md :: "string \<Rightarrow> gen_response \<Rightarrow> string" where
  "section_md section text = ''## '' @ section @ ''\<newline>\<newline>'' @ js_str text @ ''\<newline>\<newline>''"

definition writeSection :: "string \<Rightarrow> gen_response \<Rightarrow> string \<Rightarrow> string act" where
  "writeSection section archSummary context =
     bindA (generateContent GEMINI_MODEL (section_prompt section archSummary context))
       (\<lambda>text. ret (section_md section text))"

section \<open>Behaviour of the agents\<close>

text \<open>Each agent makes exactly one call, with its prompt; the outcome is the
  client's answer, wrapped on success and unchanged on failure.\<close>

lemma summarizeFile_run [act_simps]:
  "summarizeFile p c cl n =
     (let req = \<lparr>model = GEMINI_MODEL, contents = summarize_prompt p c\<rparr>
      in (case cl n req of
            Inl e \<Rightarrow> Inl e
          | Inr t \<Rightarrow> Inr \<lparr>path = p, summary = t\<rparr>, [Call req]))"
  by (simp add: summarizeFile_def act_simps Let_def split: sum.split)

lemma synthesizeArchitecture_run [act_simps]:
  "synthesizeArchitecture s d xs cl n =
     (let req = \<lparr>model = GEMINI_MODEL, contents = synthesize_prompt s d xs\<rparr>
      in (cl n req, [Call req]))"
  by (simp add: synthesizeArchitecture_def generateContent_run Let_def)

lemma writeSection_run [act_simps]:
  "writeSection sec a ctx cl n =
     (let req = \<lparr>model = GEMINI_MODEL, contents = section_prompt sec a ctx\<rparr>
      in (case cl n req of
            Inl e \<Rightarrow> Inl e
          | Inr t \<Rightarrow> Inr (section_md sec t), [Call req]))"
  by (simp add: writeSection_def act_simps Let_def split: sum.split)

section \<open>What the prompts carry\<close>

lemma summarize_prompt_carries:
  "sublist p (summarize_prompt p c)" "sublist c (summarize_prompt p c)"
  unfolding summarize_prompt_def by (rule sublist_append_rightI | rule sublist_skip)+

lemma summaries_text_carries:
  "s \<in> set xs \<Longrightarrow> sublist (''**'' @ path s @ ''**: '' @ js_str (summary s)) (summaries_text xs)"
  unfolding summaries_text_def by (rule sublist_js_join) simp

lemma synthesize_prompt_carries:
  "sublist st (synthesize_prompt st d xs)"
  "sublist (js_str d) (synthesize_prompt st d xs)"
  "sublist (summaries_text xs) (synthesize_prompt st d xs)"
  unfolding synthesize_prompt_def by (rule sublist_append_rightI | rule sublist_skip)+

lemma section_prompt_carries:
  "sublist (js_str a) (section_prompt sec a ctx)"
  "sublist ctx (section_prompt sec a ctx)"
  unfolding section_prompt_def by (rule sublist_append_rightI | rule sublist_skip)+

text \<open>The manifest sits in a fenced \<open>json\<close> block of the synthesis prompt.\<close>

lemma synthesize_prompt_manifest:
  "sublist (''```json\<newline>'' @ js_str d @ ''\<newline>```'') (synthesize_prompt st d xs)"
  unfolding synthesize_prompt_def
  by (rule sublist_skip, rule sublist_skip, rule sublist_skip, rule sublist_across)
     (simp_all add: suffix_to_prefix)

lemma agents_one_call:
  "one_call (summarizeFile p c)" "one_call (synthesizeArchitecture s d xs)"
  "one_call (writeSection sec a ctx)"
  by (simp_all add: one_call_def summarizeFile_run synthesizeArchitecture_run writeSection_run
      Let_def split: sum.split)

lemma agents_calls_within [calls_within_intros]:
  "calls_within 1 (summarizeFile p c)" "calls_within 1 (synthesizeArchitecture s d xs)"
  "calls_within 1 (writeSection sec a ctx)"
  by (simp_all add: calls_within_def summarizeFile_run synthesizeArchitecture_run writeSection_run
      Let_def split: sum.split)

end
