(* ===== verification/Snapshot.thy ===== *)
theory Snapshot
  imports Prelude
begin

text \<open>
  The source snapshot: \<open>MOCK_REPO_DATA\<close> of \<open>src/services/geminiService.ts\<close>,
  a fixed object mapping file paths to contents that stands in for a cloned
  repository.  Its type \<open>MockRepository\<close> (from \<open>types.ts\<close>, not under
  \<open>src/\<close>) is a string-keyed record; \<open>Object.keys\<close> and \<open>Object.entries\<close>
  list such keys in insertion order, so the snapshot is an association list in
  source order.  The template literals are written line by line and joined with
  newlines; \<open>JSON.stringify(obj, null, 2)\<close> is written out as the text it
  produces.
\<close>

type_synonym MockRepository = "(string \<times> string) list"

definition MOCK_REPO_DATA :: MockRepository where
  \<open>MOCK_REPO_DATA = [
    (''package.json'', js_join ''\<newline>'' [
      ''{'',
      ''  "name": "simple-user-api",'',
      ''  "version": "1.0.0",'',
      ''  "description": "A simple API to manage users",'',
      ''  "main": "server.js",'',
      ''  "scripts": {'',
      ''    "start": "node server.js"'',
      ''  },'',
      ''  "dependencies": {'',
      ''    "express": "^4.17.1"'',
      ''  }'',
      ''}'']),
    (''server.js'', js_join ''\<newline>'' [
      '''',
      ''const express = require(\'express\');'',
      ''const userRoutes = require(\'./routes/users\');'',
      '''',
      ''const app = express();'',
      ''const PORT = process.env.PORT || 3000;'',
      '''',
      ''app.use(express.json());'',
      '''',
      ''// Main entry point for user routes'',
      ''app.use(\'/api/users\', userRoutes);'',
      '''',
      ''app.get(\'/\', (req, res) => {'',
      ''  res.send(\'API is running...\');'',
      ''});'',
      '''',
      ''app.listen(PORT, () => {'',
      ''  console.log(`Server is running on port ${PORT}`);'',
      ''});'',
      ''  '']),
    (''routes/users.js'', js_join ''\<newline>'' [
      '''',
      ''const express = require(\'express\');'',
      ''const router = express.Router();'',
      '''',
      ''// In-memory data store (for demonstration)'',
      ''let users = ['',
      ''  { id: 1, name: \'Alice\' },'',
      ''  { id: 2, name: \'Bob\' }'',
      ''];'',
      '''',
      ''// GET all users'',
      ''router.get(\'/\', (req, res) => {'',
      ''  res.json(users);'',
      ''});'',
      '''',
      ''// GET a single user by ID'',
      ''router.get(\'/:id\', (req, res) => {'',
      ''  const user = users.find(u => u.id === parseInt(req.params.id));'',
      ''  if (!user) return res.status(404).send(\'User not found.\');'',
      ''  res.json(user);'',
      ''});'',
      '''',
      ''// POST a new user'',
      ''router.post(\'/\', (req, res) => {'',
      ''  const newUser = {'',
      ''    id: users.length + 1,'',
      ''    name: req.body.name'',
      ''  };'',
      ''  users.push(newUser);'',
      ''  res.status(201).json(newUser);'',
      ''});'',
      '''',
      ''module.exports = router;'',
      ''  '']),
    (''.gitignore'', js_join ''\<newline>'' [
      '''',
      ''node_modules'',
      ''.env'',
      ''  ''])]\<close>

text \<open>
  A snapshot is well formed when its paths are unique, as the keys of an
  object are.
\<close>

definition wf_snapshot :: "MockRepository \<Rightarrow> bool" where
  "wf_snapshot repo \<longleftrightarrow> distinct (map fst repo)"

text \<open>The eligibility filter of \<open>generateDocumentation\<close>:
  \<open>.filter(([path]) => path.endsWith('.js'))\<close>.\<close>

definition eligible :: "MockRepository \<Rightarrow> (string \<times> string) list" where
  "eligible repo = filter (\<lambda>(p, _). ends_with p ''.js'') repo"

lemma eligible_subset: "set (eligible repo) \<subseteq> set repo"
  by (auto simp: eligible_def)

lemma eligible_paths: "(p, c) \<in> set (eligible repo) \<Longrightarrow> suffix ''.js'' p"
  by (auto simp: eligible_def ends_with_suffix)

lemma wf_snapshot_eligible: "wf_snapshot repo \<Longrightarrow> distinct (map fst (eligible repo))"
  unfolding wf_snapshot_def eligible_def by (rule distinct_map_filter)

text \<open>In the fixed snapshot, the eligible files are the entry point and the
  routing file, in that order; \<open>package.json\<close> and \<open>.gitignore\<close> are not.\<close>

lemma mock_eligible_paths:
  "map fst (eligible MOCK_REPO_DATA) = [''server.js'', ''routes/users.js'']"
  by (simp add: MOCK_REPO_DATA_def eligible_def ends_with_def)

lemma length_eligible_mock [simp]: "length (eligible MOCK_REPO_DATA) = 2"
  using arg_cong [OF mock_eligible_paths, of length] by simp

lemma wf_snapshot_mock: "wf_snapshot MOCK_REPO_DATA"
  by (simp add: MOCK_REPO_DATA_def wf_snapshot_def)

end
