(* ===== verification/Orchestrator.thy ===== *)
theory Orchestrator
  imports Agents Snapshot
begin

text \<open>
  The pipeline orchestrator \<open>generateDocumentation\<close> of
  \<open>src/services/geminiService.ts\<close> (lines 153--206), an async generator: it
  reports a status before each stage, yields the title, summarizes every
  eligible file in snapshot order, synthesizes the architecture overview, yields
  it, then writes and yields the Installation, Usage and API Reference sections.
  The code reads the fixed snapshot \<open>MOCK_REPO_DATA\<close>; \<open>generate_from\<close> takes
  the snapshot as a parameter (the spec's Snapshot Provider) and
  \<open>generateDocumentation\<close> is its instance at \<open>MOCK_REPO_DATA\<close>.

  \<open>doc_events\<close> is the run the spec's fixed stage plan prescribes, written out
  as a trace for a client whose answers are given by \<open>resp\<close>; the main lemmas
  say that a run whose calls all succeed produces exactly that trace, and a run
  whose \<open>k\<close>-th call (counting from 0) throws produces that trace cut right
  after its \<open>k\<close>-th call, and ends with the thrown value.
\<close>

section \<open>The code\<close>

text \<open>\<open>repoUrl.split('/').pop() || 'New Project'\<close>.\<close>

definition repo_name :: "string \<Rightarrow> string" where
  "repo_name repoUrl = js_or (js_pop (js_split CHR ''/'' repoUrl)) ''New Project''"

definition title_md :: "string \<Rightarrow> string" where
  "title_md repoUrl = ''# '' @ repo_name repoUrl @ ''\<newline>\<newline>''"

text \<open>The loop \<open>for (const [path, content] of filesToSummarize)\<close>, with the
  array \<open>summaries\<close> it pushes to as an accumulator.\<close>

fun summarize_files :: "(string \<times> string) list \<Rightarrow> FileSummary list \<Rightarrow> FileSummary list act" where
  "summarize_files [] summaries = ret summaries"
| "summarize_files ((p, content) # fs) summaries =
     thenA (setLoadingMessage (SUMMARIZE_FILES LOADING_MESSAGES p))
       (bindA (summarizeFile p content) (\<lambda>s. summarize_files fs (summaries @ [s])))"

text \<open>\<open>Object.keys(MOCK_REPO_DATA).map(f => `- ${f}`).join('\n')\<close>.\<close>

definition file_structure :: "MockRepository \<Rightarrow> string" where
  "file_structure repo = js_join ''\<newline>'' (map (\<lambda>(f, _). ''- '' @ f) repo)"

text \<open>\<open>summaries.find(s => s.path === p)?.summary\<close>: \<open>undefined\<close> when no
  summary has that path.\<close>

definition find_summary :: "FileSummary list \<Rightarrow> string \<Rightarrow> gen_response" where
  "find_summary summaries p =
     (case find (\<lambda>s. path s = p) summaries of None \<Rightarrow> None | Some s \<Rightarrow> summary s)"

definition installation_context :: "string option \<Rightarrow> string" where
  "installation_context dependencies =
     ''Dependencies file (package.json):\<newline>```json\<newline>'' @ js_str dependencies @ ''\<newline>```''"

definition usage_context :: "FileSummary list \<Rightarrow> string" where
  \<open>usage_context summaries =
     ''The main entry point is `server.js`. Its summary is: "'' @
     js_str (find_summary summaries ''server.js'') @
     ''". Based on the package.json, the start command is likely "npm start".''\<close>

definition api_context :: "FileSummary list \<Rightarrow> string" where
  \<open>api_context summaries =
     ''API routes are defined in `routes/users.js`. The summary is: "'' @
     js_str (find_summary summaries ''routes/users.js'') @
     ''". List the available endpoints and their purpose based on this summary.''\<close>

definition generate_from :: "MockRepository \<Rightarrow> string \<Rightarrow> unit act" where
  "generate_from repo repoUrl =
     thenA (setLoadingMessage (START LOADING_MESSAGES))
    (thenA (yield (title_md repoUrl))
    (thenA (setLoadingMessage (ANALYZE_STRUCTURE LOADING_MESSAGES))
    (bindA (summarize_files (eligible repo) [])
    (\<lambda>summaries. thenA (setLoadingMessage (SYNTHESIZE_ARCHITECTURE LOADING_MESSAGES))
    (let dependencies = map_of repo ''package.json'' in
     bindA (synthesizeArchitecture (file_structure repo) dependencies summaries)
    (\<lambda>archSummary. thenA (setLoadingMessage (WRITE_INTRODUCTION LOADING_MESSAGES))
    (thenA (yield (js_str archSummary @ ''\<newline>\<newline>''))
    (thenA (setLoadingMessage (WRITE_INSTALLATION LOADING_MESSAGES))
    (bindA (writeSection ''Installation'' archSummary (installation_context dependencies))
    (\<lambda>installationSection. thenA (yield installationSection)
    (thenA (setLoadingMessage (WRITE_USAGE LOADING_MESSAGES))
    (bindA (writeSection ''Usage'' archSummary (usage_context summaries))
    (\<lambda>usageSection. thenA (yield usageSection)
    (thenA (setLoadingMessage (WRITE_API_REFERENCE LOADING_MESSAGES))
    (bindA (writeSection ''API Reference'' archSummary (api_context summaries))
    (\<lambda>apiSection. thenA (yield apiSection)
    (setLoadingMessage (FINALIZE LOADING_MESSAGES))))))))))))))))))"

definition generateDocumentation :: "string \<Rightarrow> unit act" where
  "generateDocumentation = generate_from MOCK_REPO_DATA"

section \<open>The stage plan as a trace\<close>

text \<open>The summaries the loop builds and the events it produces, for answers
  \<open>resp\<close> starting at call index \<open>n\<close>.\<close>

fun summaries_of :: "(nat \<Rightarrow> gen_request \<Rightarrow> gen_response) \<Rightarrow> nat \<Rightarrow> (string \<times> string) list \<Rightarrow> FileSummary list" where
  "summaries_of resp n [] = []"
| "summaries_of resp n ((p, c) # fs) =
     \<lparr>path = p, summary = resp n (gemini_req (summarize_prompt p c))\<rparr> # summaries_of resp (Suc n) fs"

fun summarize_events :: "(string \<times> string) list \<Rightarrow> event list" where
  "summarize_events [] = []"
| "summarize_events ((p, c) # fs) =
     Status (SUMMARIZE_FILES LOADING_MESSAGES p) # Call (gemini_req (summarize_prompt p c)) # summarize_events fs"

definition doc_events :: "MockRepository \<Rightarrow> string \<Rightarrow> (nat \<Rightarrow> gen_request \<Rightarrow> gen_response) \<Rightarrow> event list" where
  "doc_events repo u resp =
     (let fs = eligible repo; N = length fs;
          sums = summaries_of resp 0 fs;
          deps = map_of repo ''package.json'';
          rq_s = gemini_req (synthesize_prompt (file_structure repo) deps sums);
          a = resp N rq_s;
          rq_i = gemini_req (section_prompt ''Installation'' a (installation_context deps));
          rq_u = gemini_req (section_prompt ''Usage'' a (usage_context sums));
          rq_a = gemini_req (section_prompt ''API Reference'' a (api_context sums))
      in [Status (START LOADING_MESSAGES), Yield (title_md u),
          Status (ANALYZE_STRUCTURE LOADING_MESSAGES)] @
         summarize_events fs @
         [Status (SYNTHESIZE_ARCHITECTURE LOADING_MESSAGES), Call rq_s,
          Status (WRITE_INTRODUCTION LOADING_MESSAGES), Yield (js_str a @ ''\<newline>\<newline>''),
          Status (WRITE_INSTALLATION LOADING_MESSAGES), Call rq_i,
          Yield (section_md ''Installation'' (resp (N + 1) rq_i)),
          Status (WRITE_USAGE LOADING_MESSAGES), Call rq_u,
          Yield (section_md ''Usage'' (resp (N + 2) rq_u)),
          Status (WRITE_API_REFERENCE LOADING_MESSAGES), Call rq_a,
          Yield (section_md ''API Reference'' (resp (N + 3) rq_a)),
          Status (FINALIZE LOADING_MESSAGES)])"

section \<open>The summarize loop\<close>

lemma ncalls_summarize_events [simp]: "ncalls (summarize_events fs) = length fs"
  by (induction fs rule: summarize_events.induct) auto

lemma yields_summarize_events [simp]: "yields (summarize_events fs) = []"
  by (induction fs rule: summarize_events.induct) auto

lemma length_summaries_of [simp]: "length (summaries_of resp n fs) = length fs"
  by (induction resp n fs rule: summaries_of.induct) auto

lemma summarize_files_ok:
  assumes "\<forall>i. n \<le> i \<longrightarrow> i < n + length fs \<longrightarrow> (\<forall>r. cl i r = Inr (resp i r))"
  shows "summarize_files fs acc cl n = (Inr (acc @ summaries_of resp n fs), summarize_events fs)"
  using assms
proof (induction fs arbitrary: acc n)
  case Nil
  then show ?case by (simp add: act_simps)
next
  case (Cons f fs)
  obtain p c where f: "f = (p, c)" by fastforce
  from Cons.prems have "\<forall>i. Suc n \<le> i \<longrightarrow> i < Suc n + length fs \<longrightarrow> (\<forall>r. cl i r = Inr (resp i r))"
    by simp
  note IH = Cons.IH [OF this]
  from Cons.prems have "cl n (gemini_req (summarize_prompt p c)) = Inr (resp n (gemini_req (summarize_prompt p c)))"
    by simp
  with IH show ?case by (simp add: f act_simps Let_def)
qed

lemma summarize_files_fail:
  assumes "\<forall>i. n \<le> i \<longrightarrow> i < k \<longrightarrow> (\<forall>r. cl i r = Inr (resp i r))"
    and "\<forall>r. cl k r = Inl e" and "n \<le> k" and "k < n + length fs"
  shows "summarize_files fs acc cl n = (Inl e, take_calls (Suc (k - n)) (summarize_events fs))"
  using assms
proof (induction fs arbitrary: acc n)
  case Nil
  then show ?case by simp
next
  case (Cons f fs)
  obtain p c where f: "f = (p, c)" by fastforce
  show ?case
  proof (cases "k = n")
    case True
    with Cons.prems show ?thesis by (simp add: f act_simps Let_def)
  next
    case False
    with Cons.prems have ok: "cl n (gemini_req (summarize_prompt p c)) = Inr (resp n (gemini_req (summarize_prompt p c)))"
      by simp
    from False Cons.prems have "summarize_files fs (acc @ [\<lparr>path = p, summary = resp n (gemini_req (summarize_prompt p c))\<rparr>]) cl (Suc n)
        = (Inl e, take_calls (Suc (k - Suc n)) (summarize_events fs))"
      by (intro Cons.IH) auto
    moreover from False Cons.prems have "k - n = Suc (k - Suc n)" by simp
    ultimately show ?thesis using ok by (simp add: f act_simps Let_def)
  qed
qed

lemma generate_from_ok_trace:
  assumes ok: "\<forall>i < length (eligible repo) + 4. \<forall>r. cl i r = Inr (resp i r)"
  shows "generate_from repo u cl 0 = (Inr (), doc_events repo u resp)"
proof -
  have loop: "summarize_files (eligible repo) [] cl 0 =
      (Inr (summaries_of resp 0 (eligible repo)), summarize_events (eligible repo))"
    using summarize_files_ok [of 0 "eligible repo" cl resp "[]"] ok by simp
  from ok show ?thesis
    unfolding generate_from_def doc_events_def
    by (simp add: act_simps loop Let_def eval_nat_numeral)
qed



lemma generate_from_fail_trace:
  assumes ok: "\<forall>i<k. \<forall>r. cl i r = Inr (resp i r)"
    and fail: "\<forall>r. cl k r = Inl e"
    and k: "k < length (eligible repo) + 4"
  shows "generate_from repo u cl 0 = (Inl e, take_calls (Suc k) (doc_events repo u resp))"
proof -
  let ?N = "length (eligible repo)"
  consider (loop) "k < ?N" | (later) "?N \<le> k" by linarith
  then show ?thesis
  proof cases
    case loop
    have "summarize_files (eligible repo) [] cl 0 =
        (Inl e, take_calls (Suc k) (summarize_events (eligible repo)))"
      using summarize_files_fail [of 0 k cl resp e "eligible repo" "[]"] ok fail loop by simp
    with loop show ?thesis
      unfolding generate_from_def doc_events_def
      by (simp add: act_simps Let_def take_calls_append)
  next
    case later
    have loop: "summarize_files (eligible repo) [] cl 0 =
        (Inr (summaries_of resp 0 (eligible repo)), summarize_events (eligible repo))"
      using summarize_files_ok [of 0 "eligible repo" cl resp "[]"] ok later by simp
    from later k consider "k = ?N" | "k = Suc ?N" | "k = Suc (Suc ?N)" | "k = Suc (Suc (Suc ?N))"
      by linarith
    then show ?thesis
      using ok fail
      by cases (simp_all add: generate_from_def doc_events_def act_simps loop Let_def
                 take_calls_append eval_nat_numeral)
  qed
qed



lemma summarize_files_announces: "announces (summarize_files fs acc)"
proof (induction fs arbitrary: acc)
  case Nil
  then show ?case by (simp add: announces_intros)
next
  case (Cons f fs)
  then show ?case
    by (cases f) (simp add: announces_intros agents_one_call)
qed

lemma summarize_files_calls: "calls_within (length fs) (summarize_files fs acc)"
proof (induction fs arbitrary: acc)
  case Nil
  then show ?case by (simp add: calls_within_intros)
next
  case (Cons f fs)
  obtain p c where f: "f = (p, c)" by fastforce
  have "calls_within (0 + (1 + length fs)) (summarize_files (f # fs) acc)"
    unfolding f summarize_files.simps by (intro calls_within_intros Cons.IH)
  then show ?case by simp
qed

lemma generate_from_announces: "announces (generate_from repo u)"
  unfolding generate_from_def Let_def
  by (intro announces_intros summarize_files_announces agents_one_call)

lemma generate_from_calls: "calls_within (length (eligible repo) + 4) (generate_from repo u)"
proof -
  have "calls_within (0 + (0 + (0 + (length (eligible repo) + (0 + (1 + (0 + (0 + (0 + (1 + (0 + (0 + (1 + (0 + (0 + (1 + (0 + 0)))))))))))))))))
      (generate_from repo u)"
    unfolding generate_from_def Let_def
    by (intro calls_within_intros summarize_files_calls)
  then show ?thesis by (simp add: eval_nat_numeral)
qed


lemma requests_summarize_events [simp]:
  "requests (summarize_events fs) = map (\<lambda>(p, c). gemini_req (summarize_prompt p c)) fs"
  by (induction fs rule: summarize_events.induct) auto

lemma statuses_summarize_events [simp]:
  "statuses (summarize_events fs) = map (\<lambda>(p, c). SUMMARIZE_FILES LOADING_MESSAGES p) fs"
  by (induction fs rule: summarize_events.induct) auto

lemma summaries_of_nth:
  "j < length fs \<Longrightarrow> summaries_of resp n fs ! j =
     \<lparr>path = fst (fs ! j), summary = resp (n + j) (gemini_req (summarize_prompt (fst (fs ! j)) (snd (fs ! j))))\<rparr>"
proof (induction fs arbitrary: n j)
  case Nil
  then show ?case by simp
next
  case (Cons f fs)
  then show ?case by (cases f; cases j) auto
qed

text \<open>A client none of whose first \<open>K\<close> calls throws answers them with
  \<open>projr\<close> of its answer.\<close>

lemma no_throw_resp:
  "\<forall>i<K. \<forall>r. \<not> isl (cl i r) \<Longrightarrow> \<forall>i<K. \<forall>r. cl i r = Inr ((\<lambda>i r. projr (cl i r)) i r)"
  by simp

lemma requests_doc_events:
  "requests (doc_events repo u resp) =
     (let fs = eligible repo; N = length fs; sums = summaries_of resp 0 fs;
          deps = map_of repo ''package.json'';
          a = resp N (gemini_req (synthesize_prompt (file_structure repo) deps sums))
      in map (\<lambda>(p, c). gemini_req (summarize_prompt p c)) fs @
         [gemini_req (synthesize_prompt (file_structure repo) deps sums),
          gemini_req (section_prompt ''Installation'' a (installation_context deps)),
          gemini_req (section_prompt ''Usage'' a (usage_context sums)),
          gemini_req (section_prompt ''API Reference'' a (api_context sums))])"
  by (simp add: doc_events_def Let_def)

lemma installation_context_manifest:
  "sublist (''```json\<newline>'' @ js_str d @ ''\<newline>```'') (installation_context d)"
  unfolding installation_context_def
  by (rule sublist_across) (simp_all add: suffix_to_prefix)

lemma find_summary_absent:
  "p \<notin> fst ` set fs \<Longrightarrow> find_summary (summaries_of resp n fs) p = None"
proof (induction fs arbitrary: n)
  case Nil
  then show ?case by (simp add: find_summary_def)
next
  case (Cons f fs)
  then show ?case by (cases f) (auto simp: find_summary_def)
qed

lemma find_summary_first:
  "i < length fs \<Longrightarrow> fst (fs ! i) = p \<Longrightarrow> \<forall>j<i. fst (fs ! j) \<noteq> p \<Longrightarrow>
   find_summary (summaries_of resp n fs) p = resp (n + i) (gemini_req (summarize_prompt p (snd (fs ! i))))"
proof (induction fs arbitrary: n i)
  case Nil
  then show ?case by simp
next
  case (Cons f fs)
  obtain q c where f: "f = (q, c)" by fastforce
  show ?case
  proof (cases i)
    case 0
    with Cons.prems f show ?thesis by (simp add: find_summary_def)
  next
    case (Suc i')
    with Cons.prems f have "q \<noteq> p" by fastforce
    moreover have "find_summary (summaries_of resp (Suc n) fs) p =
        resp (Suc n + i') (gemini_req (summarize_prompt p (snd (fs ! i'))))"
      using Cons.prems Suc by (intro Cons.IH) auto
    ultimately show ?thesis using Suc f by (simp add: find_summary_def)
  qed
qed

lemma usage_context_carries:
  \<open>sublist (''Its summary is: "'' @ js_str (find_summary sums ''server.js'') @ ''"'') (usage_context sums)\<close>
  unfolding usage_context_def by (rule sublist_across) (simp_all add: suffix_to_prefix)

lemma api_context_carries:
  \<open>sublist (''The summary is: "'' @ js_str (find_summary sums ''routes/users.js'') @ ''"'') (api_context sums)\<close>
  unfolding api_context_def by (rule sublist_across) (simp_all add: suffix_to_prefix)

lemma section_md_suffix: "suffix ''\<newline>\<newline>'' (section_md sec t)"
  unfolding section_md_def suffix_def by (rule exI [of _ "''## '' @ sec @ ''\<newline>\<newline>'' @ js_str t"]) simp

lemma writeSection_returns: "returns (\<lambda>x. suffix ''\<newline>\<newline>'' x) (writeSection sec a ctx)"
  by (simp add: returns_def writeSection_run Let_def section_md_suffix split: sum.split)

lemma summarize_files_frags_all: "frags_all P (summarize_files fs acc)"
proof (induction fs arbitrary: acc)
  case Nil
  show ?case unfolding summarize_files.simps by (rule frags_prims)
next
  case (Cons f fs)
  then show ?case
    by (cases f) (simp only: summarize_files.simps,
        intro frags_thenA frags_prims frags_all_bindA [OF _ returns_True] one_call_frags agents_one_call Cons.IH)
qed

lemma summarize_files_frags_within: "frags_within 0 (summarize_files fs acc)"
proof (induction fs arbitrary: acc)
  case Nil
  show ?case unfolding summarize_files.simps by (rule frags_prims)
next
  case (Cons f fs)
  obtain p c where f: "f = (p, c)" by fastforce
  have "frags_within (0 + (0 + 0)) (summarize_files (f # fs) acc)"
    unfolding f summarize_files.simps
    by (intro frags_thenA frags_prims frags_within_bindA one_call_frags agents_one_call Cons.IH)
  then show ?case by simp
qed

lemma generate_from_frags_suffix: "frags_all (\<lambda>f. suffix ''\<newline>\<newline>'' f) (generate_from repo u)"
  unfolding generate_from_def Let_def
  by (intro frags_thenA(1) frags_all_bindA [OF _ writeSection_returns] frags_all_bindA [OF _ returns_True]
        frags_prims summarize_files_frags_all one_call_frags agents_one_call)
     (simp_all add: title_md_def suffix_def)

lemma generate_from_frags_count: "frags_within 5 (generate_from repo u)"
proof -
  have "frags_within (0 + (1 + (0 + (0 + (0 + (0 + (0 + (1 + (0 + (0 + (1 + (0 + (0 + (1 + (0 + (0 + (1 + 0)))))))))))))))))
      (generate_from repo u)"
    unfolding generate_from_def Let_def
    by (intro frags_thenA(2) frags_within_bindA frags_prims summarize_files_frags_within one_call_frags agents_one_call)
  then show ?thesis by (simp add: eval_nat_numeral)
qed

lemma doc_events_start:
  "\<exists>rest. doc_events repo u resp = Status (START LOADING_MESSAGES) # Yield (title_md u) # rest"
  by (simp add: doc_events_def Let_def)

text \<open>C1: Refinement of the stage plan: when none of the at most N+4 remote calls of a run throws (N the number of eligible files), generateDocumentation returns normally and its trace of statuses, calls and yields is exactly the fixed stage plan doc_events, with each call answered by the client.\<close>

theorem generate_from_refines_plan:
  assumes "\<forall>i < length (eligible repo) + 4. \<forall>r. \<not> isl (cl i r)"
  shows "generate_from repo u cl 0 = (Inr (), doc_events repo u (\<lambda>i r. projr (cl i r)))"
  using generate_from_ok_trace [OF no_throw_resp [OF assms]] .

theorem generate_from_refines_plan_witness:
  "generate_from MOCK_REPO_DATA ''https://github.com/acme/widget-api'' (\<lambda>i r. Inr (Some ''ok'')) 0 =
     (Inr (), doc_events MOCK_REPO_DATA ''https://github.com/acme/widget-api'' (\<lambda>i r. Some ''ok''))"
  using generate_from_refines_plan [of MOCK_REPO_DATA "\<lambda>i r. Inr (Some ''ok'')" "''https://github.com/acme/widget-api''"]
  by simp

text \<open>C2: Abort on the first failure: when the k-th remote call (counting from 0) is the first to throw e, the run ends with e and its trace is the stage plan cut right after its k-th call: nothing of a later stage is reported, called or yielded.\<close>

theorem generate_from_abort:
  assumes "\<forall>i<k. \<forall>r. \<not> isl (cl i r)" and "\<forall>r. cl k r = Inl e"
    and "k < length (eligible repo) + 4"
  shows "generate_from repo u cl 0 = (Inl e, take_calls (Suc k) (doc_events repo u (\<lambda>i r. projr (cl i r))))"
  using generate_from_fail_trace [OF no_throw_resp [OF assms(1)] assms(2,3)] .

theorem generate_from_abort_witness:
  "2 < length (eligible MOCK_REPO_DATA) + 4 \<and>
   generate_from MOCK_REPO_DATA ''https://github.com/acme/widget-api''
     (\<lambda>i r. if i < 2 then Inr (Some ''ok'') else Inl (JsError ''quota exceeded'')) 0 =
   (Inl (JsError ''quota exceeded''),
    take_calls 3 (doc_events MOCK_REPO_DATA ''https://github.com/acme/widget-api''
      (\<lambda>i r. projr (if i < (2::nat) then Inr (Some ''ok'') else Inl (JsError ''quota exceeded'') :: js_exn + gen_response))))"
  using generate_from_abort [of 2 "\<lambda>i r. if i < (2::nat) then Inr (Some ''ok'') else Inl (JsError ''quota exceeded'')"
      "JsError ''quota exceeded''" MOCK_REPO_DATA "''https://github.com/acme/widget-api''"]
  by (simp add: numeral_eq_Suc)

text \<open>C3: When the client fails on its (k+1)-th call, exactly k calls were made before it, the run terminates with the propagated failure, the trace ends with the failing call, and only the fragments of earlier stages were emitted (the title, then the overview and the sections written before the failing stage).\<close>

theorem generate_from_abort_shape:
  assumes "\<forall>i<k. \<forall>r. \<not> isl (cl i r)" and "\<forall>r. cl k r = Inl e"
    and "k < length (eligible repo) + 4"
    and "generate_from repo u cl 0 = (r, es)"
  shows "r = Inl e \<and> ncalls es = Suc k \<and> is_call (last es) \<and>
         length (yields es) = (if k \<le> length (eligible repo) then 1 else k - length (eligible repo) + 1)"
proof -
  let ?D = "doc_events repo u (\<lambda>i r. projr (cl i r))"
  from generate_from_fail_trace [OF no_throw_resp [OF assms(1)] assms(2,3)] assms(4)
  have r: "r = Inl e" and es: "es = take_calls (Suc k) ?D" by simp_all
  have n: "ncalls ?D = length (eligible repo) + 4"
    by (simp add: doc_events_def Let_def)
  from es n assms(3) have "ncalls es = Suc k" by (simp add: ncalls_take_calls)
  moreover from es n assms(3) have "is_call (last es)" by (simp add: take_calls_last_call)
  moreover have "length (yields es) = (if k \<le> length (eligible repo) then 1 else k - length (eligible repo) + 1)"
  proof -
    from assms(3) consider "k < length (eligible repo)" | "k = length (eligible repo)"
      | "k = Suc (length (eligible repo))" | "k = Suc (Suc (length (eligible repo)))"
      | "k = Suc (Suc (Suc (length (eligible repo))))"
      by linarith
    then show ?thesis
      by cases (simp_all add: es doc_events_def Let_def take_calls_append eval_nat_numeral yields_take_calls_Nil)
  qed
  ultimately show ?thesis using r by blast
qed

theorem generate_from_abort_shape_witness:
  "(let run = generate_from MOCK_REPO_DATA ''https://github.com/acme/widget-api''
        (\<lambda>i r. if i < 2 then Inr (Some ''ok'') else Inl (JsError ''quota exceeded'')) 0
    in fst run = Inl (JsError ''quota exceeded'') \<and> ncalls (snd run) = 3 \<and> is_call (last (snd run)) \<and>
       length (yields (snd run)) = 1)"
proof -
  let ?cl = "\<lambda>i r. if i < (2::nat) then Inr (Some ''ok'') else Inl (JsError ''quota exceeded'') :: js_exn + gen_response"
  let ?run = "generate_from MOCK_REPO_DATA ''https://github.com/acme/widget-api'' ?cl 0"
  have "2 < length (eligible MOCK_REPO_DATA) + 4" by simp
  from generate_from_abort_shape [of 2 ?cl "JsError ''quota exceeded''" MOCK_REPO_DATA
        "''https://github.com/acme/widget-api''" "fst ?run" "snd ?run", OF _ _ this]
  show ?thesis by (simp add: Let_def)
qed

text \<open>C6: For every client, snapshot and URL, every remote call of a run is immediately preceded by a status report.\<close>

theorem generate_from_every_call_announced:
  "announced (snd (generate_from repo u cl n))"
  using generate_from_announces unfolding announces_def by blast

text \<open>C7: When no call throws, the run makes N+4 calls and yields exactly five fragments in order: the title, the overview followed by a blank line, and the Installation, Usage and API Reference sections, each built from the answer to its own call.\<close>

theorem generate_from_fragments:
  assumes "\<forall>i < length (eligible repo) + 4. \<forall>r. \<not> isl (cl i r)"
    and "generate_from repo u cl 0 = (r, es)"
  shows "r = Inr () \<and> ncalls es = length (eligible repo) + 4 \<and>
    yields es =
      [title_md u,
       js_str (projr (cl (length (eligible repo)) (requests es ! length (eligible repo)))) @ ''\<newline>\<newline>'',
       section_md ''Installation'' (projr (cl (length (eligible repo) + 1) (requests es ! (length (eligible repo) + 1)))),
       section_md ''Usage'' (projr (cl (length (eligible repo) + 2) (requests es ! (length (eligible repo) + 2)))),
       section_md ''API Reference'' (projr (cl (length (eligible repo) + 3) (requests es ! (length (eligible repo) + 3))))]"
proof -
  from generate_from_ok_trace [OF no_throw_resp [OF assms(1)]] assms(2)
  have "r = Inr ()" and es: "es = doc_events repo u (\<lambda>i r. projr (cl i r))" by simp_all
  then show ?thesis
    by (simp add: requests_doc_events nth_append Let_def doc_events_def eval_nat_numeral)
qed

theorem generate_from_fragments_witness:
  "(let run = generate_from MOCK_REPO_DATA ''https://github.com/acme/widget-api'' (\<lambda>i r. Inr (Some ''ok'')) 0
    in fst run = Inr () \<and> ncalls (snd run) = 6 \<and>
       yields (snd run) = [title_md ''https://github.com/acme/widget-api'', ''ok\<newline>\<newline>'',
         section_md ''Installation'' (Some ''ok''), section_md ''Usage'' (Some ''ok''),
         section_md ''API Reference'' (Some ''ok'')])"
proof -
  let ?run = "generate_from MOCK_REPO_DATA ''https://github.com/acme/widget-api'' (\<lambda>i r. Inr (Some ''ok'')) 0"
  from generate_from_fragments [of MOCK_REPO_DATA "\<lambda>i r. Inr (Some ''ok'')"
      "''https://github.com/acme/widget-api''" "fst ?run" "snd ?run"]
  show ?thesis by (simp add: Let_def)
qed

text \<open>C8: When no call throws, the synthesis prompt carries every eligible file's summary as returned by the client, rendered as **path**: summary, and each of the three section prompts carries the architecture overview.\<close>

theorem generate_from_dataflow:
  assumes "\<forall>i < length (eligible repo) + 4. \<forall>r. \<not> isl (cl i r)"
    and "generate_from repo u cl 0 = (r, es)"
  shows "(\<forall>j < length (eligible repo).
            sublist (''**'' @ fst (eligible repo ! j) @ ''**: '' @ js_str (projr (cl j (requests es ! j))))
                    (contents (requests es ! length (eligible repo)))) \<and>
         (\<forall>j \<in> {1, 2, 3}.
            sublist (js_str (projr (cl (length (eligible repo)) (requests es ! length (eligible repo)))))
                    (contents (requests es ! (length (eligible repo) + j))))"
proof -
  let ?fs = "eligible repo" and ?resp = "\<lambda>i r. projr (cl i r)"
  let ?sums = "summaries_of ?resp 0 ?fs"
  from generate_from_ok_trace [OF no_throw_resp [OF assms(1)]] assms(2)
  have es: "es = doc_events repo u ?resp" by simp
  have req_j: "requests es ! j = gemini_req (summarize_prompt (fst (?fs ! j)) (snd (?fs ! j)))"
    if "j < length ?fs" for j
    using that by (simp add: es requests_doc_events Let_def nth_append split: prod.split)
  have sum_j: "js_str (projr (cl j (requests es ! j))) = js_str (summary (?sums ! j))"
    if "j < length ?fs" for j
    using that by (simp add: req_j summaries_of_nth)
  have "sublist (''**'' @ path (?sums ! j) @ ''**: '' @ js_str (summary (?sums ! j)))
          (contents (requests es ! length ?fs))" if "j < length ?fs" for j
  proof -
    have "?sums ! j \<in> set ?sums" using that by simp
    then have "sublist (''**'' @ path (?sums ! j) @ ''**: '' @ js_str (summary (?sums ! j))) (summaries_text ?sums)"
      by (rule summaries_text_carries)
    moreover have "sublist (summaries_text ?sums) (contents (requests es ! length ?fs))"
      by (simp add: es requests_doc_events Let_def nth_append synthesize_prompt_carries)
    ultimately show ?thesis by (rule sublist_order.order_trans)
  qed
  then have part1: "\<forall>j < length ?fs. sublist (''**'' @ fst (?fs ! j) @ ''**: '' @ js_str (projr (cl j (requests es ! j))))
                    (contents (requests es ! length ?fs))"
    by (simp add: sum_j summaries_of_nth)
  have part2: "\<forall>j \<in> {1, 2, 3}. sublist (js_str (projr (cl (length ?fs) (requests es ! length ?fs))))
                    (contents (requests es ! (length ?fs + j)))"
    by (simp add: es requests_doc_events Let_def nth_append section_prompt_carries)
  from part1 part2 show ?thesis by blast
qed

theorem generate_from_dataflow_witness:
  "(let es = snd (generate_from MOCK_REPO_DATA ''https://github.com/acme/widget-api'' (\<lambda>i r. Inr (Some ''ok'')) 0)
    in sublist (''**'' @ fst (eligible MOCK_REPO_DATA ! 0) @ ''**: ok'') (contents (requests es ! 2)) \<and>
       sublist ''ok'' (contents (requests es ! 5)))"
proof -
  let ?run = "generate_from MOCK_REPO_DATA ''https://github.com/acme/widget-api'' (\<lambda>i r. Inr (Some ''ok'')) 0"
  from generate_from_dataflow [of MOCK_REPO_DATA "\<lambda>i r. Inr (Some ''ok'')"
      "''https://github.com/acme/widget-api''" "fst ?run" "snd ?run"]
  have "sublist (''**'' @ fst (eligible MOCK_REPO_DATA ! 0) @ ''**: '' @ ''ok'') (contents (requests (snd ?run) ! 2))"
    and "sublist ''ok'' (contents (requests (snd ?run) ! (2 + 3)))"
    by simp_all
  then show ?thesis by (simp add: Let_def)
qed

text \<open>C9: For every client, the first events of a run are the START status and the title fragment: the title is emitted before any remote call.\<close>

theorem generate_from_title_first:
  "\<exists>es. snd (generate_from repo u cl n) = Status (START LOADING_MESSAGES) # Yield (title_md u) # es"
  by (simp add: generate_from_def act_simps split: prod.split)

text \<open>C12: When no call throws, the statuses reported are, in order: START, ANALYZE_STRUCTURE, one SUMMARIZE_FILES per eligible file in snapshot order, SYNTHESIZE_ARCHITECTURE, WRITE_INTRODUCTION, WRITE_INSTALLATION, WRITE_USAGE, WRITE_API_REFERENCE, FINALIZE.\<close>

theorem generate_from_statuses:
  assumes "\<forall>i < length (eligible repo) + 4. \<forall>r. \<not> isl (cl i r)"
    and "generate_from repo u cl 0 = (r, es)"
  shows "statuses es =
    [START LOADING_MESSAGES, ANALYZE_STRUCTURE LOADING_MESSAGES] @
    map (\<lambda>(p, c). SUMMARIZE_FILES LOADING_MESSAGES p) (eligible repo) @
    [SYNTHESIZE_ARCHITECTURE LOADING_MESSAGES, WRITE_INTRODUCTION LOADING_MESSAGES,
     WRITE_INSTALLATION LOADING_MESSAGES, WRITE_USAGE LOADING_MESSAGES,
     WRITE_API_REFERENCE LOADING_MESSAGES, FINALIZE LOADING_MESSAGES]"
proof -
  from generate_from_ok_trace [OF no_throw_resp [OF assms(1)]] assms(2)
  have "es = doc_events repo u (\<lambda>i r. projr (cl i r))" by simp
  then show ?thesis by (simp add: doc_events_def Let_def)
qed

theorem generate_from_statuses_witness:
  "statuses (snd (generate_from MOCK_REPO_DATA ''https://github.com/acme/widget-api'' (\<lambda>i r. Inr (Some ''ok'')) 0)) =
    [START LOADING_MESSAGES, ANALYZE_STRUCTURE LOADING_MESSAGES] @
    map (\<lambda>(p, c). SUMMARIZE_FILES LOADING_MESSAGES p) (eligible MOCK_REPO_DATA) @
    [SYNTHESIZE_ARCHITECTURE LOADING_MESSAGES, WRITE_INTRODUCTION LOADING_MESSAGES,
     WRITE_INSTALLATION LOADING_MESSAGES, WRITE_USAGE LOADING_MESSAGES,
     WRITE_API_REFERENCE LOADING_MESSAGES, FINALIZE LOADING_MESSAGES]"
proof -
  let ?run = "generate_from MOCK_REPO_DATA ''https://github.com/acme/widget-api'' (\<lambda>i r. Inr (Some ''ok'')) 0"
  from generate_from_statuses [of MOCK_REPO_DATA "\<lambda>i r. Inr (Some ''ok'')"
      "''https://github.com/acme/widget-api''" "fst ?run" "snd ?run"]
  show ?thesis by simp
qed

text \<open>C13: For every client, a run makes at most N+4 remote calls, N the number of eligible files.\<close>

theorem generate_from_call_bound:
  "ncalls (snd (generate_from repo u cl n)) \<le> length (eligible repo) + 4"
  using generate_from_calls unfolding calls_within_def by blast

text \<open>C14: The document title is the text after the last slash of the repository URL, or New Project when that text is empty.\<close>

theorem repo_name_last_segment:
  "CHR ''/'' \<notin> set r \<Longrightarrow> repo_name (p @ ''/'' @ r) = (if r = [] then ''New Project'' else r)"
  by (simp add: repo_name_def js_pop_split_suffix)

theorem repo_name_last_segment_witness:
  "CHR ''/'' \<notin> set ''widget-api'' \<and> repo_name ''https://example.com/acme/widget-api'' = ''widget-api''"
  using repo_name_last_segment [of "''widget-api''" "''https://example.com/acme''"] by simp

text \<open>C20: For a snapshot with no package.json, a run whose calls succeed sends
  the word undefined as the dependency manifest, in the fenced json block of
  both the synthesis prompt and the Installation prompt (the spec asks for an
  absent manifest to be treated as the empty string).\<close>

theorem missing_manifest_undefined:
  assumes "map_of repo ''package.json'' = None"
    and "\<forall>i < length (eligible repo) + 4. \<forall>r. \<not> isl (cl i r)"
    and "generate_from repo u cl 0 = (r, es)"
  shows "sublist ''```json\<newline>undefined\<newline>```'' (contents (requests es ! length (eligible repo))) \<and>
         sublist ''```json\<newline>undefined\<newline>```'' (contents (requests es ! Suc (length (eligible repo))))"
proof -
  from generate_from_ok_trace [OF no_throw_resp [OF assms(2)]] assms(3)
  have es: "es = doc_events repo u (\<lambda>i r. projr (cl i r))" by simp
  have i: "sublist ''```json\<newline>undefined\<newline>```'' (installation_context None)"
    using installation_context_manifest [of None] by simp
  have "sublist ''```json\<newline>undefined\<newline>```'' (synthesize_prompt st None xs)" for st xs
    using synthesize_prompt_manifest [of None st xs] by simp
  moreover have "sublist ''```json\<newline>undefined\<newline>```'' (section_prompt ''Installation'' a (installation_context None))" for a
    using sublist_order.order_trans [OF i section_prompt_carries(2)] .
  ultimately show ?thesis
    using assms(1) by (simp add: es requests_doc_events Let_def nth_append)
qed

theorem missing_manifest_undefined_witness:
  "map_of [(''index.js'', ''x'')] ''package.json'' = None \<and>
   sublist ''```json\<newline>undefined\<newline>```''
     (contents (requests (snd (generate_from [(''index.js'', ''x'')] ''https://github.com/a/b'' (\<lambda>i r. Inr (Some ''ok'')) 0)) ! 1)) \<and>
   sublist ''```json\<newline>undefined\<newline>```''
     (contents (requests (snd (generate_from [(''index.js'', ''x'')] ''https://github.com/a/b'' (\<lambda>i r. Inr (Some ''ok'')) 0)) ! 2))"
proof -
  have e: "length (eligible [(''index.js'', ''x'')]) = 1"
    by (simp add: eligible_def ends_with_def)
  from missing_manifest_undefined [of "[(''index.js'', ''x'')]" "\<lambda>i r. Inr (Some ''ok'')" "''https://github.com/a/b''"
      "fst (generate_from [(''index.js'', ''x'')] ''https://github.com/a/b'' (\<lambda>i r. Inr (Some ''ok'')) 0)"
      "snd (generate_from [(''index.js'', ''x'')] ''https://github.com/a/b'' (\<lambda>i r. Inr (Some ''ok'')) 0)"]
  show ?thesis by (simp add: e numeral_eq_Suc)
qed

text \<open>C22: When no call throws and the snapshot has an eligible server.js, the
  Usage prompt carries the summary the client returned for the first such file,
  quoted after Its summary is:.\<close>

theorem usage_prompt_entry_summary:
  assumes "\<forall>i < length (eligible repo) + 4. \<forall>r. \<not> isl (cl i r)"
    and "generate_from repo u cl 0 = (r, es)"
    and "i < length (eligible repo)" and "fst (eligible repo ! i) = ''server.js''"
    and "\<forall>j<i. fst (eligible repo ! j) \<noteq> ''server.js''"
  shows \<open>sublist (''Its summary is: "'' @ js_str (projr (cl i (requests es ! i))) @ ''"'')
           (contents (requests es ! (length (eligible repo) + 2)))\<close>
proof -
  let ?fs = "eligible repo"
  let ?resp = "\<lambda>i r. projr (cl i r)"
  from generate_from_ok_trace [OF no_throw_resp [OF assms(1)]] assms(2)
  have es: "es = doc_events repo u ?resp" by simp
  have rq: "requests es ! i = gemini_req (summarize_prompt ''server.js'' (snd (?fs ! i)))"
    using assms(3,4) by (cases "?fs ! i") (simp add: es requests_doc_events Let_def nth_append)
  have f: "find_summary (summaries_of ?resp 0 ?fs) ''server.js'' = projr (cl i (requests es ! i))"
    using find_summary_first [OF assms(3,4,5), of ?resp 0] rq by simp
  have \<open>sublist (''Its summary is: "'' @ js_str (projr (cl i (requests es ! i))) @ ''"'')
      (section_prompt ''Usage'' a (usage_context (summaries_of ?resp 0 ?fs)))\<close> for a
    using sublist_order.order_trans [OF usage_context_carries [of "summaries_of ?resp 0 ?fs"]
        section_prompt_carries(2) [of _ "''Usage''" a]] f by simp
  then show ?thesis by (simp add: es requests_doc_events Let_def nth_append)
qed

theorem usage_prompt_entry_summary_witness:
  \<open>0 < length (eligible MOCK_REPO_DATA) \<and> fst (eligible MOCK_REPO_DATA ! 0) = ''server.js'' \<and>
   sublist ''Its summary is: "S"''
     (contents (requests (snd (generate_from MOCK_REPO_DATA ''https://github.com/a/b'' (\<lambda>i r. Inr (Some ''S'')) 0)) ! 4))\<close>
proof -
  have "map fst (eligible MOCK_REPO_DATA) ! 0 = ''server.js''" by (simp add: mock_eligible_paths)
  then have e0: "fst (eligible MOCK_REPO_DATA ! 0) = ''server.js''" by simp
  from usage_prompt_entry_summary [of MOCK_REPO_DATA "\<lambda>i r. Inr (Some ''S'')" "''https://github.com/a/b''"
      "fst (generate_from MOCK_REPO_DATA ''https://github.com/a/b'' (\<lambda>i r. Inr (Some ''S'')) 0)"
      "snd (generate_from MOCK_REPO_DATA ''https://github.com/a/b'' (\<lambda>i r. Inr (Some ''S'')) 0)" 0] e0
  show ?thesis by simp
qed

text \<open>C23: When no call throws and the snapshot has no eligible server.js and
  no eligible routes/users.js, the Usage and API Reference prompts quote the
  word undefined as the summary of the file they look up.\<close>

theorem missing_context_files_undefined:
  assumes "\<forall>i < length (eligible repo) + 4. \<forall>r. \<not> isl (cl i r)"
    and "generate_from repo u cl 0 = (r, es)"
    and "''server.js'' \<notin> fst ` set (eligible repo)" and "''routes/users.js'' \<notin> fst ` set (eligible repo)"
  shows \<open>sublist ''Its summary is: "undefined"'' (contents (requests es ! (length (eligible repo) + 2))) \<and>
         sublist ''The summary is: "undefined"'' (contents (requests es ! (length (eligible repo) + 3)))\<close>
proof -
  let ?fs = "eligible repo"
  let ?resp = "\<lambda>i r. projr (cl i r)"
  from generate_from_ok_trace [OF no_throw_resp [OF assms(1)]] assms(2)
  have es: "es = doc_events repo u ?resp" by simp
  have \<open>sublist ''Its summary is: "undefined"'' (section_prompt ''Usage'' a (usage_context (summaries_of ?resp 0 ?fs)))\<close> for a
    using sublist_order.order_trans [OF usage_context_carries [of "summaries_of ?resp 0 ?fs"]
        section_prompt_carries(2) [of _ "''Usage''" a]]
      find_summary_absent [OF assms(3), of ?resp 0] by simp
  moreover have \<open>sublist ''The summary is: "undefined"'' (section_prompt ''API Reference'' a (api_context (summaries_of ?resp 0 ?fs)))\<close> for a
    using sublist_order.order_trans [OF api_context_carries [of "summaries_of ?resp 0 ?fs"]
        section_prompt_carries(2) [of _ "''API Reference''" a]]
      find_summary_absent [OF assms(4), of ?resp 0] by simp
  ultimately show ?thesis by (simp add: es requests_doc_events Let_def nth_append)
qed

theorem missing_context_files_undefined_witness:
  \<open>''server.js'' \<notin> fst ` set (eligible [(''index.js'', ''x'')]) \<and>
   ''routes/users.js'' \<notin> fst ` set (eligible [(''index.js'', ''x'')]) \<and>
   sublist ''Its summary is: "undefined"''
     (contents (requests (snd (generate_from [(''index.js'', ''x'')] ''https://github.com/a/b'' (\<lambda>i r. Inr (Some ''ok'')) 0)) ! 3)) \<and>
   sublist ''The summary is: "undefined"''
     (contents (requests (snd (generate_from [(''index.js'', ''x'')] ''https://github.com/a/b'' (\<lambda>i r. Inr (Some ''ok'')) 0)) ! 4))\<close>
proof -
  have e: "eligible [(''index.js'', ''x'')] = [(''index.js'', ''x'')]"
    by (simp add: eligible_def ends_with_def)
  from missing_context_files_undefined [of "[(''index.js'', ''x'')]" "\<lambda>i r. Inr (Some ''ok'')" "''https://github.com/a/b''"
      "fst (generate_from [(''index.js'', ''x'')] ''https://github.com/a/b'' (\<lambda>i r. Inr (Some ''ok'')) 0)"
      "snd (generate_from [(''index.js'', ''x'')] ''https://github.com/a/b'' (\<lambda>i r. Inr (Some ''ok'')) 0)"]
  show ?thesis by (simp add: e numeral_eq_Suc)
qed

text \<open>C24: For every client, snapshot, URL and start index, every fragment a
  run yields ends with a blank line, so that the fragments concatenate into
  separate Markdown blocks, and a run yields at most five fragments (title,
  overview, three sections).\<close>

theorem generate_from_fragment_blocks:
  "list_all (\<lambda>f. suffix ''\<newline>\<newline>'' f) (yields (snd (generate_from repo u cl n))) \<and>
   length (yields (snd (generate_from repo u cl n))) \<le> 5"
  using generate_from_frags_suffix generate_from_frags_count
  by (simp add: frags_all_def frags_within_def)

end
