(* ===== verification/App.thy ===== *)
theory App
  imports Orchestrator
begin

text \<open>
  The consumer of the pipeline: the \<open>App\<close> component of \<open>src/App.tsx\<close> with the
  form of \<open>src/components/RepoInput.tsx\<close>.  Its React state (\<open>useState\<close> hooks)
  is the record \<open>app_state\<close>.  \<open>handleGenerate\<close> validates the URL, clears the
  output, then consumes the generator: every status goes to
  \<open>setLoadingMessage\<close>, every yielded fragment is appended to the local
  \<open>readmeContent\<close> and published with \<open>setGeneratedReadme\<close>; a thrown value is
  caught and shown, and \<open>finally\<close> clears the loading state.

  Two views of the same code.  \<open>handleGenerate\<close> is the handler run to its end
  for one client.  \<open>app_step\<close> is the page as a state machine: the user edits
  the URL, takes the sample or submits only while nothing is loading (the input
  and both buttons are \<open>disabled={isLoading}\<close>), and an in-flight run advances
  one trace event at a time, interleaved with nothing else.
\<close>

section \<open>State\<close>

record app_state =
  repoUrl :: string
  isLoading :: bool
  loadingMessage :: string
  generatedReadme :: string
  error :: "string option"

definition init_app :: app_state where
  "init_app = \<lparr>repoUrl = [], isLoading = False, loadingMessage = [], generatedReadme = [],
                error = None\<rparr>"

section \<open>URL validation\<close>

text \<open>
  The regular expression \<open>^(https|http):\/\/github\.com\/[\w-]+\/[\w-.]+$\<close>
  (no flags, so \<open>$\<close> is the end of the string).  \<open>\w\<close> is
  \<open>[A-Za-z0-9_]\<close>; in \<open>[\w-.]\<close> the \<open>-\<close> next to a class escape is a
  literal, so that class is \<open>\w\<close>, \<open>-\<close> and \<open>.\<close>.  \<open>is_github_url\<close> decides
  it by stripping the scheme and host and splitting the rest at \<open>/\<close>;
  \<open>github_url_re\<close> is the language of the expression, stated directly.
\<close>

definition word_char :: "char \<Rightarrow> bool" where
  "word_char c \<longleftrightarrow>
     (let n = (of_char c :: nat)
      in (48 \<le> n \<and> n \<le> 57) \<or> (65 \<le> n \<and> n \<le> 90) \<or> (97 \<le> n \<and> n \<le> 122) \<or> n = 95)"

definition owner_char :: "char \<Rightarrow> bool" where
  "owner_char c \<longleftrightarrow> word_char c \<or> c = CHR ''-''"

definition repo_char :: "char \<Rightarrow> bool" where
  "repo_char c \<longleftrightarrow> word_char c \<or> c = CHR ''-'' \<or> c = CHR ''.''"

definition url_path_ok :: "string \<Rightarrow> bool" where
  "url_path_ok rest \<longleftrightarrow>
     (case js_split CHR ''/'' rest of
        [own, rep] \<Rightarrow> own \<noteq> [] \<and> list_all owner_char own \<and> rep \<noteq> [] \<and> list_all repo_char rep
      | _ \<Rightarrow> False)"

definition is_github_url :: "string \<Rightarrow> bool" where
  "is_github_url s \<longleftrightarrow>
     (if prefix ''https://github.com/'' s then url_path_ok (drop 19 s)
      else if prefix ''http://github.com/'' s then url_path_ok (drop 18 s)
      else False)"

definition github_url_re :: "string \<Rightarrow> bool" where
  "github_url_re s \<longleftrightarrow>
     (\<exists>sch own rep. s = sch @ ''://github.com/'' @ own @ ''/'' @ rep \<and>
        sch \<in> {''https'', ''http''} \<and>
        own \<noteq> [] \<and> (\<forall>c \<in> set own. owner_char c) \<and>
        rep \<noteq> [] \<and> (\<forall>c \<in> set rep. repo_char c))"

text \<open>The two guards of \<open>handleGenerate\<close>, in order: the error it shows, or
  \<open>None\<close> when the run starts.\<close>

definition validate :: "string \<Rightarrow> string option" where
  "validate url =
     (if url = [] then Some ''Please enter a GitHub repository URL.''
      else if \<not> is_github_url url
      then Some ''Invalid GitHub repository URL. Format should be: https://github.com/user/repo''
      else None)"

section \<open>Consuming the run\<close>

text \<open>\<open>e instanceof Error ? e.message : 'An unknown error occurred.'\<close>\<close>

fun exn_message :: "js_exn \<Rightarrow> string" where
  "exn_message (JsError m) = m"
| "exn_message JsOther = ''An unknown error occurred.''"

text \<open>One event of the run as the page sees it, with the local
  \<open>readmeContent\<close>: a status is \<open>setLoadingMessage\<close>, a fragment is
  \<open>readmeContent += section; setGeneratedReadme(readmeContent)\<close>, a remote call
  changes nothing.\<close>

fun apply_event :: "event \<Rightarrow> string \<times> app_state \<Rightarrow> string \<times> app_state" where
  "apply_event (Status m) (c, s) = (c, s\<lparr>loadingMessage := m\<rparr>)"
| "apply_event (Call r) (c, s) = (c, s)"
| "apply_event (Yield f) (c, s) = (c @ f, s\<lparr>generatedReadme := c @ f\<rparr>)"

definition consume :: "event list \<Rightarrow> string \<times> app_state \<Rightarrow> string \<times> app_state" where
  "consume es cs = fold apply_event es cs"

text \<open>The \<open>catch\<close> and \<open>finally\<close> clauses.\<close>

definition finish_run :: "js_exn + unit \<Rightarrow> app_state \<Rightarrow> app_state" where
  "finish_run r s =
     (let s' = (case r of
                  Inl e \<Rightarrow> s\<lparr>error := Some (''Failed to generate documentation. '' @ exn_message e)\<rparr>
                | Inr _ \<Rightarrow> s)
      in s'\<lparr>isLoading := False, loadingMessage := []\<rparr>)"

text \<open>\<open>setIsLoading(true); setGeneratedReadme(''); setError(null)\<close>.\<close>

definition start_run :: "app_state \<Rightarrow> app_state" where
  "start_run s = s\<lparr>isLoading := True, generatedReadme := [], error := None\<rparr>"

definition handleGenerate :: "client \<Rightarrow> app_state \<Rightarrow> app_state" where
  "handleGenerate cl s =
     (case validate (repoUrl s) of
        Some msg \<Rightarrow> s\<lparr>error := Some msg\<rparr>
      | None \<Rightarrow>
          (case generateDocumentation (repoUrl s) cl 0 of
             (r, es) \<Rightarrow> finish_run r (snd (consume es ([], start_run s)))))"

definition handleUseSample :: "app_state \<Rightarrow> app_state" where
  "handleUseSample s = s\<lparr>repoUrl := ''https://github.com/reactjs/reactjs.org''\<rparr>"

section \<open>The page as a state machine\<close>

record run_state =
  pending :: "event list"
  outcome :: "js_exn + unit"
  readmeContent :: string

record machine =
  ui :: app_state
  running :: "run_state option"

definition init_machine :: machine where
  "init_machine = \<lparr>ui = init_app, running = None\<rparr>"

inductive app_step :: "machine \<Rightarrow> machine \<Rightarrow> bool" where
  edit: "\<not> isLoading (ui m) \<Longrightarrow> app_step m (m\<lparr>ui := (ui m)\<lparr>repoUrl := u\<rparr>\<rparr>)"
| use_sample: "\<not> isLoading (ui m) \<Longrightarrow> app_step m (m\<lparr>ui := handleUseSample (ui m)\<rparr>)"
| reject: "\<not> isLoading (ui m) \<Longrightarrow> validate (repoUrl (ui m)) = Some msg \<Longrightarrow>
     app_step m (m\<lparr>ui := (ui m)\<lparr>error := Some msg\<rparr>\<rparr>)"
| start: "\<not> isLoading (ui m) \<Longrightarrow> validate (repoUrl (ui m)) = None \<Longrightarrow>
     generateDocumentation (repoUrl (ui m)) cl 0 = (r, es) \<Longrightarrow>
     app_step m \<lparr>ui = start_run (ui m),
                 running = Some \<lparr>pending = es, outcome = r, readmeContent = []\<rparr>\<rparr>"
| progress: "running m = Some rs \<Longrightarrow> pending rs = e # es \<Longrightarrow>
     apply_event e (readmeContent rs, ui m) = (c, s) \<Longrightarrow>
     app_step m \<lparr>ui = s, running = Some \<lparr>pending = es, outcome = outcome rs, readmeContent = c\<rparr>\<rparr>"
| finish: "running m = Some rs \<Longrightarrow> pending rs = [] \<Longrightarrow>
     app_step m \<lparr>ui = finish_run (outcome rs) (ui m), running = None\<rparr>"

text \<open>What the page keeps true between its fields: the loading flag is set
  exactly while a run is in flight; while it is, no error is shown and the
  displayed document is what the run has yielded so far; otherwise no status
  is shown.\<close>

definition app_inv :: "machine \<Rightarrow> bool" where
  "app_inv m \<longleftrightarrow>
     (case running m of
        None \<Rightarrow> \<not> isLoading (ui m) \<and> loadingMessage (ui m) = []
      | Some rs \<Rightarrow> isLoading (ui m) \<and> error (ui m) = None \<and>
                   generatedReadme (ui m) = readmeContent rs)"

section \<open>Properties\<close>


lemma slash_not_owner [simp]: "\<not> owner_char CHR ''/''" "\<not> repo_char CHR ''/''"
  by (simp_all add: owner_char_def repo_char_def word_char_def)

lemma apply_event_frame:
  "apply_event e (c, s) = (c', s') \<Longrightarrow>
     repoUrl s' = repoUrl s \<and> isLoading s' = isLoading s \<and> error s' = error s"
  by (cases e) auto

lemma consume_state:
  "consume es (c, s) =
     (c @ concat (yields es),
      s\<lparr>loadingMessage := last_status es (loadingMessage s),
        generatedReadme := (if yields es = [] then generatedReadme s else c @ concat (yields es))\<rparr>)"
proof (induction es arbitrary: c s)
  case Nil
  show ?case by (simp add: consume_def)
next
  case (Cons e es)
  then show ?case by (cases e) (simp_all add: consume_def)
qed


lemma url_path_ok_iff:
  "url_path_ok rest \<longleftrightarrow>
     (\<exists>own rep. rest = own @ ''/'' @ rep \<and> own \<noteq> [] \<and> (\<forall>c \<in> set own. owner_char c) \<and>
        rep \<noteq> [] \<and> (\<forall>c \<in> set rep. repo_char c))"
proof
  assume ok: "url_path_ok rest"
  then obtain own rep where sp: "js_split CHR ''/'' rest = [own, rep]"
    by (auto simp: url_path_ok_def split: list.splits)
  with ok have P: "own \<noteq> [] \<and> (\<forall>c \<in> set own. owner_char c) \<and> rep \<noteq> [] \<and> (\<forall>c \<in> set rep. repo_char c)"
    by (simp add: url_path_ok_def list_all_iff)
  from js_join_split [of "CHR ''/''" rest] sp have "rest = own @ ''/'' @ rep" by simp
  with P show "\<exists>own rep. rest = own @ ''/'' @ rep \<and> own \<noteq> [] \<and> (\<forall>c \<in> set own. owner_char c) \<and>
        rep \<noteq> [] \<and> (\<forall>c \<in> set rep. repo_char c)" by blast
next
  assume "\<exists>own rep. rest = own @ ''/'' @ rep \<and> own \<noteq> [] \<and> (\<forall>c \<in> set own. owner_char c) \<and>
        rep \<noteq> [] \<and> (\<forall>c \<in> set rep. repo_char c)"
  then obtain own rep where r: "rest = own @ ''/'' @ rep" and P: "own \<noteq> []" "\<forall>c \<in> set own. owner_char c"
      "rep \<noteq> []" "\<forall>c \<in> set rep. repo_char c" by blast
  from P have "CHR ''/'' \<notin> set own" "CHR ''/'' \<notin> set rep" by auto
  then have "js_split CHR ''/'' rest = [own, rep]"
    by (simp add: r js_split_append_sep js_split_no_sep)
  with P show "url_path_ok rest" by (simp add: url_path_ok_def list_all_iff)
qed

lemma is_github_url_split:
  "is_github_url s \<longleftrightarrow>
     (\<exists>rest. (s = ''https://github.com/'' @ rest \<or> s = ''http://github.com/'' @ rest) \<and> url_path_ok rest)"
  by (auto simp: is_github_url_def prefix_def)

lemma repo_name_path: "CHR ''/'' \<notin> set r \<Longrightarrow> r \<noteq> [] \<Longrightarrow> repo_name (p @ ''/'' @ r) = r"
  by (simp add: repo_name_def js_pop_split_suffix)

text \<open>The check of \<open>handleGenerate\<close> decides that language.\<close>

lemma is_github_url_iff_re: "is_github_url s \<longleftrightarrow> github_url_re s"
proof
  assume "is_github_url s"
  then obtain rest own rep where
      pre: "s = ''https://github.com/'' @ rest \<or> s = ''http://github.com/'' @ rest"
      and r: "rest = own @ ''/'' @ rep"
      and P: "own \<noteq> [] \<and> (\<forall>c \<in> set own. owner_char c) \<and> rep \<noteq> [] \<and> (\<forall>c \<in> set rep. repo_char c)"
    unfolding is_github_url_split url_path_ok_iff by blast
  from pre have "\<exists>sch \<in> {''https'', ''http''}. s = sch @ ''://github.com/'' @ rest" by auto
  with r P show "github_url_re s" unfolding github_url_re_def by blast
next
  assume "github_url_re s"
  then obtain sch own rep where s: "s = sch @ ''://github.com/'' @ own @ ''/'' @ rep"
      and sch: "sch \<in> {''https'', ''http''}"
      and P: "own \<noteq> [] \<and> (\<forall>c \<in> set own. owner_char c) \<and> rep \<noteq> [] \<and> (\<forall>c \<in> set rep. repo_char c)"
    unfolding github_url_re_def by blast
  from sch s have "s = ''https://github.com/'' @ (own @ ''/'' @ rep) \<or>
                   s = ''http://github.com/'' @ (own @ ''/'' @ rep)" by auto
  with P show "is_github_url s" unfolding is_github_url_split url_path_ok_iff by blast
qed

lemma sample_url_valid: "is_github_url ''https://github.com/reactjs/reactjs.org''"
  by code_simp

lemma validate_None_iff: "validate u = None \<longleftrightarrow> is_github_url u"
  by (auto simp: validate_def is_github_url_def)

lemma handleGenerate_started:
  assumes "validate (repoUrl s) = None" and "generateDocumentation (repoUrl s) cl 0 = (r, es)"
  shows "handleGenerate cl s =
    s\<lparr>isLoading := False, loadingMessage := [], generatedReadme := concat (yields es),
      error := (case r of Inl e \<Rightarrow> Some (''Failed to generate documentation. '' @ exn_message e)
                        | Inr _ \<Rightarrow> None)\<rparr>"
  using assms
  by (simp add: handleGenerate_def consume_state start_run_def finish_run_def Let_def split: sum.split)

text \<open>C4: When the URL is valid and no remote call throws, handleGenerate ends with loading cleared, no status and no error shown, and the displayed README equal to the concatenation of all fragments of the stage plan.\<close>

theorem handleGenerate_success:
  assumes "is_github_url (repoUrl s)" and "\<forall>i < 6. \<forall>r. \<not> isl (cl i r)"
  shows "handleGenerate cl s =
    s\<lparr>isLoading := False, loadingMessage := [],
      generatedReadme := concat (yields (doc_events MOCK_REPO_DATA (repoUrl s) (\<lambda>i r. projr (cl i r)))),
      error := None\<rparr>"
proof -
  have "generateDocumentation (repoUrl s) cl 0 = (Inr (), doc_events MOCK_REPO_DATA (repoUrl s) (\<lambda>i r. projr (cl i r)))"
    unfolding generateDocumentation_def
    by (rule generate_from_ok_trace) (use assms(2) in simp)
  with assms(1) show ?thesis by (simp add: handleGenerate_started validate_None_iff)
qed

theorem handleGenerate_success_witness:
  "is_github_url (repoUrl (handleUseSample init_app)) \<and>
   handleGenerate (\<lambda>i r. Inr (Some ''ok'')) (handleUseSample init_app) =
     (handleUseSample init_app)\<lparr>isLoading := False, loadingMessage := [],
       generatedReadme := concat (yields (doc_events MOCK_REPO_DATA (repoUrl (handleUseSample init_app)) (\<lambda>i r. Some ''ok''))),
       error := None\<rparr>"
  using handleGenerate_success [of "handleUseSample init_app" "\<lambda>i r. Inr (Some ''ok'')"] sample_url_valid
  by (simp add: handleUseSample_def)

text \<open>C5: When the URL is valid and the k-th call is the first to throw e, handleGenerate ends with loading cleared, the error Failed to generate documentation. followed by the message of e (or An unknown error occurred. for a non-Error value), and the partial README yielded before the failure still displayed.\<close>

theorem handleGenerate_failure:
  assumes "is_github_url (repoUrl s)" and "\<forall>i<k. \<forall>r. \<not> isl (cl i r)"
    and "\<forall>r. cl k r = Inl e" and "k < 6"
  shows "handleGenerate cl s =
    s\<lparr>isLoading := False, loadingMessage := [],
      generatedReadme := concat (yields (take_calls (Suc k) (doc_events MOCK_REPO_DATA (repoUrl s) (\<lambda>i r. projr (cl i r))))),
      error := Some (''Failed to generate documentation. '' @ exn_message e)\<rparr>"
proof -
  have "generateDocumentation (repoUrl s) cl 0 =
      (Inl e, take_calls (Suc k) (doc_events MOCK_REPO_DATA (repoUrl s) (\<lambda>i r. projr (cl i r))))"
    unfolding generateDocumentation_def
    by (rule generate_from_fail_trace) (use assms(2-4) in simp_all)
  with assms(1) show ?thesis by (simp add: handleGenerate_started validate_None_iff)
qed

theorem handleGenerate_failure_witness:
  "is_github_url (repoUrl (handleUseSample init_app)) \<and>
   handleGenerate (\<lambda>i r. if i < 3 then Inr (Some ''ok'') else Inl (JsError ''quota exceeded'')) (handleUseSample init_app) =
     (handleUseSample init_app)\<lparr>isLoading := False, loadingMessage := [],
       generatedReadme := concat (yields (take_calls 4 (doc_events MOCK_REPO_DATA (repoUrl (handleUseSample init_app))
          (\<lambda>i r. projr (if i < (3::nat) then Inr (Some ''ok'') else Inl (JsError ''quota exceeded'') :: js_exn + gen_response))))),
       error := Some ''Failed to generate documentation. quota exceeded''\<rparr>"
  using handleGenerate_failure [of "handleUseSample init_app" 3
      "\<lambda>i r. if i < 3 then Inr (Some ''ok'') else Inl (JsError ''quota exceeded'')" "JsError ''quota exceeded''"]
    sample_url_valid
  by (simp add: handleUseSample_def numeral_eq_Suc)

text \<open>C11: A URL outside the regular expression's language starts no run: handleGenerate only sets the error, to Please enter a GitHub repository URL. for an empty URL and to the format message otherwise, and leaves the displayed README and loading state as they were.\<close>

theorem handleGenerate_rejects:
  "\<not> github_url_re (repoUrl s) \<Longrightarrow>
   handleGenerate cl s =
     s\<lparr>error := Some (if repoUrl s = [] then ''Please enter a GitHub repository URL.''
                     else ''Invalid GitHub repository URL. Format should be: https://github.com/user/repo'')\<rparr>"
  by (simp add: handleGenerate_def validate_def is_github_url_iff_re)

theorem handleGenerate_rejects_witness:
  "\<not> github_url_re (repoUrl init_app) \<and>
   handleGenerate (\<lambda>i r. Inr None) init_app = init_app\<lparr>error := Some ''Please enter a GitHub repository URL.''\<rparr>"
proof -
  have "\<not> github_url_re (repoUrl init_app)" by (simp add: init_app_def github_url_re_def)
  with handleGenerate_rejects [of init_app "\<lambda>i r. Inr None"] show ?thesis by (simp add: init_app_def)
qed

lemma app_inv_init: "app_inv init_machine"
  by (simp add: app_inv_def init_machine_def init_app_def)

lemma app_step_inv: "app_step m m' \<Longrightarrow> app_inv m \<Longrightarrow> app_inv m'"
proof (induction rule: app_step.induct)
  case (progress m rs e es c s)
  then show ?case
    by (cases e) (auto simp: app_inv_def)
qed (auto simp: app_inv_def start_run_def finish_run_def handleUseSample_def Let_def
          split: option.splits sum.splits)

lemma app_inv_reachable: "app_step\<^sup>*\<^sup>* init_machine m \<Longrightarrow> app_inv m"
  by (induction rule: rtranclp_induct) (auto intro: app_inv_init app_step_inv)

text \<open>An in-flight run that has consumed the events \<open>es1\<close> of its pending
  trace reaches the state \<open>consume\<close> computes for them.\<close>

lemma run_prefix:
  "running m = Some rs \<Longrightarrow> pending rs = es1 @ es2 \<Longrightarrow>
   app_step\<^sup>*\<^sup>* m \<lparr>ui = snd (consume es1 (readmeContent rs, ui m)),
     running = Some \<lparr>pending = es2, outcome = outcome rs,
                     readmeContent = fst (consume es1 (readmeContent rs, ui m))\<rparr>\<rparr>"
proof (induction es1 arbitrary: m rs)
  case Nil
  then show ?case by (cases m, cases rs) (simp add: consume_def)
next
  case (Cons e es1)
  obtain c s where ev: "apply_event e (readmeContent rs, ui m) = (c, s)" by fastforce
  let ?rs' = "\<lparr>pending = es1 @ es2, outcome = outcome rs, readmeContent = c\<rparr>"
  have step: "app_step m \<lparr>ui = s, running = Some ?rs'\<rparr>"
    using Cons.prems ev by (intro app_step.progress) simp_all
  moreover have "app_step\<^sup>*\<^sup>* \<lparr>ui = s, running = Some ?rs'\<rparr>
      \<lparr>ui = snd (consume es1 (c, s)),
       running = Some \<lparr>pending = es2, outcome = outcome rs, readmeContent = fst (consume es1 (c, s))\<rparr>\<rparr>"
    using Cons.IH [of "\<lparr>ui = s, running = Some ?rs'\<rparr>" ?rs'] by simp
  moreover have "consume (e # es1) (readmeContent rs, ui m) = consume es1 (c, s)"
    using ev by (simp add: consume_def)
  ultimately show ?case by (simp add: converse_rtranclp_into_rtranclp)
qed

text \<open>C10: In every state the page can reach, the loading flag is set exactly while a run is in flight; while it is, no error is shown and the displayed README is what the run has yielded so far; when no run is in flight, no status message is shown.\<close>

theorem reachable_app_inv: "app_step\<^sup>*\<^sup>* init_machine m \<Longrightarrow> app_inv m"
  by (rule app_inv_reachable)


theorem reachable_app_inv_witness:
  "app_step\<^sup>*\<^sup>* init_machine (init_machine\<lparr>ui := (ui init_machine)\<lparr>repoUrl := ''https://github.com/acme/widget-api''\<rparr>\<rparr>) \<and>
   app_inv (init_machine\<lparr>ui := (ui init_machine)\<lparr>repoUrl := ''https://github.com/acme/widget-api''\<rparr>\<rparr>)"
proof -
  have "app_step init_machine (init_machine\<lparr>ui := (ui init_machine)\<lparr>repoUrl := ''https://github.com/acme/widget-api''\<rparr>\<rparr>)"
    by (rule app_step.edit) (simp add: init_machine_def init_app_def)
  then have r: "app_step\<^sup>*\<^sup>* init_machine (init_machine\<lparr>ui := (ui init_machine)\<lparr>repoUrl := ''https://github.com/acme/widget-api''\<rparr>\<rparr>)"
    by (rule r_into_rtranclp)
  with reachable_app_inv [OF r] show ?thesis by blast
qed

lemma run_completes:
  "running m = Some rs \<Longrightarrow>
   app_step\<^sup>*\<^sup>* m \<lparr>ui = finish_run (outcome rs) (snd (consume (pending rs) (readmeContent rs, ui m))),
                  running = None\<rparr>"
proof (induction "pending rs" arbitrary: m rs)
  case Nil
  then have "app_step m \<lparr>ui = finish_run (outcome rs) (ui m), running = None\<rparr>"
    by (intro app_step.finish) simp_all
  with Nil show ?case by (simp add: consume_def)
next
  case (Cons e es)
  obtain c s where ev: "apply_event e (readmeContent rs, ui m) = (c, s)" by fastforce
  let ?rs' = "\<lparr>pending = es, outcome = outcome rs, readmeContent = c\<rparr>"
  let ?m' = "\<lparr>ui = s, running = Some ?rs'\<rparr>"
  have step: "app_step m ?m'"
    using Cons.prems Cons.hyps(2) ev by (intro app_step.progress) simp_all
  have "app_step\<^sup>*\<^sup>* ?m' \<lparr>ui = finish_run (outcome ?rs') (snd (consume (pending ?rs') (readmeContent ?rs', ui ?m'))),
                        running = None\<rparr>"
    by (rule Cons.hyps(1)) (simp_all add: Cons.hyps(2))
  moreover have "consume (pending rs) (readmeContent rs, ui m) = consume es (c, s)"
    using Cons.hyps(2) [symmetric] ev by (simp add: consume_def)
  ultimately show ?case using step by (simp add: converse_rtranclp_into_rtranclp)
qed

text \<open>C15: Liveness and refinement of the page: from any idle state with a valid URL, a submission followed by the in-flight run's steps reaches an idle state whose fields are exactly those handleGenerate computes, for every client.\<close>

theorem app_run_completes:
  assumes "\<not> isLoading (ui m)" and "is_github_url (repoUrl (ui m))"
  shows "app_step\<^sup>*\<^sup>* m \<lparr>ui = handleGenerate cl (ui m), running = None\<rparr>"
proof -
  obtain r es where run: "generateDocumentation (repoUrl (ui m)) cl 0 = (r, es)" by fastforce
  let ?m1 = "\<lparr>ui = start_run (ui m), running = Some \<lparr>pending = es, outcome = r, readmeContent = []\<rparr>\<rparr>"
  from assms run have "app_step m ?m1"
    by (intro app_step.start) (simp_all add: validate_None_iff)
  moreover have "app_step\<^sup>*\<^sup>* ?m1 \<lparr>ui = finish_run r (snd (consume es ([], start_run (ui m)))), running = None\<rparr>"
    using run_completes [of ?m1] by simp
  moreover have "finish_run r (snd (consume es ([], start_run (ui m)))) = handleGenerate cl (ui m)"
  proof -
    from assms(2) have "validate (repoUrl (ui m)) = None" by (simp add: validate_None_iff)
    with run show ?thesis by (simp add: handleGenerate_def)
  qed
  ultimately show ?thesis by (simp add: converse_rtranclp_into_rtranclp)
qed

theorem app_run_completes_witness:
  "\<not> isLoading (ui \<lparr>ui = handleUseSample init_app, running = None\<rparr>) \<and>
   is_github_url (repoUrl (ui \<lparr>ui = handleUseSample init_app, running = None\<rparr>)) \<and>
   app_step\<^sup>*\<^sup>* \<lparr>ui = handleUseSample init_app, running = None\<rparr>
     \<lparr>ui = handleGenerate (\<lambda>i r. Inr (Some ''ok'')) (handleUseSample init_app), running = None\<rparr>"
proof -
  have h1: "\<not> isLoading (ui \<lparr>ui = handleUseSample init_app, running = None\<rparr>)"
    by (simp add: handleUseSample_def init_app_def)
  have h2: "is_github_url (repoUrl (ui \<lparr>ui = handleUseSample init_app, running = None\<rparr>))"
    using sample_url_valid by (simp add: handleUseSample_def)
  from app_run_completes [OF h1 h2, of "\<lambda>i r. Inr (Some ''ok'')"] h1 h2 show ?thesis by simp
qed

text \<open>C25: Round trip of the title: every URL the form accepts is a scheme,
  the GitHub host, an owner, a slash and the document title the generator
  derives from it; that title is never the fallback New Project.\<close>

theorem accepted_url_title_roundtrip:
  "is_github_url u \<Longrightarrow>
   repo_name u \<noteq> ''New Project'' \<and>
   (\<exists>sch own. sch \<in> {''https'', ''http''} \<and> u = sch @ ''://github.com/'' @ own @ ''/'' @ repo_name u)"
proof -
  assume "is_github_url u"
  then obtain rest own rep where
      pre: "u = ''https://github.com/'' @ rest \<or> u = ''http://github.com/'' @ rest"
      and r: "rest = own @ ''/'' @ rep" and P: "rep \<noteq> []" "\<forall>c \<in> set rep. repo_char c"
    unfolding is_github_url_split url_path_ok_iff by blast
  from P have nosl: "CHR ''/'' \<notin> set rep" by auto
  obtain sch where sch: "sch \<in> {''https'', ''http''}" and u: "u = (sch @ ''://github.com/'' @ own) @ ''/'' @ rep"
  proof (rule disjE [OF pre])
    assume "u = ''https://github.com/'' @ rest"
    with r show thesis by (intro that [of "''https''"]) simp_all
  next
    assume "u = ''http://github.com/'' @ rest"
    with r show thesis by (intro that [of "''http''"]) simp_all
  qed
  have t: "repo_name u = rep" unfolding u by (rule repo_name_path [OF nosl P(1)])
  have "CHR '' '' \<notin> set rep" using P(2) by (auto simp: repo_char_def word_char_def)
  moreover have "CHR '' '' \<in> set ''New Project''" by simp
  ultimately have "rep \<noteq> ''New Project''" by metis
  with t sch u show ?thesis by (metis append.assoc)
qed

theorem accepted_url_title_roundtrip_witness:
  "is_github_url ''https://github.com/reactjs/reactjs.org'' \<and>
   repo_name ''https://github.com/reactjs/reactjs.org'' \<noteq> ''New Project'' \<and>
   (\<exists>sch own. sch \<in> {''https'', ''http''} \<and>
      ''https://github.com/reactjs/reactjs.org'' = sch @ ''://github.com/'' @ own @ ''/'' @ repo_name ''https://github.com/reactjs/reactjs.org'')"
  using accepted_url_title_roundtrip [OF sample_url_valid] sample_url_valid by blast

end
