(* ===== verification/View.thy ===== *)
theory View
  imports App
begin

text \<open>
  What the page renders, and the copy button of the README panel.  The JSX of
  \<open>src/App.tsx\<close> shows an error banner when \<open>error\<close> is truthy, the
  \<open>LoadingIndicator\<close> (\<open>src/components/LoadingIndicator.tsx\<close>) with the status
  while \<open>isLoading\<close>, and the \<open>ReadmeDisplay\<close> only when the README is
  non-empty and nothing is loading.  \<open>ReadmeDisplay\<close>
  (\<open>src/components/ReadmeDisplay.tsx\<close>) keeps its own state: the rendered HTML,
  refreshed by an effect whenever its \<open>readmeContent\<close> prop changes, and the
  \<open>isCopied\<close> flag of the copy button, set when an asynchronous clipboard
  write succeeds and reset by a 2000 ms timer.  The Markdown renderer
  (Remarkable) is a parameter \<open>render\<close>; the clipboard is one string.
\<close>

section \<open>The rendered page\<close>

datatype panel = ErrorBanner string | LoadingIndicator string | ReadmeDisplay string

text \<open>\<open>{error && ...}\<close>, \<open>{isLoading && <LoadingIndicator message={loadingMessage}/>}\<close>
  and \<open>{generatedReadme && !isLoading && <ReadmeDisplay .../>}\<close>, in page order;
  the empty string is falsy.\<close>

definition app_view :: "app_state \<Rightarrow> panel list" where
  "app_view s =
     (case error s of Some e \<Rightarrow> if e \<noteq> [] then [ErrorBanner e] else [] | None \<Rightarrow> [])
     @ (if isLoading s then [LoadingIndicator (loadingMessage s)] else [])
     @ (if generatedReadme s \<noteq> [] \<and> \<not> isLoading s then [ReadmeDisplay (generatedReadme s)] else [])"

section \<open>The copy button\<close>

text \<open>The state of one mounted \<open>ReadmeDisplay\<close>: its prop, its two
  \<open>useState\<close> hooks, the clipboard writes in flight (each with the text its
  handler captured), the pending reset timers, and the system clipboard.\<close>

record display_state =
  content :: string
  renderedHtml :: string
  isCopied :: bool
  writes :: "string list"
  timers :: nat
  clipboard :: string

definition drop_at :: "nat \<Rightarrow> 'a list \<Rightarrow> 'a list" where
  "drop_at i xs = take i xs @ drop (Suc i) xs"

text \<open>Mounting: \<open>isCopied\<close> starts false and the mount effect renders the prop.\<close>

definition mount_display :: "(string \<Rightarrow> string) \<Rightarrow> string \<Rightarrow> string \<Rightarrow> display_state" where
  "mount_display render c clip =
     \<lparr>content = c, renderedHtml = render c, isCopied = False, writes = [], timers = 0,
      clipboard = clip\<rparr>"

text \<open>The steps: a new prop with its effect \<open>setRenderedHtml(md.render(readmeContent))\<close>;
  a click on the button, enabled while \<open>!isCopied\<close>, which starts
  \<open>navigator.clipboard.writeText(readmeContent)\<close>; a write in flight that
  resolves (\<open>setIsCopied(true)\<close> and \<open>setTimeout(() => setIsCopied(false), 2000)\<close>)
  or rejects (\<open>console.error\<close> only), in any order; a timer that fires.\<close>

inductive display_step :: "(string \<Rightarrow> string) \<Rightarrow> display_state \<Rightarrow> display_state \<Rightarrow> bool"
  for render :: "string \<Rightarrow> string" where
  new_content: "display_step render d (d\<lparr>content := c, renderedHtml := render c\<rparr>)"
| click: "\<not> isCopied d \<Longrightarrow> display_step render d (d\<lparr>writes := writes d @ [content d]\<rparr>)"
| write_ok: "i < length (writes d) \<Longrightarrow>
    display_step render d (d\<lparr>isCopied := True, writes := drop_at i (writes d), timers := Suc (timers d),
                             clipboard := writes d ! i\<rparr>)"
| write_fail: "i < length (writes d) \<Longrightarrow> display_step render d (d\<lparr>writes := drop_at i (writes d)\<rparr>)"
| timeout: "timers d = Suc t \<Longrightarrow> display_step render d (d\<lparr>isCopied := False, timers := t\<rparr>)"

text \<open>The display's invariant: the HTML is the rendering of the prop, and a
  shown \<open>Copied!\<close> badge has a reset pending.\<close>

definition display_inv :: "(string \<Rightarrow> string) \<Rightarrow> display_state \<Rightarrow> bool" where
  "display_inv render d \<longleftrightarrow> renderedHtml d = render (content d) \<and> (isCopied d \<longrightarrow> 0 < timers d)"

text \<open>A page in the middle of a run: the sample URL taken, submitted with a
  client that answers every call, and the first two events of the run (the
  START status and the title) consumed.\<close>

definition sample_in_flight :: machine where
  "sample_in_flight =
     (let D = doc_events MOCK_REPO_DATA ''https://github.com/reactjs/reactjs.org'' (\<lambda>i r. Some ''ok'');
          s0 = start_run (handleUseSample init_app)
      in \<lparr>ui = snd (consume (take 2 D) ([], s0)),
          running = Some \<lparr>pending = drop 2 D, outcome = Inr (),
                          readmeContent = fst (consume (take 2 D) ([], s0))\<rparr>\<rparr>)"

section \<open>Properties\<close>

lemma title_md_not_Nil [simp]: "title_md u \<noteq> []"
  by (simp add: title_md_def)

lemma sample_title: "repo_name ''https://github.com/reactjs/reactjs.org'' = ''reactjs.org''"
  by code_simp

lemma sample_in_flight_reachable: "app_step\<^sup>*\<^sup>* init_machine sample_in_flight"
proof -
  let ?u = "''https://github.com/reactjs/reactjs.org''"
  let ?cl = "\<lambda>(i::nat) (r::gen_request). Inr (Some ''ok'') :: js_exn + gen_response"
  let ?D = "doc_events MOCK_REPO_DATA ?u (\<lambda>i r. Some ''ok'')"
  let ?m1 = "init_machine\<lparr>ui := handleUseSample (ui init_machine)\<rparr>"
  let ?s0 = "start_run (handleUseSample init_app)"
  let ?m2 = "\<lparr>ui = ?s0, running = Some \<lparr>pending = ?D, outcome = Inr (), readmeContent = []\<rparr>\<rparr>"
  have s1: "app_step init_machine ?m1"
    by (rule app_step.use_sample) (simp add: init_machine_def init_app_def)
  have run: "generateDocumentation ?u ?cl 0 = (Inr (), ?D)"
    unfolding generateDocumentation_def by (rule generate_from_ok_trace) simp
  have v: "validate ?u = None"
    using sample_url_valid by (simp only: validate_None_iff)
  have s2: "app_step ?m1 ?m2"
    using app_step.start [of ?m1 ?cl "Inr ()" ?D] run v
    by (simp add: init_machine_def init_app_def handleUseSample_def)
  have s3: "app_step\<^sup>*\<^sup>* ?m2 sample_in_flight"
    using run_prefix [of ?m2 "\<lparr>pending = ?D, outcome = Inr (), readmeContent = []\<rparr>" "take 2 ?D" "drop 2 ?D"]
    by (simp add: sample_in_flight_def Let_def)
  show ?thesis
    using s1 s2 s3 by (meson converse_rtranclp_into_rtranclp)
qed

lemma sample_in_flight_running: "running sample_in_flight \<noteq> None"
  by (simp add: sample_in_flight_def Let_def)

lemma sample_in_flight_ui:
  "ui sample_in_flight =
     (start_run (handleUseSample init_app))\<lparr>loadingMessage := START LOADING_MESSAGES,
        generatedReadme := title_md ''https://github.com/reactjs/reactjs.org''\<rparr>"
proof -
  obtain rest where D: "doc_events MOCK_REPO_DATA ''https://github.com/reactjs/reactjs.org'' (\<lambda>i r. Some ''ok'') =
      Status (START LOADING_MESSAGES) # Yield (title_md ''https://github.com/reactjs/reactjs.org'') # rest"
    using doc_events_start by blast
  show ?thesis by (simp add: sample_in_flight_def Let_def D consume_state last_status_def)
qed

text \<open>C17: When the URL is valid and the k-th call is the first to throw, the
  page after the run shows the error banner with the failure's message and,
  below it, the README fragments yielded before the failure, which always
  begin with the document title.\<close>

theorem failed_run_view:
  assumes "is_github_url (repoUrl s)" and "\<forall>i<k. \<forall>r. \<not> isl (cl i r)"
    and "\<forall>r. cl k r = Inl e" and "k < 6"
  shows "app_view (handleGenerate cl s) =
           [ErrorBanner (''Failed to generate documentation. '' @ exn_message e),
            ReadmeDisplay (concat (yields (take_calls (Suc k)
              (doc_events MOCK_REPO_DATA (repoUrl s) (\<lambda>i r. projr (cl i r))))))] \<and>
         prefix (title_md (repoUrl s))
           (concat (yields (take_calls (Suc k) (doc_events MOCK_REPO_DATA (repoUrl s) (\<lambda>i r. projr (cl i r))))))"
proof -
  let ?D = "doc_events MOCK_REPO_DATA (repoUrl s) (\<lambda>i r. projr (cl i r))"
  have "generateDocumentation (repoUrl s) cl 0 = (Inl e, take_calls (Suc k) ?D)"
    unfolding generateDocumentation_def
    by (rule generate_from_fail_trace) (use assms(2-4) in simp_all)
  with assms(1) have h: "handleGenerate cl s =
      s\<lparr>isLoading := False, loadingMessage := [], generatedReadme := concat (yields (take_calls (Suc k) ?D)),
        error := Some (''Failed to generate documentation. '' @ exn_message e)\<rparr>"
    by (simp add: handleGenerate_started validate_None_iff)
  obtain rest where D: "?D = Status (START LOADING_MESSAGES) # Yield (title_md (repoUrl s)) # rest"
    using doc_events_start by blast
  have "concat (yields (take_calls (Suc k) ?D)) = title_md (repoUrl s) @ concat (yields (take_calls (Suc k) rest))"
    by (simp add: D)
  then show ?thesis by (simp add: h app_view_def)
qed

theorem failed_run_view_witness:
  "(let cl = (\<lambda>i r. if i < (3::nat) then Inr (Some ''ok'') else Inl (JsError ''quota exceeded''));
        D = doc_events MOCK_REPO_DATA (repoUrl (handleUseSample init_app)) (\<lambda>i r. projr (cl i r))
    in app_view (handleGenerate cl (handleUseSample init_app)) =
         [ErrorBanner ''Failed to generate documentation. quota exceeded'',
          ReadmeDisplay (concat (yields (take_calls 4 D)))] \<and>
       prefix ''# reactjs.org\<newline>\<newline>'' (concat (yields (take_calls 4 D))))"
  using failed_run_view [of "handleUseSample init_app" 3
      "\<lambda>i r. if i < (3::nat) then Inr (Some ''ok'') else Inl (JsError ''quota exceeded'')"
      "JsError ''quota exceeded''"] sample_url_valid
  by (simp add: handleUseSample_def numeral_eq_Suc title_md_def sample_title Let_def)

lemma display_inv_mount: "display_inv render (mount_display render c clip)"
  by (simp add: display_inv_def mount_display_def)

lemma display_step_inv: "display_step render d d' \<Longrightarrow> display_inv render d \<Longrightarrow> display_inv render d'"
  by (induction rule: display_step.induct) (auto simp: display_inv_def)

lemma display_inv_reachable:
  "(display_step render)\<^sup>*\<^sup>* (mount_display render c clip) d \<Longrightarrow> display_inv render d"
  by (induction rule: rtranclp_induct) (auto intro: display_inv_mount display_step_inv)

text \<open>Firing the pending timers one after another clears the badge.\<close>

lemma timers_fire:
  "timers d = n \<Longrightarrow> (display_step render)\<^sup>*\<^sup>* d (d\<lparr>isCopied := isCopied d \<and> n = 0, timers := 0\<rparr>)"
proof (induction n arbitrary: d)
  case 0
  then show ?case by (cases d) simp
next
  case (Suc n)
  then have "display_step render d (d\<lparr>isCopied := False, timers := n\<rparr>)"
    by (intro display_step.timeout) simp
  moreover have "(display_step render)\<^sup>*\<^sup>* (d\<lparr>isCopied := False, timers := n\<rparr>)
      ((d\<lparr>isCopied := False, timers := n\<rparr>)\<lparr>isCopied := False \<and> n = 0, timers := 0\<rparr>)"
    using Suc.IH [of "d\<lparr>isCopied := False, timers := n\<rparr>"] by simp
  ultimately show ?case by (simp add: converse_rtranclp_into_rtranclp)
qed

text \<open>C19: From every state of a mounted README panel, the pending timers can
  fire and bring the panel to a state where the button is enabled again
  (Copied! cleared) with no timer pending and the clipboard, prop and HTML
  unchanged.\<close>

theorem copied_badge_clears:
  "(display_step render)\<^sup>*\<^sup>* (mount_display render c clip) d \<Longrightarrow>
   (display_step render)\<^sup>*\<^sup>* d (d\<lparr>isCopied := False, timers := 0\<rparr>)"
proof -
  assume r: "(display_step render)\<^sup>*\<^sup>* (mount_display render c clip) d"
  have "(display_step render)\<^sup>*\<^sup>* d (d\<lparr>isCopied := isCopied d \<and> timers d = 0, timers := 0\<rparr>)"
    by (rule timers_fire) simp
  moreover have "\<not> (isCopied d \<and> timers d = 0)"
    using display_inv_reachable [OF r] by (auto simp: display_inv_def)
  ultimately show ?thesis by simp
qed

lemma copy_once:
  "(display_step render)\<^sup>*\<^sup>* (mount_display render c clip)
     \<lparr>content = c, renderedHtml = render c, isCopied = True, writes = [], timers = 1, clipboard = c\<rparr>"
proof -
  have "display_step render (mount_display render c clip)
      \<lparr>content = c, renderedHtml = render c, isCopied = False, writes = [c], timers = 0, clipboard = clip\<rparr>"
    using display_step.click [of "mount_display render c clip" render] by (simp add: mount_display_def)
  moreover have "display_step render
      \<lparr>content = c, renderedHtml = render c, isCopied = False, writes = [c], timers = 0, clipboard = clip\<rparr>
      \<lparr>content = c, renderedHtml = render c, isCopied = True, writes = [], timers = 1, clipboard = c\<rparr>"
    using display_step.write_ok [of 0 "\<lparr>content = c, renderedHtml = render c, isCopied = False, writes = [c],
        timers = 0, clipboard = clip\<rparr>" render] by (simp add: drop_at_def)
  ultimately show ?thesis by (meson converse_rtranclp_into_rtranclp r_into_rtranclp)
qed

theorem copied_badge_clears_witness:
  "(display_step id)\<^sup>*\<^sup>* (mount_display id ''# x'' [])
     \<lparr>content = ''# x'', renderedHtml = ''# x'', isCopied = True, writes = [], timers = 1, clipboard = ''# x''\<rparr> \<and>
   (display_step id)\<^sup>*\<^sup>*
     \<lparr>content = ''# x'', renderedHtml = ''# x'', isCopied = True, writes = [], timers = 1, clipboard = ''# x''\<rparr>
     \<lparr>content = ''# x'', renderedHtml = ''# x'', isCopied = False, writes = [], timers = 0, clipboard = ''# x''\<rparr>"
  using copied_badge_clears [OF copy_once [of id "''# x''" "[]"]] copy_once [of id "''# x''" "[]"]
  by simp

text \<open>C21: Two clicks before the first clipboard write resolves start two
  writes (the button is disabled only once a write has succeeded); when both
  succeed, the first timer clears the Copied! badge while the second timer is
  still pending, so the badge of the second copy is cleared early.\<close>

theorem double_copy_race:
  "(display_step render)\<^sup>*\<^sup>* (mount_display render c clip)
     \<lparr>content = c, renderedHtml = render c, isCopied = False, writes = [], timers = 1, clipboard = c\<rparr>"
proof -
  let ?d = "\<lambda>b ws t cl. \<lparr>content = c, renderedHtml = render c, isCopied = b, writes = ws, timers = t, clipboard = cl\<rparr>"
  have 1: "display_step render (mount_display render c clip) (?d False [c] 0 clip)"
    using display_step.click [of "mount_display render c clip" render] by (simp add: mount_display_def)
  have 2: "display_step render (?d False [c] 0 clip) (?d False [c, c] 0 clip)"
    using display_step.click [of "?d False [c] 0 clip" render] by simp
  have 3: "display_step render (?d False [c, c] 0 clip) (?d True [c] 1 c)"
    using display_step.write_ok [of 0 "?d False [c, c] 0 clip" render] by (simp add: drop_at_def)
  have 4: "display_step render (?d True [c] 1 c) (?d True [] 2 c)"
    using display_step.write_ok [of 0 "?d True [c] 1 c" render] by (simp add: drop_at_def numeral_eq_Suc)
  have 5: "display_step render (?d True [] 2 c) (?d False [] 1 c)"
    using display_step.timeout [of "?d True [] 2 c" 1 render] by (simp add: numeral_eq_Suc)
  from 1 2 3 4 5 show ?thesis
    by (meson converse_rtranclp_into_rtranclp r_into_rtranclp)
qed

end
