(* ===== verification/Page.thy ===== *)
theory Page
  imports View
begin

text \<open>
  What the page shows, element by element: the JSX of \<open>src/App.tsx\<close> and of
  the components it renders, \<open>Header\<close>, \<open>RepoInput\<close>, \<open>LoadingIndicator\<close> and
  \<open>ReadmeDisplay\<close>, as a list of elements with their visible text and, for
  controls, whether they are disabled.  Class names, icons' drawings and layout
  are not modelled; the Markdown renderer is the parameter \<open>render\<close>, and the
  mounted \<open>ReadmeDisplay\<close>'s own state is a \<open>display_state\<close> of \<open>View\<close>.
\<close>

section \<open>Elements\<close>

datatype element =
    Logo
  | Brand string
  | Heading nat string
  | Para string
  | TextInput string string bool
  | Button string bool
  | Spinner
  | Banner string
  | Html string
  | Link string string

section \<open>Components\<close>

text \<open>\<open>Header\<close>: the logo and the product name.\<close>

definition header_view :: "element list" where
  "header_view = [Logo, Brand ''RepoScripter'']"

text \<open>\<open>RepoInput\<close>: the URL field (\<open>value={repoUrl}\<close>, its placeholder,
  \<open>disabled={isLoading}\<close>), the submit button, labelled by the loading state,
  and the sample button, both \<open>disabled={isLoading}\<close>.\<close>

definition repo_input_view :: "string \<Rightarrow> bool \<Rightarrow> element list" where
  "repo_input_view url loading =
     [TextInput url ''https://github.com/username/repository'' loading,
      Button (if loading then ''Generating...'' else ''Generate Documentation'') loading,
      Button ''Use Sample'' loading]"

text \<open>\<open>LoadingIndicator\<close>: a spinner and the message.\<close>

definition loading_indicator_view :: "string \<Rightarrow> element list" where
  "loading_indicator_view message = [Spinner, Para message]"

text \<open>\<open>ReadmeDisplay\<close>: the title, the copy button (\<open>disabled={isCopied}\<close>,
  labelled \<open>Copied!\<close> or \<open>Copy Markdown\<close>) and the rendered HTML.\<close>

definition readme_display_view :: "display_state \<Rightarrow> element list" where
  "readme_display_view d =
     [Heading 3 ''Generated README.md'',
      Button (if isCopied d then ''Copied!'' else ''Copy Markdown'') (isCopied d),
      Html (renderedHtml d)]"

definition panel_view :: "display_state \<Rightarrow> panel \<Rightarrow> element list" where
  "panel_view d p =
     (case p of
        ErrorBanner e \<Rightarrow> [Banner e]
      | LoadingIndicator m \<Rightarrow> loading_indicator_view m
      | ReadmeDisplay c \<Rightarrow> readme_display_view d)"

text \<open>The page of \<open>App\<close>: header, title and tagline, the form, the panels of
  \<^const>\<open>app_view\<close> (the README panel with the state \<open>d\<close> of its component),
  and the footer.\<close>

definition page_view :: "display_state \<Rightarrow> app_state \<Rightarrow> element list" where
  "page_view d s =
     header_view @
     [Heading 1 ''Generate Your README in Seconds'',
      Para ''RepoScripter uses AI to analyze your codebase and autonomously generate comprehensive, high-quality documentation.''] @
     repo_input_view (repoUrl s) (isLoading s) @
     concat (map (panel_view d) (app_view s)) @
     [Para ''Built with React, TypeScript, and the Gemini API.'',
      Link ''https://github.com/google/genai-js'' ''View on GitHub'']"

section \<open>Properties\<close>

lemma display_step_click_only:
  "display_step render d (d\<lparr>writes := writes d @ [content d]\<rparr>) \<Longrightarrow> \<not> isCopied d"
  by (cases rule: display_step.cases)
     (auto simp: drop_at_def dest!: arg_cong [where f = "\<lambda>d. length (writes d)"])

text \<open>C26: In every state of a mounted README panel, the panel shows its title,
  a copy button that reads Copied! and is disabled exactly when the machine
  cannot take a click, and the Markdown rendering of the current README; and
  whenever the button shows Copied! a reset timer is pending.\<close>

theorem readme_display_shows:
  "(display_step render)\<^sup>*\<^sup>* (mount_display render c clip) d \<Longrightarrow>
   readme_display_view d =
     [Heading 3 ''Generated README.md'',
      Button (if isCopied d then ''Copied!'' else ''Copy Markdown'') (isCopied d),
      Html (render (content d))] \<and>
   (\<not> isCopied d \<longleftrightarrow> display_step render d (d\<lparr>writes := writes d @ [content d]\<rparr>)) \<and>
   (isCopied d \<longrightarrow> 0 < timers d)"
  using display_inv_reachable [of render c clip d]
  by (auto simp: readme_display_view_def display_inv_def dest: display_step_click_only
           intro: display_step.click)


theorem readme_display_shows_witness:
  "(display_step (\<lambda>s. ''<p>'' @ s @ ''</p>''))\<^sup>*\<^sup>* (mount_display (\<lambda>s. ''<p>'' @ s @ ''</p>'') ''# x'' [])
     \<lparr>content = ''# x'', renderedHtml = ''<p># x</p>'', isCopied = True, writes = [], timers = 1, clipboard = ''# x''\<rparr> \<and>
   readme_display_view
     \<lparr>content = ''# x'', renderedHtml = ''<p># x</p>'', isCopied = True, writes = [], timers = 1, clipboard = ''# x''\<rparr> =
     [Heading 3 ''Generated README.md'', Button ''Copied!'' True, Html ''<p># x</p>'']"
  using readme_display_shows [OF copy_once [of "\<lambda>s. ''<p>'' @ s @ ''</p>''" "''# x''" "[]"]]
    copy_once [of "\<lambda>s. ''<p>'' @ s @ ''</p>''" "''# x''" "[]"]
  by simp

text \<open>C27: In every state the page can reach with a run in flight, the whole
  page is the header, the title and tagline, the form with its field and both
  buttons disabled and the submit button reading Generating..., the spinner
  with the current status message, and the footer: no error and no README.\<close>

theorem in_flight_page:
  "app_step\<^sup>*\<^sup>* init_machine m \<Longrightarrow> running m \<noteq> None \<Longrightarrow>
   page_view d (ui m) =
     [Logo, Brand ''RepoScripter'', Heading 1 ''Generate Your README in Seconds'',
      Para ''RepoScripter uses AI to analyze your codebase and autonomously generate comprehensive, high-quality documentation.'',
      TextInput (repoUrl (ui m)) ''https://github.com/username/repository'' True,
      Button ''Generating...'' True, Button ''Use Sample'' True,
      Spinner, Para (loadingMessage (ui m)),
      Para ''Built with React, TypeScript, and the Gemini API.'',
      Link ''https://github.com/google/genai-js'' ''View on GitHub'']"
  using app_inv_reachable [of m]
  by (auto simp: app_inv_def app_view_def page_view_def header_view_def repo_input_view_def
                 panel_view_def loading_indicator_view_def)

theorem in_flight_page_witness:
  "app_step\<^sup>*\<^sup>* init_machine sample_in_flight \<and> running sample_in_flight \<noteq> None \<and>
   page_view (mount_display id [] []) (ui sample_in_flight) =
     [Logo, Brand ''RepoScripter'', Heading 1 ''Generate Your README in Seconds'',
      Para ''RepoScripter uses AI to analyze your codebase and autonomously generate comprehensive, high-quality documentation.'',
      TextInput ''https://github.com/reactjs/reactjs.org'' ''https://github.com/username/repository'' True,
      Button ''Generating...'' True, Button ''Use Sample'' True,
      Spinner, Para (START LOADING_MESSAGES),
      Para ''Built with React, TypeScript, and the Gemini API.'',
      Link ''https://github.com/google/genai-js'' ''View on GitHub'']"
  using in_flight_page [OF sample_in_flight_reachable sample_in_flight_running, of "mount_display id [] []"]
    sample_in_flight_reachable sample_in_flight_running
  by (simp add: sample_in_flight_ui start_run_def handleUseSample_def init_app_def)

end
