(* ===== verification/Screen.thy ===== *)
theory Screen
  imports Page
begin

text \<open>
  The page and its README panel together.  \<open>App\<close> renders
  \<open><ReadmeDisplay readmeContent={generatedReadme}/>\<close> only while
  \<open>generatedReadme && !isLoading\<close> holds (\<open>src/App.tsx\<close>), so React mounts the
  panel (fresh \<open>useState\<close> hooks, mount effect) when that becomes true, passes
  it the new README as a prop while it stays true (the \<open>useEffect\<close> on
  \<open>readmeContent\<close> re-renders it), and unmounts it, discarding its state, when
  it becomes false.  A timer of an unmounted panel fires into nothing
  (\<open>setIsCopied\<close> on an unmounted component is ignored); a clipboard write it
  started is a browser promise and still lands in the system clipboard.

  The composition is stated over any page machine: a type \<open>'p\<close> of page states,
  a step relation \<open>pstep\<close>, the view \<open>view\<close> of a page state as the fields of
  \<open>App\<close>, and an invariant \<open>pinv\<close>; \<open>page_machine\<close> is what the panel needs of
  the page.  \<open>screen_step\<close> interleaves the page's steps, each followed by the
  reconciliation, the mounted panel's own steps (\<^const>\<open>display_step\<close>
  without a prop change) and the orphaned writes.  The page machine
  \<^const>\<open>app_step\<close> of \<open>App\<close> is an instance here; the page driven by the
  generator loop is one in \<open>LoopScreen\<close>.
\<close>

section \<open>State and steps\<close>

record 'p screen =
  page :: 'p
  panel :: "display_state option"
  sysclip :: string
  orphan_writes :: "string list"

text \<open>\<open>{generatedReadme && !isLoading && <ReadmeDisplay .../>}\<close>.\<close>

definition readme_shown :: "app_state \<Rightarrow> bool" where
  "readme_shown s \<longleftrightarrow> generatedReadme s \<noteq> [] \<and> \<not> isLoading s"

text \<open>React's reconciliation of the panel after the page's state became \<open>m\<close>:
  mount, update the prop (and run the effect), keep, or unmount.  The system
  clipboard is handed to a mounted panel and taken back, with its writes in
  flight, when it unmounts.\<close>

definition reconcile :: "(string \<Rightarrow> string) \<Rightarrow> ('p \<Rightarrow> app_state) \<Rightarrow> 'p \<Rightarrow> 'p screen \<Rightarrow> 'p screen" where
  "reconcile render view m sc =
     (if readme_shown (view m) then
        (case panel sc of
           None \<Rightarrow> sc\<lparr>page := m, panel := Some (mount_display render (generatedReadme (view m)) (sysclip sc))\<rparr>
         | Some d \<Rightarrow>
             sc\<lparr>page := m,
                panel := Some (if content d = generatedReadme (view m) then d
                               else d\<lparr>content := generatedReadme (view m),
                                      renderedHtml := render (generatedReadme (view m))\<rparr>)\<rparr>)
      else
        (case panel sc of
           None \<Rightarrow> sc\<lparr>page := m\<rparr>
         | Some d \<Rightarrow> sc\<lparr>page := m, panel := None, sysclip := clipboard d,
                      orphan_writes := orphan_writes sc @ writes d\<rparr>))"

text \<open>An orphaned write that resolves replaces the system clipboard, which is
  the mounted panel's clipboard when there is one.\<close>

definition set_clipboard :: "string \<Rightarrow> 'p screen \<Rightarrow> 'p screen" where
  "set_clipboard w sc =
     (case panel sc of
        None \<Rightarrow> sc\<lparr>sysclip := w\<rparr>
      | Some d \<Rightarrow> sc\<lparr>panel := Some (d\<lparr>clipboard := w\<rparr>)\<rparr>)"

inductive screen_step :: "(string \<Rightarrow> string) \<Rightarrow> ('p \<Rightarrow> 'p \<Rightarrow> bool) \<Rightarrow> ('p \<Rightarrow> app_state) \<Rightarrow>
    'p screen \<Rightarrow> 'p screen \<Rightarrow> bool"
  for render :: "string \<Rightarrow> string" and pstep :: "'p \<Rightarrow> 'p \<Rightarrow> bool" and view :: "'p \<Rightarrow> app_state" where
  page_step: "pstep (page sc) m \<Longrightarrow> screen_step render pstep view sc (reconcile render view m sc)"
| panel_step: "panel sc = Some d \<Longrightarrow> display_step render d d' \<Longrightarrow> content d' = content d \<Longrightarrow>
    screen_step render pstep view sc (sc\<lparr>panel := Some d'\<rparr>)"
| orphan_ok: "i < length (orphan_writes sc) \<Longrightarrow>
    screen_step render pstep view sc
      (set_clipboard (orphan_writes sc ! i) (sc\<lparr>orphan_writes := drop_at i (orphan_writes sc)\<rparr>))"
| orphan_fail: "i < length (orphan_writes sc) \<Longrightarrow>
    screen_step render pstep view sc (sc\<lparr>orphan_writes := drop_at i (orphan_writes sc)\<rparr>)"

definition init_screen :: "'p \<Rightarrow> string \<Rightarrow> 'p screen" where
  "init_screen p0 clip = \<lparr>page = p0, panel = None, sysclip = clip, orphan_writes = []\<rparr>"

text \<open>What the panel needs of the page: its invariant is kept, and while the
  README panel stays shown the page does not change the README.\<close>

definition page_machine :: "('p \<Rightarrow> 'p \<Rightarrow> bool) \<Rightarrow> ('p \<Rightarrow> app_state) \<Rightarrow> ('p \<Rightarrow> bool) \<Rightarrow> bool" where
  "page_machine pstep view pinv \<longleftrightarrow>
     (\<forall>m m'. pstep m m' \<longrightarrow> pinv m \<longrightarrow>
        pinv m' \<and> (readme_shown (view m) \<longrightarrow> readme_shown (view m') \<longrightarrow>
                   generatedReadme (view m') = generatedReadme (view m)))"

text \<open>What the two components keep true together: the page's invariant; the
  panel is mounted exactly while the page shows it; a mounted panel's prop is
  the page's README, its own invariant holds, and every clipboard write it has
  in flight carries that README.\<close>

definition screen_inv :: "(string \<Rightarrow> string) \<Rightarrow> ('p \<Rightarrow> app_state) \<Rightarrow> ('p \<Rightarrow> bool) \<Rightarrow> 'p screen \<Rightarrow> bool" where
  "screen_inv render view pinv sc \<longleftrightarrow>
     pinv (page sc) \<and>
     (case panel sc of
        None \<Rightarrow> \<not> readme_shown (view (page sc))
      | Some d \<Rightarrow> readme_shown (view (page sc)) \<and> content d = generatedReadme (view (page sc)) \<and>
                  display_inv render d \<and> (\<forall>w \<in> set (writes d). w = content d))"

text \<open>A screen over the event-level page machine whose page has consumed
  every event of the sample run (the sample URL submitted with a client that
  answers every call) and is about to finish; the screen after that last step;
  and that screen after a click on the copy button.\<close>

definition sample_screen_consumed :: "machine screen" where
  "sample_screen_consumed =
     (let D = doc_events MOCK_REPO_DATA ''https://github.com/reactjs/reactjs.org'' (\<lambda>i r. Some ''ok'');
          s0 = start_run (handleUseSample init_app)
      in \<lparr>page = \<lparr>ui = snd (consume D ([], s0)),
                  running = Some \<lparr>pending = [], outcome = Inr (), readmeContent = fst (consume D ([], s0))\<rparr>\<rparr>,
          panel = None, sysclip = [], orphan_writes = []\<rparr>)"

definition sample_screen_done :: "(string \<Rightarrow> string) \<Rightarrow> machine screen" where
  "sample_screen_done render =
     reconcile render ui \<lparr>ui = finish_run (Inr ()) (ui (page sample_screen_consumed)), running = None\<rparr>
       sample_screen_consumed"

definition sample_screen_clicked :: "(string \<Rightarrow> string) \<Rightarrow> machine screen" where
  "sample_screen_clicked render =
     (sample_screen_done render)\<lparr>panel :=
        map_option (\<lambda>d. d\<lparr>writes := writes d @ [content d]\<rparr>) (panel (sample_screen_done render))\<rparr>"

section \<open>Properties of the composition\<close>

lemma readme_shown_view:
  "ReadmeDisplay c \<in> set (app_view s) \<longleftrightarrow> readme_shown s \<and> c = generatedReadme s"
  by (auto simp: app_view_def readme_shown_def split: option.splits)

lemma page_machineD:
  assumes "page_machine pstep view pinv" and "pstep m m'" and "pinv m"
  shows "pinv m'"
    and "readme_shown (view m) \<Longrightarrow> readme_shown (view m') \<Longrightarrow> generatedReadme (view m') = generatedReadme (view m)"
  using assms by (auto simp: page_machine_def)

lemma page_reconcile [simp]: "page (reconcile render view m sc) = m"
  by (simp add: reconcile_def split: option.splits)

lemma reconcile_page_update [simp]:
  "reconcile render view m (sc\<lparr>page := m'\<rparr>) = reconcile render view m sc"
  by (simp add: reconcile_def split: option.splits)

lemma reconcile_hidden:
  "panel sc = None \<Longrightarrow> \<not> readme_shown (view m) \<Longrightarrow> reconcile render view m sc = sc\<lparr>page := m\<rparr>"
  by (simp add: reconcile_def)

lemma reconcile_inv:
  assumes "pinv m" and "screen_inv render view pinv sc"
    and "readme_shown (view (page sc)) \<Longrightarrow> readme_shown (view m) \<Longrightarrow>
         generatedReadme (view m) = generatedReadme (view (page sc))"
  shows "screen_inv render view pinv (reconcile render view m sc)"
  using assms
  by (auto simp: reconcile_def screen_inv_def display_inv_def mount_display_def split: option.splits)

lemma set_drop_at: "x \<in> set (drop_at i xs) \<Longrightarrow> x \<in> set xs"
  by (auto simp: drop_at_def dest: in_set_takeD in_set_dropD)

lemma display_step_writes:
  "display_step render d d' \<Longrightarrow> content d' = content d \<Longrightarrow> \<forall>w \<in> set (writes d). w = content d \<Longrightarrow>
   \<forall>w \<in> set (writes d'). w = content d'"
  by (induction rule: display_step.induct) (auto dest: set_drop_at)

lemma screen_step_inv:
  assumes pm: "page_machine pstep view pinv"
  shows "screen_step render pstep view sc sc' \<Longrightarrow> screen_inv render view pinv sc \<Longrightarrow>
         screen_inv render view pinv sc'"
proof (induction rule: screen_step.induct)
  case (page_step sc m)
  have "pinv (page sc)" using page_step.prems by (simp add: screen_inv_def)
  with pm page_step.hyps show ?case
    by (intro reconcile_inv page_step.prems) (auto dest: page_machineD)
next
  case (panel_step sc d d')
  then show ?case by (auto simp: screen_inv_def intro: display_step_inv dest: display_step_writes)
next
  case (orphan_ok i sc)
  then show ?case by (auto simp: screen_inv_def set_clipboard_def display_inv_def split: option.splits)
next
  case (orphan_fail i sc)
  then show ?case by (auto simp: screen_inv_def split: option.splits)
qed

lemma screen_inv_reachable:
  assumes "page_machine pstep view pinv" and "pinv p0" and "\<not> readme_shown (view p0)"
  shows "(screen_step render pstep view)\<^sup>*\<^sup>* (init_screen p0 clip) sc \<Longrightarrow> screen_inv render view pinv sc"
proof (induction rule: rtranclp_induct)
  case base
  with assms(2,3) show ?case by (simp add: screen_inv_def init_screen_def)
next
  case (step y z)
  with screen_step_inv [OF assms(1)] show ?case by blast
qed

text \<open>The orphaned writes and the panel's own steps leave the page alone.\<close>

lemma screen_step_page:
  "screen_step render pstep view sc sc' \<Longrightarrow> page sc' \<noteq> page sc \<Longrightarrow>
   \<exists>m. pstep (page sc) m \<and> sc' = reconcile render view m sc"
  by (induction rule: screen_step.induct) (auto simp: set_clipboard_def split: option.splits)

section \<open>The event-level page machine as an instance\<close>

lemma app_page_machine: "page_machine app_step ui app_inv"
  unfolding page_machine_def
proof (intro allI impI conjI)
  fix m m' assume st: "app_step m m'" and inv: "app_inv m"
  then show "app_inv m'" by (rule app_step_inv)
  assume "readme_shown (ui m)" and "readme_shown (ui m')"
  with st inv show "generatedReadme (ui m') = generatedReadme (ui m)"
    by cases (auto simp: readme_shown_def app_inv_def start_run_def handleUseSample_def)
qed

lemma app_screen_inv_reachable:
  "(screen_step render app_step ui)\<^sup>*\<^sup>* (init_screen init_machine clip) sc \<Longrightarrow> screen_inv render ui app_inv sc"
  using screen_inv_reachable [OF app_page_machine app_inv_init]
  by (simp add: readme_shown_def init_machine_def init_app_def)

text \<open>While the loading flag stays set the panel stays unmounted, so the page's
  steps of a run are steps of the screen.\<close>

lemma screen_run_prefix:
  "panel sc = None \<Longrightarrow> running (page sc) = Some rs \<Longrightarrow> isLoading (ui (page sc)) \<Longrightarrow>
   pending rs = es1 @ es2 \<Longrightarrow>
   (screen_step render app_step ui)\<^sup>*\<^sup>* sc
     (sc\<lparr>page := \<lparr>ui = snd (consume es1 (readmeContent rs, ui (page sc))),
        running = Some \<lparr>pending = es2, outcome = outcome rs,
                        readmeContent = fst (consume es1 (readmeContent rs, ui (page sc)))\<rparr>\<rparr>\<rparr>)"
proof (induction es1 arbitrary: sc rs)
  case Nil
  then have "\<lparr>ui = ui (page sc), running = Some \<lparr>pending = es2, outcome = outcome rs,
      readmeContent = readmeContent rs\<rparr>\<rparr> = page sc"
    by (cases "page sc", cases rs) simp
  then show ?case by (simp add: consume_def)
next
  case (Cons e es1)
  obtain c s where ev: "apply_event e (readmeContent rs, ui (page sc)) = (c, s)" by fastforce
  let ?rs' = "\<lparr>pending = es1 @ es2, outcome = outcome rs, readmeContent = c\<rparr>"
  let ?m' = "\<lparr>ui = s, running = Some ?rs'\<rparr>"
  have "app_step (page sc) ?m'"
    using Cons.prems ev by (intro app_step.progress) simp_all
  moreover have "isLoading s"
    using apply_event_frame [OF ev] Cons.prems(3) by simp
  ultimately have "screen_step render app_step ui sc (sc\<lparr>page := ?m'\<rparr>)"
    using screen_step.page_step [of app_step sc ?m' render ui] reconcile_hidden [of sc ui ?m' render] Cons.prems(1)
    by (simp add: readme_shown_def)
  moreover have "(screen_step render app_step ui)\<^sup>*\<^sup>* (sc\<lparr>page := ?m'\<rparr>)
      ((sc\<lparr>page := ?m'\<rparr>)\<lparr>page := \<lparr>ui = snd (consume es1 (c, s)),
        running = Some \<lparr>pending = es2, outcome = outcome rs, readmeContent = fst (consume es1 (c, s))\<rparr>\<rparr>\<rparr>)"
    using Cons.IH [of "sc\<lparr>page := ?m'\<rparr>" ?rs'] Cons.prems(1) \<open>isLoading s\<close> by simp
  moreover have "consume (e # es1) (readmeContent rs, ui (page sc)) = consume es1 (c, s)"
    using ev by (simp add: consume_def)
  ultimately show ?case by (simp add: converse_rtranclp_into_rtranclp)
qed

lemma sample_screen_consumed_reachable:
  "(screen_step render app_step ui)\<^sup>*\<^sup>* (init_screen init_machine []) sample_screen_consumed"
proof -
  let ?u = "''https://github.com/reactjs/reactjs.org''"
  let ?cl = "\<lambda>(i::nat) (r::gen_request). Inr (Some ''ok'') :: js_exn + gen_response"
  let ?D = "doc_events MOCK_REPO_DATA ?u (\<lambda>i r. Some ''ok'')"
  let ?sc0 = "init_screen init_machine []"
  let ?m1 = "init_machine\<lparr>ui := handleUseSample (ui init_machine)\<rparr>"
  let ?rs = "\<lparr>pending = ?D, outcome = Inr (), readmeContent = []\<rparr>"
  let ?m2 = "\<lparr>ui = start_run (handleUseSample init_app), running = Some ?rs\<rparr>"
  have run: "generateDocumentation ?u ?cl 0 = (Inr (), ?D)"
    unfolding generateDocumentation_def by (rule generate_from_ok_trace) simp
  have v: "validate ?u = None"
    using sample_url_valid by (simp only: validate_None_iff)
  have a1: "app_step init_machine ?m1"
    by (rule app_step.use_sample) (simp add: init_machine_def init_app_def)
  have a2: "app_step ?m1 ?m2"
    using app_step.start [of ?m1 ?cl "Inr ()" ?D] run v
    by (simp add: init_machine_def init_app_def handleUseSample_def)
  have s1: "screen_step render app_step ui ?sc0 (?sc0\<lparr>page := ?m1\<rparr>)"
    using screen_step.page_step [of app_step ?sc0 ?m1 render ui] a1
    by (simp add: init_screen_def reconcile_def readme_shown_def init_machine_def init_app_def
                  handleUseSample_def)
  have s2: "screen_step render app_step ui (?sc0\<lparr>page := ?m1\<rparr>) (?sc0\<lparr>page := ?m2\<rparr>)"
    using screen_step.page_step [of app_step "?sc0\<lparr>page := ?m1\<rparr>" ?m2 render ui] a2
    by (simp add: init_screen_def reconcile_def readme_shown_def start_run_def)
  have s3: "(screen_step render app_step ui)\<^sup>*\<^sup>* (?sc0\<lparr>page := ?m2\<rparr>) sample_screen_consumed"
    using screen_run_prefix [of "?sc0\<lparr>page := ?m2\<rparr>" ?rs ?D "[]" render]
    by (simp add: init_screen_def sample_screen_consumed_def Let_def start_run_def)
  show ?thesis
    using s1 s2 s3 by (meson converse_rtranclp_into_rtranclp)
qed

lemma sample_screen_shown:
  "readme_shown (finish_run (Inr ()) (ui (page sample_screen_consumed)))"
proof -
  obtain rest where D: "doc_events MOCK_REPO_DATA ''https://github.com/reactjs/reactjs.org'' (\<lambda>i r. Some ''ok'') =
      Status (START LOADING_MESSAGES) # Yield (title_md ''https://github.com/reactjs/reactjs.org'') # rest"
    using doc_events_start by blast
  show ?thesis
    by (simp add: sample_screen_consumed_def Let_def D consume_state finish_run_def readme_shown_def)
qed

lemma sample_screen_done_step:
  "screen_step render app_step ui sample_screen_consumed (sample_screen_done render)"
proof -
  have "app_step (page sample_screen_consumed)
      \<lparr>ui = finish_run (Inr ()) (ui (page sample_screen_consumed)), running = None\<rparr>"
    using app_step.finish [of "page sample_screen_consumed" "the (running (page sample_screen_consumed))"]
    by (simp add: sample_screen_consumed_def Let_def)
  then show ?thesis unfolding sample_screen_done_def by (rule screen_step.page_step)
qed

lemma sample_screen_done_panel:
  "panel (sample_screen_done render) =
     Some (mount_display render (generatedReadme (ui (page (sample_screen_done render)))) [])"
  using sample_screen_shown
  by (simp add: sample_screen_done_def reconcile_def sample_screen_consumed_def Let_def)

lemma sample_screen_done_reachable:
  "(screen_step render app_step ui)\<^sup>*\<^sup>* (init_screen init_machine []) (sample_screen_done render)"
  using sample_screen_consumed_reachable sample_screen_done_step by (rule rtranclp.rtrancl_into_rtrancl)

lemma sample_screen_clicked_reachable:
  "(screen_step render app_step ui)\<^sup>*\<^sup>* (init_screen init_machine []) (sample_screen_clicked render)"
proof -
  let ?d = "mount_display render (generatedReadme (ui (page (sample_screen_done render)))) []"
  have "display_step render ?d (?d\<lparr>writes := writes ?d @ [content ?d]\<rparr>)"
    by (rule display_step.click) (simp add: mount_display_def)
  then have "screen_step render app_step ui (sample_screen_done render) (sample_screen_clicked render)"
    using screen_step.panel_step [OF sample_screen_done_panel] by (simp add: sample_screen_clicked_def sample_screen_done_panel)
  with sample_screen_done_reachable show ?thesis by (rule rtranclp.rtrancl_into_rtrancl)
qed

text \<open>C28: For every page machine that keeps its invariant and leaves the
  README alone while the README panel is shown, in every state the page and
  its README panel reach together the panel is mounted exactly when the page
  shows the README panel, and a mounted panel's prop is the page's README,
  whose Markdown rendering is on the page.\<close>

theorem screen_panel_tracks_page:
  assumes "page_machine pstep view pinv" and "pinv p0" and "\<not> readme_shown (view p0)"
    and "(screen_step render pstep view)\<^sup>*\<^sup>* (init_screen p0 clip) sc"
  shows "(panel sc = None \<longleftrightarrow> (\<forall>c. ReadmeDisplay c \<notin> set (app_view (view (page sc))))) \<and>
   (\<forall>d. panel sc = Some d \<longrightarrow> content d = generatedReadme (view (page sc)) \<and>
        Html (render (generatedReadme (view (page sc)))) \<in> set (page_view d (view (page sc))))"
  using screen_inv_reachable [OF assms(1-3) assms(4)]
  by (auto simp: screen_inv_def readme_shown_view display_inv_def page_view_def panel_view_def
                 readme_display_view_def split: option.splits
           intro!: bexI [where x = "ReadmeDisplay (generatedReadme (view (page sc)))"])

theorem screen_panel_tracks_page_witness:
  "(screen_step id app_step ui)\<^sup>*\<^sup>* (init_screen init_machine []) (sample_screen_done id) \<and>
   panel (sample_screen_done id) \<noteq> None \<and>
   content (the (panel (sample_screen_done id))) = generatedReadme (ui (page (sample_screen_done id))) \<and>
   Html (generatedReadme (ui (page (sample_screen_done id))))
     \<in> set (page_view (the (panel (sample_screen_done id))) (ui (page (sample_screen_done id))))"
proof -
  have i: "\<not> readme_shown (ui init_machine)" by (simp add: readme_shown_def init_machine_def init_app_def)
  from screen_panel_tracks_page [OF app_page_machine app_inv_init i sample_screen_done_reachable [of id]]
  show ?thesis using sample_screen_done_reachable [of id] sample_screen_done_panel [of id] by simp
qed

text \<open>C29: For every such page machine, every run that finishes leaves a
  fresh README panel: in every reachable state whose page is loading, a step
  after which it is not loading either shows no README or mounts a new panel
  on the new README (button enabled, no write or timer of an earlier panel, the
  system clipboard as it was), never a panel carried over from before.\<close>

theorem finished_run_fresh_panel:
  assumes "page_machine pstep view pinv" and "pinv p0" and "\<not> readme_shown (view p0)"
    and "(screen_step render pstep view)\<^sup>*\<^sup>* (init_screen p0 clip) sc"
    and "isLoading (view (page sc))"
    and "screen_step render pstep view sc sc'"
    and "\<not> isLoading (view (page sc'))"
  shows "panel sc' = None \<or>
         panel sc' = Some (mount_display render (generatedReadme (view (page sc'))) (sysclip sc))"
proof -
  have "screen_inv render view pinv sc" using screen_inv_reachable [OF assms(1-3) assms(4)] .
  with assms(5) have none: "panel sc = None"
    by (auto simp: screen_inv_def readme_shown_def split: option.splits)
  from assms(6) show ?thesis
  proof cases
    case (page_step m)
    with none show ?thesis by (simp add: reconcile_def)
  next
    case (orphan_ok i)
    with assms(5,7) show ?thesis by (simp add: set_clipboard_def split: option.splits)
  qed (use none assms(5,7) in simp_all)
qed

theorem finished_run_fresh_panel_witness:
  "(screen_step id app_step ui)\<^sup>*\<^sup>* (init_screen init_machine []) sample_screen_consumed \<and>
   isLoading (ui (page sample_screen_consumed)) \<and>
   screen_step id app_step ui sample_screen_consumed (sample_screen_done id) \<and>
   \<not> isLoading (ui (page (sample_screen_done id))) \<and>
   panel (sample_screen_done id) = Some (mount_display id (generatedReadme (ui (page (sample_screen_done id)))) [])"
proof -
  have i: "\<not> readme_shown (ui init_machine)" by (simp add: readme_shown_def init_machine_def init_app_def)
  have a: "isLoading (ui (page sample_screen_consumed))"
    by (simp add: sample_screen_consumed_def Let_def consume_state start_run_def)
  have b: "\<not> isLoading (ui (page (sample_screen_done id)))"
    by (simp add: sample_screen_done_def finish_run_def)
  have c: "sysclip sample_screen_consumed = []"
    by (simp add: sample_screen_consumed_def Let_def)
  from finished_run_fresh_panel [OF app_page_machine app_inv_init i sample_screen_consumed_reachable a
      sample_screen_done_step b] sample_screen_done_panel [of id] c
  show ?thesis using sample_screen_consumed_reachable a b sample_screen_done_step by auto
qed

text \<open>C18: Copy Markdown copies what is displayed: for every such page
  machine, in every reachable state, each clipboard write the mounted README
  panel has in flight carries exactly the page's current README, whose
  rendering is the panel's HTML on the page.\<close>

theorem copy_writes_displayed:
  assumes "page_machine pstep view pinv" and "pinv p0" and "\<not> readme_shown (view p0)"
    and "(screen_step render pstep view)\<^sup>*\<^sup>* (init_screen p0 clip) sc"
    and "panel sc = Some d" and "w \<in> set (writes d)"
  shows "w = generatedReadme (view (page sc)) \<and> Html (render w) \<in> set (page_view d (view (page sc)))"
  using screen_inv_reachable [OF assms(1-3) assms(4)] assms(5,6)
  by (auto simp: screen_inv_def readme_shown_view display_inv_def page_view_def panel_view_def
                 readme_display_view_def
           intro!: bexI [where x = "ReadmeDisplay (generatedReadme (view (page sc)))"])

theorem copy_writes_displayed_witness:
  "(screen_step id app_step ui)\<^sup>*\<^sup>* (init_screen init_machine []) (sample_screen_clicked id) \<and>
   writes (the (panel (sample_screen_clicked id))) = [generatedReadme (ui (page (sample_screen_clicked id)))] \<and>
   Html (generatedReadme (ui (page (sample_screen_clicked id))))
     \<in> set (page_view (the (panel (sample_screen_clicked id))) (ui (page (sample_screen_clicked id))))"
proof -
  have i: "\<not> readme_shown (ui init_machine)" by (simp add: readme_shown_def init_machine_def init_app_def)
  let ?d = "the (panel (sample_screen_clicked id))"
  let ?R = "generatedReadme (ui (page (sample_screen_clicked id)))"
  have p: "panel (sample_screen_clicked id) = Some ?d" and w: "writes ?d = [?R]"
    using sample_screen_done_panel [of id]
    by (simp_all add: sample_screen_clicked_def mount_display_def)
  from copy_writes_displayed [OF app_page_machine app_inv_init i sample_screen_clicked_reachable p, of ?R] w
  show ?thesis using sample_screen_clicked_reachable by simp
qed

end
