(* ===== verification/Generator.thy ===== *)
theory Generator
  imports App
begin

text \<open>
  The async generator protocol between \<open>generateDocumentation\<close> and the
  \<open>for await\<close> loop of \<open>handleGenerate\<close> (\<open>src/App.tsx\<close>).  Calling
  \<open>generateDocumentation(repoUrl, setLoadingMessage)\<close> runs nothing: it creates a
  generator object.  Each \<open>next()\<close> runs the body from where it stopped up to the
  next \<open>yield\<close> (its value), or to the end (done) or a throw (the promise
  rejects).  Because a client answers by call index, the body's run is
  determined by the client, and the events of one \<open>next()\<close> are the next slice
  of the trace of \<open>Effects\<close>; \<open>gen_object\<close> holds what is left of it.  The loop
  that pulls it is \<open>loop_iter\<close> of \<open>AwaitPage\<close>.
\<close>

section \<open>The generator object\<close>

datatype iter_result = Value string | Done | Threw js_exn

record gen_object =
  remaining :: "event list"
  completion :: "js_exn + unit"
  closed :: bool

text \<open>Calling the generator function: the body's trace for this client, not yet
  run.\<close>

definition gen_start :: "unit act \<Rightarrow> client \<Rightarrow> gen_object" where
  "gen_start body cl =
     (case body cl 0 of (r, es) \<Rightarrow> \<lparr>remaining = es, completion = r, closed = False\<rparr>)"

text \<open>The body resumed up to its next \<open>yield\<close>: the events it runs before it,
  the value, and what is left.\<close>

fun run_to_yield :: "event list \<Rightarrow> event list \<times> string option \<times> event list" where
  "run_to_yield [] = ([], None, [])"
| "run_to_yield (Yield f # es) = ([], Some f, es)"
| "run_to_yield (e # es) = (case run_to_yield es of (evs, v, rest) \<Rightarrow> (e # evs, v, rest))"

definition gen_next :: "gen_object \<Rightarrow> event list \<times> iter_result \<times> gen_object" where
  "gen_next g =
     (if closed g then ([], Done, g)
      else (case run_to_yield (remaining g) of
              (evs, Some f, rest) \<Rightarrow> (evs, Value f, g\<lparr>remaining := rest\<rparr>)
            | (evs, None, rest) \<Rightarrow>
                (evs, (case completion g of Inl e \<Rightarrow> Threw e | Inr _ \<Rightarrow> Done),
                 g\<lparr>remaining := [], closed := True\<rparr>)))"

lemma run_to_yield_Some_shorter:
  "run_to_yield es = (evs, Some f, rest) \<Longrightarrow> length rest < length es"
  by (induction es arbitrary: evs rule: run_to_yield.induct) (auto split: prod.splits)

lemma gen_next_Value_shorter:
  "gen_next g = (evs, Value f, g') \<Longrightarrow> length (remaining g') < length (remaining g)"
  by (auto simp: gen_next_def run_to_yield_Some_shorter split: if_splits prod.splits option.splits sum.splits)

section \<open>Pulling the generator\<close>

text \<open>The number of \<open>next()\<close> calls that drain a generator: one per value and
  one that finds it done or rejected.  The loop of \<open>AwaitPage\<close> takes one step
  per call.\<close>

function pulls :: "gen_object \<Rightarrow> nat" where
  "pulls g = (case gen_next g of (evs, Value f, g') \<Rightarrow> Suc (pulls g') | _ \<Rightarrow> 1)"
  by pat_completeness auto
termination
  by (relation "measure (\<lambda>g. length (remaining g))") (auto dest: gen_next_Value_shorter [OF sym])

declare pulls.simps [simp del]

section \<open>Properties\<close>

lemma run_to_yield_Some:
  "run_to_yield es = (evs, Some f, rest) \<Longrightarrow> es = evs @ Yield f # rest \<and> yields evs = []"
  by (induction es arbitrary: evs rule: run_to_yield.induct) (auto split: prod.splits)

lemma run_to_yield_None:
  "run_to_yield es = (evs, None, rest) \<Longrightarrow> es = evs \<and> yields evs = []"
  by (induction es arbitrary: evs rule: run_to_yield.induct) (auto split: prod.splits)

lemma gen_next_open:
  "\<not> closed g \<Longrightarrow>
   gen_next g = (case run_to_yield (remaining g) of
       (evs, Some f, rest) \<Rightarrow> (evs, Value f, g\<lparr>remaining := rest\<rparr>)
     | (evs, None, rest) \<Rightarrow> (evs, (case completion g of Inl e \<Rightarrow> Threw e | Inr _ \<Rightarrow> Done),
                              g\<lparr>remaining := [], closed := True\<rparr>))"
  by (simp add: gen_next_def)

text \<open>One \<open>next()\<close> on an open generator: either the body reaches a
  \<open>yield\<close> after events that yield nothing, or it runs to its end.\<close>

lemma gen_next_cases:
  assumes "\<not> closed g"
  obtains (Value) evs f rest where "remaining g = evs @ Yield f # rest" and "yields evs = []"
      and "gen_next g = (evs, Value f, g\<lparr>remaining := rest\<rparr>)"
    | (Finish) "yields (remaining g) = []"
      and "gen_next g = (remaining g, case completion g of Inl e \<Rightarrow> Threw e | Inr _ \<Rightarrow> Done,
                         g\<lparr>remaining := [], closed := True\<rparr>)"
proof -
  obtain evs v rest where r: "run_to_yield (remaining g) = (evs, v, rest)"
    by (cases "run_to_yield (remaining g)")
  show ?thesis
  proof (cases v)
    case None
    with r have "remaining g = evs" "yields evs = []" by (simp_all add: run_to_yield_None)
    with None r assms show ?thesis by (intro Finish) (simp_all add: gen_next_open)
  next
    case (Some f)
    with r have "remaining g = evs @ Yield f # rest" "yields evs = []" by (simp_all add: run_to_yield_Some)
    with Some r assms show ?thesis by (intro Value) (simp_all add: gen_next_open)
  qed
qed

lemma pulls_yields:
  "\<not> closed g \<Longrightarrow> pulls g = Suc (length (yields (remaining g)))"
proof (induction g rule: pulls.induct)
  case (1 g)
  from "1.prems" show ?case
  proof (cases rule: gen_next_cases)
    case (Value evs f rest)
    from "1.IH" [OF Value(3) [symmetric] refl refl] "1.prems"
    have "pulls (g\<lparr>remaining := rest\<rparr>) = Suc (length (yields rest))" by simp
    with Value show ?thesis by (subst pulls.simps) simp
  next
    case Finish
    then show ?thesis by (subst pulls.simps) (simp split: sum.split)
  qed
qed

lemma gen_start_open [simp]:
  "\<not> closed (gen_start body cl)" "remaining (gen_start body cl) = snd (body cl 0)"
  "completion (gen_start body cl) = fst (body cl 0)"
  by (simp_all add: gen_start_def split: prod.split)

end
