(* ===== verification/AwaitPage.thy ===== *)
theory AwaitPage
  imports Generator
begin

text \<open>
  The page with its run as the code holds it: a generator object and the
  handler's local \<open>readmeContent\<close>, suspended in the \<open>for await\<close> loop of
  \<open>handleGenerate\<close> (\<open>src/App.tsx\<close>).  React renders between two \<open>await\<close>s, so a
  step of the page is a form step while idle, the submission, or one
  iteration of the loop: one \<open>next()\<close>, whose status callbacks run inside it,
  and the loop body on the value, or the loop's exit through \<open>catch\<close> and
  \<open>finally\<close>.  \<open>gabs\<close> maps such a page to the page machine \<^const>\<open>app_step\<close> of
  \<open>App\<close>, whose run is the list of events still to come.
\<close>

section \<open>State and steps\<close>

record gmachine =
  gui :: app_state
  gen :: "(gen_object \<times> string) option"

definition ginit :: gmachine where
  "ginit = \<lparr>gui = init_app, gen = None\<rparr>"

text \<open>One iteration of the loop on the suspended generator \<open>g\<close> with the local
  \<open>readmeContent\<close> \<open>c\<close>: \<open>next()\<close> runs the body's events (the status
  callbacks reach the page), then the loop body on a value (\<open>readmeContent +=
  section; setGeneratedReadme(readmeContent)\<close>), or the loop's end and
  \<open>finally\<close>, or a rejection, \<open>catch\<close> and \<open>finally\<close>.\<close>

definition loop_iter :: "gen_object \<Rightarrow> string \<Rightarrow> app_state \<Rightarrow> gmachine" where
  "loop_iter g c s =
     (case gen_next g of
        (evs, Value f, g') \<Rightarrow>
          (case apply_event (Yield f) (fold apply_event evs (c, s)) of
             (c', s') \<Rightarrow> \<lparr>gui = s', gen = Some (g', c')\<rparr>)
      | (evs, Done, g') \<Rightarrow> \<lparr>gui = finish_run (Inr ()) (snd (fold apply_event evs (c, s))), gen = None\<rparr>
      | (evs, Threw e, g') \<Rightarrow> \<lparr>gui = finish_run (Inl e) (snd (fold apply_event evs (c, s))), gen = None\<rparr>)"

text \<open>The form's steps are those of the idle page machine (\<open>disabled={isLoading}\<close>
  on every control); the submission runs the guards and
  \<open>setIsLoading(true); setGeneratedReadme(''); setError(null)\<close> and creates
  the generator; then the loop iterates.\<close>

inductive gstep :: "gmachine \<Rightarrow> gmachine \<Rightarrow> bool" where
  form: "gen m = None \<Longrightarrow> app_step \<lparr>ui = gui m, running = None\<rparr> \<lparr>ui = s, running = None\<rparr> \<Longrightarrow>
    gstep m \<lparr>gui = s, gen = None\<rparr>"
| gstart: "\<not> isLoading (gui m) \<Longrightarrow> validate (repoUrl (gui m)) = None \<Longrightarrow>
    gstep m \<lparr>gui = start_run (gui m),
             gen = Some (gen_start (generateDocumentation (repoUrl (gui m))) cl, [])\<rparr>"
| iter: "gen m = Some (g, c) \<Longrightarrow> gstep m (loop_iter g c (gui m))"

text \<open>The run a suspended loop stands for: the events the generator has not
  run yet, its completion, and what the loop has accumulated.\<close>

definition gabs :: "gmachine \<Rightarrow> machine" where
  "gabs m = \<lparr>ui = gui m,
             running = map_option (\<lambda>(g, c). \<lparr>pending = remaining g, outcome = completion g,
                                               readmeContent = c\<rparr>) (gen m)\<rparr>"

definition ginv :: "gmachine \<Rightarrow> bool" where
  "ginv m \<longleftrightarrow> app_inv (gabs m) \<and> (case gen m of None \<Rightarrow> True | Some (g, c) \<Rightarrow> \<not> closed g)"

text \<open>The sample URL submitted with a client that answers every call: the
  page right after the submission, its generator not yet pulled.\<close>

definition sample_started :: gmachine where
  "sample_started =
     \<lparr>gui = start_run (handleUseSample init_app),
      gen = Some (gen_start (generateDocumentation ''https://github.com/reactjs/reactjs.org'')
                    (\<lambda>i r. Inr (Some ''ok'')), [])\<rparr>"

section \<open>Properties\<close>

lemma app_inv_rtranclp: "app_step\<^sup>*\<^sup>* m m' \<Longrightarrow> app_inv m \<Longrightarrow> app_inv m'"
  by (induction rule: rtranclp_induct) (auto intro: app_step_inv)

lemma gabs_idle [simp]: "gen m = None \<Longrightarrow> gabs m = \<lparr>ui = gui m, running = None\<rparr>"
  by (simp add: gabs_def)

lemma gabs_running [simp]:
  "gen m = Some (g, c) \<Longrightarrow>
   gabs m = \<lparr>ui = gui m, running = Some \<lparr>pending = remaining g, outcome = completion g, readmeContent = c\<rparr>\<rparr>"
  by (simp add: gabs_def)

lemma ginv_init: "ginv ginit"
  using app_inv_init by (simp add: ginv_def ginit_def init_machine_def)

lemma loop_iter_Value:
  "gen_next g = (evs, Value f, g') \<Longrightarrow> apply_event (Yield f) (fold apply_event evs (c, s)) = (c', s') \<Longrightarrow>
   loop_iter g c s = \<lparr>gui = s', gen = Some (g', c')\<rparr>"
  by (simp add: loop_iter_def)

lemma loop_iter_Finish:
  "gen_next g = (remaining g, case completion g of Inl e \<Rightarrow> Threw e | Inr _ \<Rightarrow> Done, g') \<Longrightarrow>
   loop_iter g c s = \<lparr>gui = finish_run (completion g) (snd (consume (remaining g) (c, s))), gen = None\<rparr>"
  by (simp add: loop_iter_def consume_def split: sum.splits)

text \<open>Simulation: each step of the page with its generator is a sequence of
  steps of the page machine, one per event the step runs.\<close>

lemma gstep_simulates:
  "gstep m m' \<Longrightarrow> ginv m \<Longrightarrow> app_step\<^sup>*\<^sup>* (gabs m) (gabs m')"
proof (induction rule: gstep.induct)
  case (form m s)
  then show ?case by simp
next
  case (gstart m cl)
  obtain r es where run: "generateDocumentation (repoUrl (gui m)) cl 0 = (r, es)" by fastforce
  have "gen m = None"
    using gstart.prems gstart.hyps(1) by (auto simp: ginv_def gabs_def app_inv_def split: option.splits)
  with gstart.hyps run app_step.start [of "\<lparr>ui = gui m, running = None\<rparr>" cl r es] show ?case
    by (intro r_into_rtranclp) simp
next
  case (iter m g c)
  have "\<not> closed g" using iter.prems iter.hyps by (simp add: ginv_def)
  then show ?case
  proof (cases rule: gen_next_cases)
    case (Value evs f rest)
    obtain c' s' where ev: "apply_event (Yield f) (fold apply_event evs (c, gui m)) = (c', s')"
      by fastforce
    have "consume (evs @ [Yield f]) (c, gui m) = (c', s')"
      using ev by (simp add: consume_def)
    then show ?thesis
      using run_prefix [of "gabs m" _ "evs @ [Yield f]" rest] iter.hyps Value loop_iter_Value [OF Value(3) ev]
      by simp
  next
    case Finish
    then show ?thesis
      using run_completes [of "gabs m"] iter.hyps by (simp add: loop_iter_Finish)
  qed
qed

lemma gen_next_Value_open:
  "\<not> closed g \<Longrightarrow> gen_next g = (evs, Value f, g') \<Longrightarrow> \<not> closed g'"
  by (auto simp: gen_next_def split: prod.splits option.splits sum.splits)

lemma gstep_ginv: "gstep m m' \<Longrightarrow> ginv m \<Longrightarrow> ginv m'"
proof -
  assume st: "gstep m m'" and inv: "ginv m"
  have "app_inv (gabs m')"
    using app_inv_rtranclp [OF gstep_simulates [OF st inv]] inv by (simp add: ginv_def)
  moreover have "case gen m' of None \<Rightarrow> True | Some (g, c) \<Rightarrow> \<not> closed g"
    using st inv by cases (auto simp: ginv_def loop_iter_def dest: gen_next_Value_open
                                split: prod.splits iter_result.splits)
  ultimately show ?thesis by (simp add: ginv_def)
qed

lemma ginv_reachable: "gstep\<^sup>*\<^sup>* ginit m \<Longrightarrow> ginv m"
  by (induction rule: rtranclp_induct) (auto intro: ginv_init gstep_ginv)

lemma gabs_init [simp]: "gabs ginit = init_machine"
  by (simp add: ginit_def init_machine_def)

text \<open>The loop drains a suspended generator in exactly as many steps as it
  calls \<open>next()\<close>, and ends where the page machine ends the run.\<close>

lemma gpull_run:
  "\<not> closed g \<Longrightarrow> gen m = Some (g, c) \<Longrightarrow>
   (gstep ^^ pulls g) m \<lparr>gui = finish_run (completion g) (snd (consume (remaining g) (c, gui m))), gen = None\<rparr>"
proof (induction g arbitrary: m c rule: pulls.induct)
  case (1 g)
  from "1.prems"(1) show ?case
  proof (cases rule: gen_next_cases)
    case (Value evs f rest)
    obtain c' s' where ev: "apply_event (Yield f) (fold apply_event evs (c, gui m)) = (c', s')"
      by fastforce
    let ?m' = "\<lparr>gui = s', gen = Some (g\<lparr>remaining := rest\<rparr>, c')\<rparr>"
    have step: "gstep m ?m'"
      using gstep.iter [OF "1.prems"(2)] loop_iter_Value [OF Value(3) ev] by simp
    have ih: "(gstep ^^ pulls (g\<lparr>remaining := rest\<rparr>)) ?m'
        \<lparr>gui = finish_run (completion g) (snd (consume rest (c', s'))), gen = None\<rparr>"
      using "1.IH" [OF Value(3) [symmetric] refl refl, of ?m' c'] "1.prems"(1) by simp
    have cs: "consume (remaining g) (c, gui m) = consume rest (c', s')"
      using Value(1) ev by (simp add: consume_def)
    have p: "pulls g = Suc (pulls (g\<lparr>remaining := rest\<rparr>))"
      using Value(3) by (subst pulls.simps) simp
    show ?thesis unfolding cs p by (rule relpowp_Suc_I2 [OF step ih])
  next
    case Finish
    have p: "pulls g = 1"
      using Finish(2) by (subst pulls.simps) (simp split: sum.split)
    show ?thesis
      using gstep.iter [OF "1.prems"(2)] loop_iter_Finish [OF Finish(2)] unfolding p relpowp_1 by simp
  qed
qed

lemma sample_started_reachable: "gstep\<^sup>*\<^sup>* ginit sample_started"
proof -
  let ?s = "handleUseSample init_app"
  have a: "app_step \<lparr>ui = init_app, running = None\<rparr> \<lparr>ui = ?s, running = None\<rparr>"
    using app_step.use_sample [of "\<lparr>ui = init_app, running = None\<rparr>"] by (simp add: init_app_def)
  have g1: "gstep ginit \<lparr>gui = ?s, gen = None\<rparr>"
    using gstep.form [of ginit ?s] a by (simp add: ginit_def)
  have v: "validate ''https://github.com/reactjs/reactjs.org'' = None"
    using sample_url_valid by (simp only: validate_None_iff)
  have g2: "gstep \<lparr>gui = ?s, gen = None\<rparr> sample_started"
    using gstep.gstart [of "\<lparr>gui = ?s, gen = None\<rparr>" "\<lambda>i r. Inr (Some ''ok'')"] v
    by (simp add: sample_started_def handleUseSample_def init_app_def)
  show ?thesis using g1 g2 by (meson rtranclp.rtrancl_into_rtrancl r_into_rtranclp)
qed

lemma sample_started_gen:
  "gen sample_started = Some (gen_start (generateDocumentation ''https://github.com/reactjs/reactjs.org'')
                                (\<lambda>i r. Inr (Some ''ok'')), [])"
  by (simp add: sample_started_def)

text \<open>C30: Liveness of the submission with the loop: from every idle page with
  a URL the check accepts, for every client, the submission followed by exactly
  one loop iteration per next() call, at most six, reaches the idle page whose
  fields are those handleGenerate computes.\<close>

theorem gpage_handleGenerate:
  assumes "\<not> isLoading (gui m)" and "is_github_url (repoUrl (gui m))"
  shows "(gstep ^^ Suc (pulls (gen_start (generateDocumentation (repoUrl (gui m))) cl))) m
           \<lparr>gui = handleGenerate cl (gui m), gen = None\<rparr> \<and>
         pulls (gen_start (generateDocumentation (repoUrl (gui m))) cl) \<le> 6"
proof -
  let ?g = "gen_start (generateDocumentation (repoUrl (gui m))) cl"
  let ?m1 = "\<lparr>gui = start_run (gui m), gen = Some (?g, [])\<rparr>"
  have v: "validate (repoUrl (gui m)) = None" using assms(2) by (simp add: validate_None_iff)
  have s1: "gstep m ?m1" using assms(1) v by (rule gstep.gstart)
  have s2: "(gstep ^^ pulls ?g) ?m1
      \<lparr>gui = finish_run (completion ?g) (snd (consume (remaining ?g) ([], start_run (gui m)))), gen = None\<rparr>"
    using gpull_run [of ?g ?m1 "[]"] by simp
  have "finish_run (completion ?g) (snd (consume (remaining ?g) ([], start_run (gui m)))) = handleGenerate cl (gui m)"
    using v by (simp add: handleGenerate_def split: prod.split)
  with s2 have s2': "(gstep ^^ pulls ?g) ?m1 \<lparr>gui = handleGenerate cl (gui m), gen = None\<rparr>" by simp
  have "length (yields (snd (generateDocumentation (repoUrl (gui m)) cl 0))) \<le> 5"
    using generate_from_frags_count by (simp add: frags_within_def generateDocumentation_def)
  then have "pulls ?g \<le> 6" by (simp add: pulls_yields)
  with relpowp_Suc_I2 [OF s1 s2'] show ?thesis by blast
qed

theorem gpage_handleGenerate_witness:
  "\<not> isLoading (gui \<lparr>gui = handleUseSample init_app, gen = None\<rparr>) \<and>
   is_github_url (repoUrl (gui \<lparr>gui = handleUseSample init_app, gen = None\<rparr>)) \<and>
   (gstep ^^ Suc (pulls (gen_start (generateDocumentation ''https://github.com/reactjs/reactjs.org'')
                           (\<lambda>i r. Inr (Some ''ok'')))))
     \<lparr>gui = handleUseSample init_app, gen = None\<rparr>
     \<lparr>gui = handleGenerate (\<lambda>i r. Inr (Some ''ok'')) (handleUseSample init_app), gen = None\<rparr>"
proof -
  have h1: "\<not> isLoading (gui \<lparr>gui = handleUseSample init_app, gen = None\<rparr>)"
    by (simp add: handleUseSample_def init_app_def)
  have h2: "is_github_url (repoUrl (gui \<lparr>gui = handleUseSample init_app, gen = None\<rparr>))"
    using sample_url_valid by (simp add: handleUseSample_def)
  from gpage_handleGenerate [OF h1 h2, of "\<lambda>i r. Inr (Some ''ok'')"] h1 h2 show ?thesis
    by (simp add: handleUseSample_def)
qed

text \<open>C31: A run in flight cannot be interfered with and never gets stuck: in
  every reachable state with a generator suspended in the loop, the page's only
  step is the next iteration of the loop (the form and the submit button are
  disabled).\<close>

theorem gpage_in_flight_deterministic:
  "gstep\<^sup>*\<^sup>* ginit m \<Longrightarrow> gen m = Some (g, c) \<Longrightarrow> (gstep m m' \<longleftrightarrow> m' = loop_iter g c (gui m))"
proof -
  assume r: "gstep\<^sup>*\<^sup>* ginit m" and gm: "gen m = Some (g, c)"
  have "isLoading (gui m)"
    using ginv_reachable [OF r] gm by (simp add: ginv_def app_inv_def)
  show ?thesis
  proof
    assume "gstep m m'"
    then show "m' = loop_iter g c (gui m)"
      using gm \<open>isLoading (gui m)\<close> by cases simp_all
  next
    assume "m' = loop_iter g c (gui m)"
    then show "gstep m m'" using gstep.iter [OF gm] by simp
  qed
qed

theorem gpage_in_flight_deterministic_witness:
  "gstep\<^sup>*\<^sup>* ginit sample_started \<and>
   gen sample_started = Some (gen_start (generateDocumentation ''https://github.com/reactjs/reactjs.org'')
                                (\<lambda>i r. Inr (Some ''ok'')), []) \<and>
   gstep sample_started
     (loop_iter (gen_start (generateDocumentation ''https://github.com/reactjs/reactjs.org'')
                   (\<lambda>i r. Inr (Some ''ok''))) [] (gui sample_started))"
  using gpage_in_flight_deterministic [OF sample_started_reachable sample_started_gen]
    sample_started_reachable sample_started_gen by blast

end
