(* ===== verification/LoopScreen.thy ===== *)
theory LoopScreen
  imports Screen AwaitPage
begin

text \<open>
  The README panel composed with the page as the code runs it: the page
  machine is \<^const>\<open>gstep\<close> of \<open>AwaitPage\<close> (generator object and \<open>for await\<close>
  loop), viewed through \<^const>\<open>gui\<close>, with invariant \<^const>\<open>ginv\<close>.  It is an
  instance of the interface \<^const>\<open>page_machine\<close>, so the properties of
  \<open>Screen\<close> hold for it; a submission runs to its end through the screen's
  steps (\<open>loop_screen_submit_run\<close>).
\<close>

section \<open>Properties\<close>

lemma ginit_hidden: "\<not> readme_shown (gui ginit)"
  by (simp add: readme_shown_def ginit_def init_app_def)

lemma loop_page_machine: "page_machine gstep gui ginv"
  unfolding page_machine_def
proof (intro allI impI conjI)
  fix m m' assume st: "gstep m m'" and inv: "ginv m"
  then show "ginv m'" by (rule gstep_ginv)
  assume sh: "readme_shown (gui m)" "readme_shown (gui m')"
  have idle: "gen m = None"
    using inv sh(1) by (auto simp: ginv_def gabs_def app_inv_def readme_shown_def split: option.splits)
  from st show "generatedReadme (gui m') = generatedReadme (gui m)"
  proof cases
    case (form s)
    with idle inv sh have "app_inv \<lparr>ui = gui m, running = None\<rparr>"
      and "readme_shown (ui \<lparr>ui = gui m, running = None\<rparr>)" "readme_shown (ui \<lparr>ui = s, running = None\<rparr>)"
      by (simp_all add: ginv_def)
    with form page_machineD(2) [OF app_page_machine] show ?thesis by fastforce
  next
    case (gstart cl)
    with sh(2) show ?thesis by (simp add: readme_shown_def start_run_def)
  qed (use idle in simp)
qed

lemma loop_screen_inv_reachable:
  "(screen_step render gstep gui)\<^sup>*\<^sup>* (init_screen ginit clip) sc \<Longrightarrow> screen_inv render gui ginv sc"
  by (rule screen_inv_reachable [OF loop_page_machine ginv_init ginit_hidden])

text \<open>While the page is loading the panel stays unmounted, so the loop's
  iterations are steps of the screen; the last one reconciles the finished
  page.\<close>

lemma loop_screen_pull_run:
  "\<not> closed g \<Longrightarrow> gen (page sc) = Some (g, c) \<Longrightarrow> panel sc = None \<Longrightarrow> isLoading (gui (page sc)) \<Longrightarrow>
   (screen_step render gstep gui)\<^sup>*\<^sup>* sc
     (reconcile render gui \<lparr>gui = finish_run (completion g) (snd (consume (remaining g) (c, gui (page sc)))),
                            gen = None\<rparr> sc)"
proof (induction g arbitrary: sc c rule: pulls.induct)
  case (1 g)
  from "1.prems"(1) show ?case
  proof (cases rule: gen_next_cases)
    case (Value evs f rest)
    obtain c' s' where ev: "apply_event (Yield f) (fold apply_event evs (c, gui (page sc))) = (c', s')"
      by fastforce
    let ?m' = "\<lparr>gui = s', gen = Some (g\<lparr>remaining := rest\<rparr>, c')\<rparr>"
    have cs: "consume (remaining g) (c, gui (page sc)) = consume rest (c', s')"
      using Value(1) ev by (simp add: consume_def)
    have "isLoading s'"
      using consume_state [of "evs @ [Yield f]" c "gui (page sc)"] ev "1.prems"(4) by (simp add: consume_def)
    then have step: "screen_step render gstep gui sc (sc\<lparr>page := ?m'\<rparr>)"
      using screen_step.page_step [of gstep sc "loop_iter g c (gui (page sc))" render gui, OF gstep.iter [OF "1.prems"(2)]]
        loop_iter_Value [OF Value(3) ev] reconcile_hidden [of sc gui ?m' render] "1.prems"(3)
      by (simp add: readme_shown_def)
    have "(screen_step render gstep gui)\<^sup>*\<^sup>* (sc\<lparr>page := ?m'\<rparr>)
        (reconcile render gui \<lparr>gui = finish_run (completion g) (snd (consume rest (c', s'))), gen = None\<rparr>
          (sc\<lparr>page := ?m'\<rparr>))"
      using "1.IH" [OF Value(3) [symmetric] refl refl, of "sc\<lparr>page := ?m'\<rparr>" c'] "1.prems"(1,3)
        \<open>isLoading s'\<close> by simp
    with step cs show ?thesis by (simp add: converse_rtranclp_into_rtranclp)
  next
    case Finish
    show ?thesis
      using screen_step.page_step [of gstep sc "loop_iter g c (gui (page sc))" render gui, OF gstep.iter [OF "1.prems"(2)]]
        loop_iter_Finish [OF Finish(2)]
      by (simp add: r_into_rtranclp)
  qed
qed

text \<open>A submission from an idle screen with a URL the check accepts runs to
  its end; the screen then holds the page \<open>handleGenerate\<close> computes,
  reconciled.\<close>

lemma loop_screen_submit_run:
  assumes "panel sc = None" and "gen (page sc) = None" and "\<not> isLoading (gui (page sc))"
    and "is_github_url (repoUrl (gui (page sc)))"
  shows "(screen_step render gstep gui)\<^sup>*\<^sup>* sc
           (reconcile render gui \<lparr>gui = handleGenerate cl (gui (page sc)), gen = None\<rparr> sc)"
proof -
  let ?s = "gui (page sc)"
  let ?g = "gen_start (generateDocumentation (repoUrl ?s)) cl"
  let ?m1 = "\<lparr>gui = start_run ?s, gen = Some (?g, [])\<rparr>"
  have v: "validate (repoUrl ?s) = None" using assms(4) by (simp add: validate_None_iff)
  have "gstep (page sc) ?m1" using assms(3) v by (rule gstep.gstart)
  then have s1: "screen_step render gstep gui sc (sc\<lparr>page := ?m1\<rparr>)"
    using screen_step.page_step [of gstep sc ?m1 render gui] reconcile_hidden [of sc gui ?m1 render] assms(1)
    by (simp add: readme_shown_def start_run_def)
  have s2: "(screen_step render gstep gui)\<^sup>*\<^sup>* (sc\<lparr>page := ?m1\<rparr>)
      (reconcile render gui \<lparr>gui = finish_run (completion ?g) (snd (consume (remaining ?g) ([], start_run ?s))),
                             gen = None\<rparr> sc)"
    using loop_screen_pull_run [of ?g "sc\<lparr>page := ?m1\<rparr>" "[]" render] assms(1)
    by (simp add: start_run_def)
  have "finish_run (completion ?g) (snd (consume (remaining ?g) ([], start_run ?s))) = handleGenerate cl ?s"
    using v by (simp add: handleGenerate_def split: prod.split)
  with s1 s2 show ?thesis by (simp add: converse_rtranclp_into_rtranclp)
qed

text \<open>The sample URL taken from the initial screen: the screen ready to
  submit.\<close>

lemma loop_screen_sample_ready:
  "screen_step render gstep gui (init_screen ginit clip)
     ((init_screen ginit clip)\<lparr>page := \<lparr>gui = handleUseSample init_app, gen = None\<rparr>\<rparr>)"
proof -
  have "app_step \<lparr>ui = init_app, running = None\<rparr> \<lparr>ui = handleUseSample init_app, running = None\<rparr>"
    using app_step.use_sample [of "\<lparr>ui = init_app, running = None\<rparr>"] by (simp add: init_app_def)
  then have "gstep ginit \<lparr>gui = handleUseSample init_app, gen = None\<rparr>"
    using gstep.form [of ginit "handleUseSample init_app"] by (simp add: ginit_def)
  then show ?thesis
    using screen_step.page_step [of gstep "init_screen ginit clip" "\<lparr>gui = handleUseSample init_app, gen = None\<rparr>" render gui]
      reconcile_hidden [of "init_screen ginit clip" gui "\<lparr>gui = handleUseSample init_app, gen = None\<rparr>" render]
    by (simp add: init_screen_def readme_shown_def handleUseSample_def init_app_def ginit_def)
qed

end
