(* ===== verification/Spec2Isabelle.thy ===== *)
theory Spec2Isabelle
  imports LoopScreen
begin

text \<open>
  \<^bold>\<open>A verification library for the README generator (RepoScripter).\<close>

  \<^bold>\<open>The program.\<close>  A React page (\<open>src/App.tsx\<close>, with the form
  \<open>src/components/RepoInput.tsx\<close>) takes a GitHub URL, validates it with a
  regular expression, and consumes the async generator
  \<open>generateDocumentation\<close> of \<open>src/services/geminiService.ts\<close>.  The generator
  reports a status through a callback before each stage, yields the title,
  asks a text-generation service (\<open>ai.models.generateContent\<close>) for a summary
  of each \<open>.js\<close> file of a fixed snapshot (\<open>MOCK_REPO_DATA\<close>), for an
  architecture overview built from the file list, \<open>package.json\<close> and all
  summaries, and for three Markdown sections, and yields each piece.  The page
  appends every fragment to the displayed README, shows a thrown error, and
  clears its loading state in \<open>finally\<close>.  The status messages and the model
  name are in \<open>src/constants.ts\<close>.

  \<^bold>\<open>The theories, leaves first.\<close>
  \<^item> \<open>Prelude\<close>: the fact collections (\<open>act_simps\<close>, \<open>trace_simps\<close>) and the
    JavaScript built-ins the code calls: \<open>split\<close>, \<open>join\<close>, \<open>pop\<close>, \<open>||\<close>,
    \<open>endsWith\<close>, and the interpolation of \<open>undefined\<close> into a template, with
    their lemmas (split/join round trips, the last piece of a split).
  \<^item> \<open>Effects\<close>: the interface between the generator, the client and the page.
    A \<open>client\<close> answers the \<open>n\<close>-th call of a run with a thrown value or a
    response text (\<open>string option\<close>, \<open>None\<close> for \<open>undefined\<close>); it may differ
    from call to call, so nondeterminism and failure at any call are covered.
    An action \<open>'a act\<close> maps a client and the number of calls made so far to an
    outcome and a trace of events (\<open>Status\<close>, \<open>Call\<close>, \<open>Yield\<close>); \<open>bindA\<close> is
    \<open>await\<close> with exception propagation.  Rules (\<open>announces_intros\<close>,
    \<open>calls_within_intros\<close>, \<open>frags_intros\<close> with the postcondition
    \<open>returns\<close>) prove properties of composed actions for every client: all
    calls announced, a bound on calls, what and how many fragments are
    yielded; \<open>take_calls\<close> cuts a trace after its \<open>m\<close>-th call.
  \<^item> \<open>Constants\<close> (\<open>constants.ts\<close>), \<open>Snapshot\<close> (\<open>MOCK_REPO_DATA\<close>, with its
    contents, as an association list in key order, and the eligibility filter).
  \<^item> \<open>Agents\<close>: \<open>summarizeFile\<close>, \<open>synthesizeArchitecture\<close>, \<open>writeSection\<close>,
    each a prompt builder and one call; lemmas on their outcome on both
    branches and on what each prompt carries.
  \<^item> \<open>Orchestrator\<close>: \<open>generateDocumentation\<close> is \<open>generate_from MOCK_REPO_DATA\<close>,
    \<open>generate_from\<close> being the generator over any snapshot.  \<open>doc_events\<close> is the
    spec's fixed stage plan written out as a trace.  Main results: a run whose
    calls succeed produces exactly that trace (C1); a run whose \<open>k\<close>-th call
    throws produces it cut after the \<open>k\<close>-th call (C2, C3); for every client
    every call is announced by a status (C6), the title comes before any call
    (C9) and at most N+4 calls are made (C13); on success the fragments, the
    statuses and the flow of summaries and overview into later prompts are as
    the spec describes (C7, C8, C12); the title is the last URL segment (C14);
    a snapshot without \<open>package.json\<close> sends the word \<open>undefined\<close> as the
    manifest (C20); the Usage prompt quotes the summary of \<open>server.js\<close> (C22),
    and the word \<open>undefined\<close> when the snapshot lacks the looked-up files (C23);
    for every client every fragment ends with a blank line and there are at
    most five (C24).
  \<^item> \<open>App\<close>: the page's state, the URL check (shown to decide the
    regular expression's language, \<open>is_github_url_iff_re\<close>), \<open>handleGenerate\<close> on success (C4),
    failure (C5) and rejected input (C11), and the page as an inductive step
    relation \<open>app_step\<close> in which edits and submissions happen only while idle
    and an in-flight run advances one event at a time: its invariant over all
    reachable states (C10) and the completion of every run in the state
    \<open>handleGenerate\<close> computes (C15); every accepted URL is scheme, host,
    owner and the title the generator derives, never \<open>New Project\<close> (C25).  \<open>run_prefix\<close> gives the state after
    any prefix of a run's events.
  \<^item> \<open>View\<close>: what the JSX of \<open>App.tsx\<close> shows for a state (\<open>app_view\<close>: error
    banner, \<open>LoadingIndicator\<close>, \<open>ReadmeDisplay\<close>) and the state of a mounted
    \<open>ReadmeDisplay.tsx\<close> as the step relation \<open>display_step\<close> (new prop and its
    render effect, clicks, clipboard writes resolving or rejecting in any
    order, reset timers firing).  After a failure the error and the
    fragments yielded before it, title first, are shown (C17); the timers
    always re-enable the copy button (C19); two overlapping copies
    clear the second badge early (C21).  \<open>sample_in_flight\<close> is a page in
    the middle of a run, reached from the initial page.
  \<^item> \<open>Page\<close>: the page as a list of elements (\<open>page_view\<close>), built from
    \<open>header_view\<close> (\<open>Header.tsx\<close>), \<open>repo_input_view\<close> (\<open>RepoInput.tsx\<close>),
    \<open>loading_indicator_view\<close> (\<open>LoadingIndicator.tsx\<close>) and
    \<open>readme_display_view\<close> (\<open>ReadmeDisplay.tsx\<close>).  The README panel shows the rendering of its
    README and a copy button enabled exactly when a click is possible, and a
    shown \<open>Copied!\<close> badge has a reset pending (C26); during a run the whole
    page is the form disabled and the status, never the partial README (C27).
  \<^item> \<open>Screen\<close>: a page machine and its \<open>ReadmeDisplay\<close> instance together
    (\<open>'p screen\<close>: the page, the mounted panel if any, the system clipboard
    and the clipboard writes of unmounted panels still in flight), over any
    page machine: a step relation, a view of its state as \<open>App\<close>'s fields and
    an invariant.  \<open>page_machine\<close> is the interface the panel needs: the
    invariant is kept, and the README does not change while it is shown.
    \<open>reconcile\<close> is React's treatment of
    \<open>{generatedReadme && !isLoading && <ReadmeDisplay/>}\<close> (\<open>App.tsx\<close> line 83)
    after each page step: mount (\<open>mount_display\<close>), new prop, keep, or unmount,
    dropping the panel's state and timers; \<open>screen_step\<close> interleaves page
    steps, the mounted panel's own steps and the orphaned writes.  For every
    page machine meeting the interface, the composed invariant \<open>screen_inv\<close>
    holds in every reachable state: the panel is mounted exactly when the page
    shows it, with the page's README as its prop and its rendering on the page
    (C28); every clipboard write in flight carries the displayed README (C18);
    the step that ends loading mounts a fresh panel, never one from before
    (C29).  The event-level machine \<open>app_step\<close> is an instance
    (\<open>app_page_machine\<close>), on which the witnesses run.
  \<^item> \<open>LoopScreen\<close>: the same composition with the page run by the generator
    loop of \<open>AwaitPage\<close> (\<open>loop_page_machine\<close> discharges the interface of C18, C28 and C29 for
    it); a submission runs to its end through the screen's steps, the last
    one mounting the panel (\<open>loop_screen_submit_run\<close>).
  \<^item> \<open>Generator\<close>: the async generator protocol.  Calling
    \<open>generateDocumentation\<close> creates a generator object (\<open>gen_start\<close>) holding
    the body's not yet run trace; \<open>next()\<close> (\<open>gen_next\<close>) runs it to the next
    \<open>yield\<close>, to its end, or to a throw; \<open>pulls\<close>, a \<open>function\<close> whose
    termination measure is the length of the trace left, counts the
    \<open>next()\<close> calls that drain it (one per fragment, plus one).
  \<^item> \<open>AwaitPage\<close>: the page as the code runs it, with the generator object and
    the handler's local \<open>readmeContent\<close> held between two \<open>await\<close>s
    (\<open>gmachine\<close>).  \<open>loop_iter\<close> is one iteration of \<open>for await\<close> in
    \<open>handleGenerate\<close> (one \<open>next()\<close> with its status callbacks, then the loop
    body, or the exit through \<open>catch\<close> and \<open>finally\<close>); \<open>gstep\<close> adds the form's
    steps and the submission.  \<open>gabs\<close> maps it to \<open>app_step\<close> of \<open>App\<close>,
    each iteration being the page machine's steps for the events it runs
    (\<open>gstep_simulates\<close>), which carries the page invariant to this machine
    (\<open>ginv_reachable\<close>); a submission reaches the state \<open>handleGenerate\<close>
    computes in exactly one step per \<open>next()\<close> call, at most six (C30); while
    a run is in flight the next iteration is the only step (C31).
  \<^item> This theory: whole-program scenarios evaluated from the lemmas above.
    A service whose responses have no text makes the page show the word
    \<open>undefined\<close> in place of the overview and every section, with no error
    (C16, the divergence from the spec recorded for \<open>geminiService.ts\<close> line 101).
    End to end (C32): for every client answering the six calls, typing an
    accepted URL and submitting from the initial screen of the page run by the
    generator loop reaches an idle page
    whose freshly mounted README panel shows the rendering of a README that
    contains every answer of the service verbatim; since \<open>ReadmeDisplay\<close>
    renders with \<open>html: true\<close> into \<open>dangerouslySetInnerHTML\<close>, that text reaches
    the page unsanitized (\<open>loop_screen_submit_run\<close> of \<open>LoopScreen\<close> carries
    the run).

  \<^bold>\<open>Bounds.\<close>  Nothing is bounded by fuel: every loop of the code is over a
  finite list (the eligible files, the trace), so all definitions are total:
  structural, or (\<open>pulls\<close>) by the measure of the trace left; the loop of \<open>AwaitPage\<close> ends after \<open>pulls\<close> iterations.  The number of remote calls of a run is \<open>N + 4\<close>, \<open>N\<close> the
  number of eligible files (2 for \<open>MOCK_REPO_DATA\<close>).

  \<^bold>\<open>Not modelled.\<close>  The SDK's networking and the model's text (the client
  is arbitrary): the generation client component stays partly modelled,
  since \<open>new GoogleGenAI\<close> and \<open>ai.models.generateContent\<close> belong to the
  \<open>@google/genai\<close> library, of which only the call's contract (a response text
  or a thrown value) is modelled; Markdown rendering by Remarkable (a parameter \<open>render\<close>), the
  markup and styling of every component, and wall-clock time (a timer is a
  pending event that may fire at any later step); React's render scheduling (state updates are applied in the order the code
  makes them).  \<open>FileSummary\<close> and \<open>MockRepository\<close> come from \<open>types.ts\<close>,
  which is not under \<open>src/\<close>, and follow the spec.

  \<^bold>\<open>Coverage.\<close>  The lines of \<open>src/\<close> not mapped to a definition are
  imports, type-only prop interfaces, blank lines and closing braces, the
  construction of the SDK client (\<open>new GoogleGenAI\<close>) and of the Remarkable
  renderer (\<open>new Remarkable\<close>), both libraries: every statement with
  behaviour is modelled.
\<close>

section \<open>Whole-program scenarios\<close>

lemma eligible_mock_ne: "eligible MOCK_REPO_DATA \<noteq> []"
  using length_eligible_mock by (metis list.size(3) zero_neq_numeral)

text \<open>C16: When every response of the service has no text, the sample run
  still succeeds with no error shown, and the page displays the literal word
  \<open>undefined\<close> as the overview and as the body of every section.\<close>

theorem undefined_text_readme:
  "handleGenerate (\<lambda>i r. Inr None) (handleUseSample init_app) =
   (handleUseSample init_app)\<lparr>isLoading := False, loadingMessage := [],
     generatedReadme := ''# reactjs.org\<newline>\<newline>undefined\<newline>\<newline>## Installation\<newline>\<newline>undefined\<newline>\<newline>## Usage\<newline>\<newline>undefined\<newline>\<newline>## API Reference\<newline>\<newline>undefined\<newline>\<newline>'', error := None\<rparr>"
proof -
  have run: "generateDocumentation ''https://github.com/reactjs/reactjs.org'' (\<lambda>i r. Inr None) 0 =
      (Inr (), doc_events MOCK_REPO_DATA ''https://github.com/reactjs/reactjs.org'' (\<lambda>i r. None))"
    unfolding generateDocumentation_def
    using generate_from_ok_trace [of MOCK_REPO_DATA "\<lambda>i r. Inr None" "\<lambda>i r. None"] by simp
  have v: "validate ''https://github.com/reactjs/reactjs.org'' = None"
    using sample_url_valid by (simp only: validate_None_iff)
  have "handleGenerate (\<lambda>i r. Inr None) (handleUseSample init_app) =
     (handleUseSample init_app)\<lparr>isLoading := False, loadingMessage := [],
        generatedReadme := concat (yields (doc_events MOCK_REPO_DATA ''https://github.com/reactjs/reactjs.org'' (\<lambda>i r. None))),
        error := None\<rparr>"
  proof -
    have v': "validate (repoUrl (handleUseSample init_app)) = None"
      using v by (simp add: handleUseSample_def)
    have run': "generateDocumentation (repoUrl (handleUseSample init_app)) (\<lambda>i r. Inr None) 0 =
        (Inr (), doc_events MOCK_REPO_DATA ''https://github.com/reactjs/reactjs.org'' (\<lambda>i r. None))"
      using run by (simp add: handleUseSample_def)
    from handleGenerate_started [OF v' run'] show ?thesis by simp
  qed
  also have "concat (yields (doc_events MOCK_REPO_DATA ''https://github.com/reactjs/reactjs.org'' (\<lambda>i r. None))) =
     ''# reactjs.org\<newline>\<newline>undefined\<newline>\<newline>## Installation\<newline>\<newline>undefined\<newline>\<newline>## Usage\<newline>\<newline>undefined\<newline>\<newline>## API Reference\<newline>\<newline>undefined\<newline>\<newline>''"
    using eligible_mock_ne by (simp add: doc_events_def Let_def title_md_def sample_title section_md_def)
  finally show ?thesis .
qed

text \<open>C32: End to end, for every client that answers the six calls of a run:
  from the initial page with its README panel unmounted, typing an accepted
  URL and submitting reaches an idle page with no error whose README panel is
  freshly mounted on the run's README, the page carries the rendering of that
  README, and the README contains the overview and the three section answers
  of the service verbatim.\<close>

theorem answers_reach_panel:
  fixes ans :: "nat \<Rightarrow> string" and cl :: client
  assumes "is_github_url u" and "\<forall>i < 6. \<forall>r. cl i r = Inr (Some (ans i))"
  shows "\<exists>sc. (screen_step render gstep gui)\<^sup>*\<^sup>* (init_screen ginit clip) sc \<and>
    gen (page sc) = None \<and> \<not> isLoading (gui (page sc)) \<and> error (gui (page sc)) = None \<and>
    panel sc = Some (mount_display render (generatedReadme (gui (page sc))) clip) \<and>
    Html (render (generatedReadme (gui (page sc)))) \<in> set (page_view (the (panel sc)) (gui (page sc))) \<and>
    sublist (ans 2) (generatedReadme (gui (page sc))) \<and> sublist (ans 3) (generatedReadme (gui (page sc))) \<and>
    sublist (ans 4) (generatedReadme (gui (page sc))) \<and> sublist (ans 5) (generatedReadme (gui (page sc)))"
proof -
  let ?s1 = "init_app\<lparr>repoUrl := u\<rparr>"
  let ?sc0 = "init_screen ginit clip"
  let ?m1 = "\<lparr>gui = ?s1, gen = None\<rparr>"
  let ?sc1 = "?sc0\<lparr>page := ?m1\<rparr>"
  let ?D = "doc_events MOCK_REPO_DATA u (\<lambda>i (r::gen_request). Some (ans i))"
  let ?R = "concat (yields ?D)"
  let ?s2 = "?s1\<lparr>isLoading := False, loadingMessage := [], generatedReadme := ?R, error := None\<rparr>"
  have "app_step \<lparr>ui = init_app, running = None\<rparr> \<lparr>ui = ?s1, running = None\<rparr>"
    using app_step.edit [of "\<lparr>ui = init_app, running = None\<rparr>" u] by (simp add: init_app_def)
  then have a0: "gstep (page ?sc0) ?m1"
    using gstep.form [of ginit ?s1] by (simp add: init_screen_def ginit_def)
  have s0: "screen_step render gstep gui ?sc0 ?sc1"
    using screen_step.page_step [of gstep ?sc0 ?m1 render gui, OF a0] reconcile_hidden [of ?sc0 gui ?m1 render]
    by (simp add: init_screen_def readme_shown_def init_app_def)
  have run: "generateDocumentation u cl 0 = (Inr (), ?D)"
    unfolding generateDocumentation_def using assms(2) by (intro generate_from_ok_trace) simp
  have v: "validate u = None" using assms(1) by (simp add: validate_None_iff)
  have hg: "handleGenerate cl ?s1 = ?s2"
    using handleGenerate_started [of ?s1 cl "Inr ()" ?D] v run by simp
  have s1: "(screen_step render gstep gui)\<^sup>*\<^sup>* ?sc1 (reconcile render gui \<lparr>gui = ?s2, gen = None\<rparr> ?sc1)"
    using loop_screen_submit_run [of ?sc1 render cl] assms(1) hg by (simp add: init_screen_def init_app_def)
  have R: "?R = title_md u @ ans 2 @ ''\<newline>\<newline>'' @ section_md ''Installation'' (Some (ans 3)) @
      section_md ''Usage'' (Some (ans 4)) @ section_md ''API Reference'' (Some (ans 5))"
    by (simp add: doc_events_def Let_def eval_nat_numeral)
  have shown: "readme_shown ?s2" by (simp add: readme_shown_def R)
  let ?sc = "reconcile render gui \<lparr>gui = ?s2, gen = None\<rparr> ?sc1"
  have p: "panel ?sc = Some (mount_display render ?R clip)"
    using shown by (simp add: reconcile_def init_screen_def)
  have html: "Html (render ?R) \<in> set (page_view (mount_display render ?R clip) ?s2)"
    using shown
    by (auto simp: page_view_def app_view_def panel_view_def readme_display_view_def mount_display_def
                   readme_shown_def)
  have subs: "sublist (ans 2) ?R \<and> sublist (ans 3) ?R \<and> sublist (ans 4) ?R \<and> sublist (ans 5) ?R"
    unfolding R section_md_def js_str.simps append_assoc
    by (intro conjI; (rule sublist_append_rightI | rule sublist_skip)+)
  show ?thesis
    using converse_rtranclp_into_rtranclp [OF s0 s1] p html subs by (intro exI [of _ ?sc]) simp
qed

theorem answers_reach_panel_witness:
  "is_github_url ''https://github.com/reactjs/reactjs.org'' \<and>
   (\<exists>sc. (screen_step id gstep gui)\<^sup>*\<^sup>* (init_screen ginit []) sc \<and>
    gen (page sc) = None \<and> \<not> isLoading (gui (page sc)) \<and> error (gui (page sc)) = None \<and>
    panel sc = Some (mount_display id (generatedReadme (gui (page sc))) []) \<and>
    Html (generatedReadme (gui (page sc))) \<in> set (page_view (the (panel sc)) (gui (page sc))) \<and>
    sublist ''ok'' (generatedReadme (gui (page sc))))"
proof -
  have u: "is_github_url ''https://github.com/reactjs/reactjs.org''" by (rule sample_url_valid)
  from answers_reach_panel [of "''https://github.com/reactjs/reactjs.org''" "\<lambda>i r. Inr (Some ''ok'')"
      "\<lambda>i. ''ok''" id "[]"] u
  show ?thesis by auto
qed

end
